(* ===== verification/RpcPrelude.thy ===== *)
theory RpcPrelude
  imports Complex_Main "HOL-Library.Word"
begin

text \<open>
  Shared vocabulary of the development: the server a build targets, the outcome of a fallible
  C++ call, the byte-string primitives of the C++ standard library the sources use
  (\<^verbatim>\<open>std::from_chars\<close>, \<^verbatim>\<open>std::tolower\<close>, \<^verbatim>\<open>std::isalnum\<close>, \<^verbatim>\<open>c_str()\<close>, the integer case of
  \<^verbatim>\<open>std::format\<close>) and the generic lemmas the component theories use.

  A \<^verbatim>\<open>std::string\<close> is a \<open>string\<close>: a list of 8-bit characters. Machine integers are words:
  \<open>int64\<close> is read with \<open>sint\<close>, the unsigned ones with \<open>unat\<close>.
\<close>

named_theorems outcome_simps "equations of the outcome combinators"
named_theorems view_simps "equations of the field-view accessors"

type_synonym int64 = "64 word"
type_synonym uint64 = "64 word"
type_synonym uint32 = "32 word"

section \<open>The target server\<close>

datatype server = Clio | Xrpld

abbreviation kIsClioBuild :: "server \<Rightarrow> bool" where
  "kIsClioBuild srv \<equiv> srv = Clio"

abbreviation kIsXrpldBuild :: "server \<Rightarrow> bool" where
  "kIsXrpldBuild srv \<equiv> srv \<noteq> Clio"

section \<open>Outcomes\<close>

text \<open>
  \<open>Ret\<close> and \<open>Fail\<close> are the two sides of \<^verbatim>\<open>std::expected\<close>. \<open>Throw\<close> is everything else a C++
  call can do: an exception that leaves the call, or an access the language does not define
  (writing through a null pointer, reading a JSON value as a kind it does not have, the back of an
  empty vector).
\<close>

datatype exn =
    LogicError string
  | OutOfRange string
  | BadKind
  | NullAccess
  | BadSpan
  | BadShift
  | EmptyBack

datatype ('a, 'e) outcome = Ret 'a | Fail 'e | Throw exn

definition obind :: "('a, 'e) outcome \<Rightarrow> ('a \<Rightarrow> ('b, 'e) outcome) \<Rightarrow> ('b, 'e) outcome" where
  "obind r k = (case r of Ret x \<Rightarrow> k x | Fail e \<Rightarrow> Fail e | Throw x \<Rightarrow> Throw x)"

definition omap :: "('a \<Rightarrow> 'b) \<Rightarrow> ('a, 'e) outcome \<Rightarrow> ('b, 'e) outcome" where
  "omap f r = obind r (\<lambda>x. Ret (f x))"

text \<open>The same for a computation that also returns the state it left behind.\<close>

definition sbind ::
    "'s \<times> ('a, 'e) outcome \<Rightarrow> ('a \<Rightarrow> 's \<Rightarrow> 's \<times> ('b, 'e) outcome) \<Rightarrow> 's \<times> ('b, 'e) outcome" where
  "sbind p k = (case p of (s, r) \<Rightarrow>
     (case r of Ret x \<Rightarrow> k x s | Fail e \<Rightarrow> (s, Fail e) | Throw x \<Rightarrow> (s, Throw x)))"

definition throws :: "('a, 'e) outcome \<Rightarrow> bool" where
  "throws r = (case r of Throw x \<Rightarrow> True | _ \<Rightarrow> False)"

definition succeeds :: "('a, 'e) outcome \<Rightarrow> bool" where
  "succeeds r = (case r of Ret x \<Rightarrow> True | _ \<Rightarrow> False)"

lemma obind_simps [simp, outcome_simps]:
  "obind (Ret x) k = k x" "obind (Fail e) k = Fail e" "obind (Throw t) k = Throw t"
  by (simp_all add: obind_def)

lemma omap_simps [simp, outcome_simps]:
  "omap f (Ret x) = Ret (f x)" "omap f (Fail e) = Fail e" "omap f (Throw t) = Throw t"
  by (simp_all add: omap_def)

lemma sbind_simps [simp, outcome_simps]:
  "sbind (s, Ret x) k = k x s" "sbind (s, Fail e) k = (s, Fail e)"
  "sbind (s, Throw t) k = (s, Throw t)"
  by (simp_all add: sbind_def)

lemma throws_simps [simp, outcome_simps]:
  "\<not> throws (Ret x)" "\<not> throws (Fail e)" "throws (Throw t)"
  by (simp_all add: throws_def)

lemma succeeds_simps [simp, outcome_simps]:
  "succeeds (Ret x)" "\<not> succeeds (Fail e)" "\<not> succeeds (Throw t)"
  by (simp_all add: succeeds_def)

lemma throws_obind: "throws (obind r k) \<longleftrightarrow> throws r \<or> (\<exists>x. r = Ret x \<and> throws (k x))"
  by (cases r) simp_all

lemma throws_omap [simp]: "throws (omap f r) = throws r"
  by (cases r) simp_all

lemma succeeds_unit: "succeeds r \<longleftrightarrow> r = Ret ()"
  by (cases r) simp_all

lemma obind_eq_Ret: "obind r k = Ret y \<longleftrightarrow> (\<exists>x. r = Ret x \<and> k x = Ret y)"
  by (cases r) simp_all

lemma omap_eq_Ret: "omap f r = Ret y \<longleftrightarrow> (\<exists>x. r = Ret x \<and> y = f x)"
  by (cases r) auto

section \<open>Bytes and characters\<close>

definition is_digit :: "char \<Rightarrow> bool" where
  "is_digit c = (48 \<le> (of_char c :: nat) \<and> (of_char c :: nat) \<le> 57)"

definition is_upper :: "char \<Rightarrow> bool" where
  "is_upper c = (65 \<le> (of_char c :: nat) \<and> (of_char c :: nat) \<le> 90)"

definition is_lower :: "char \<Rightarrow> bool" where
  "is_lower c = (97 \<le> (of_char c :: nat) \<and> (of_char c :: nat) \<le> 122)"

definition tolower :: "char \<Rightarrow> char" where
  "tolower c = (if is_upper c then char_of ((of_char c :: nat) + 32) else c)"

definition isalnum :: "char \<Rightarrow> bool" where
  "isalnum c = (is_digit c \<or> is_upper c \<or> is_lower c)"

definition lower_string :: "string \<Rightarrow> string" where
  "lower_string s = map tolower s"

text \<open>What \<^verbatim>\<open>parseHex(std::string{s}.c_str())\<close> sees: the text up to the first NUL.\<close>

definition c_str :: "string \<Rightarrow> string" where
  "c_str s = takeWhile (\<lambda>c. c \<noteq> CHR 0x00) s"

definition starts_with :: "char \<Rightarrow> string \<Rightarrow> bool" where
  "starts_with c s = (s \<noteq> [] \<and> hd s = c)"

lemma of_char_tolower:
  "(of_char (tolower c) :: nat) = (if is_upper c then of_char c + 32 else of_char c)"
  by (simp add: tolower_def is_upper_def)

lemma not_upper_tolower: "\<not> is_upper (tolower c)"
  using of_char_tolower [of c] by (auto simp: is_upper_def)

lemma tolower_idem [simp]: "tolower (tolower c) = tolower c"
  using not_upper_tolower by (simp add: tolower_def [of "tolower c"])

lemma lower_string_idem [simp]: "lower_string (lower_string s) = lower_string s"
  by (simp add: lower_string_def)

lemma length_lower_string [simp]: "length (lower_string s) = length s"
  by (simp add: lower_string_def)

lemma c_str_id: "CHR 0x00 \<notin> set s \<Longrightarrow> c_str s = s"
  unfolding c_str_def by (rule takeWhile_eq_all_conv [THEN iffD2]) blast

lemma c_str_append_nul: "CHR 0x00 \<notin> set s \<Longrightarrow> c_str (s @ CHR 0x00 # t) = s"
  using c_str_id [of s] by (simp add: c_str_def takeWhile_append del: takeWhile_eq_all_conv)

section \<open>Decimal numbers\<close>

fun dec_value :: "nat \<Rightarrow> string \<Rightarrow> nat" where
  "dec_value acc [] = acc"
| "dec_value acc (c # cs) = dec_value (10 * acc + (of_char c - 48)) cs"

text \<open>\<^verbatim>\<open>std::format("{}", n)\<close> and \<^verbatim>\<open>std::to_string(n)\<close> on an unsigned integer.\<close>

fun dec_digits :: "nat \<Rightarrow> string" where
  "dec_digits n =
     (if n < 10 then [char_of (48 + n)] else dec_digits (n div 10) @ [char_of (48 + n mod 10)])"

declare dec_digits.simps [simp del]

datatype errc = NoError | InvalidArgument | ResultOutOfRange

text \<open>
  \<^verbatim>\<open>std::from_chars\<close> in base 10: the value written (0, the initial value, unless it succeeds),
  the error code, and the text from the returned pointer on. No sign is accepted for an
  unsigned target, and a leading minus only for a signed one.
\<close>

definition from_chars_unsigned :: "nat \<Rightarrow> string \<Rightarrow> nat \<times> errc \<times> string" where
  "from_chars_unsigned maxv s =
     (let ds = takeWhile is_digit s; rest = dropWhile is_digit s in
      if ds = [] then (0, InvalidArgument, s)
      else if maxv < dec_value 0 ds then (0, ResultOutOfRange, rest)
      else (dec_value 0 ds, NoError, rest))"

definition from_chars_int64 :: "string \<Rightarrow> int \<times> errc \<times> string" where
  "from_chars_int64 s =
     (let neg = starts_with CHR ''-'' s;
          t = (if neg then tl s else s);
          ds = takeWhile is_digit t;
          rest = dropWhile is_digit t;
          v = (if neg then - int (dec_value 0 ds) else int (dec_value 0 ds))
      in if ds = [] then (0, InvalidArgument, s)
         else if v < - (2 ^ 63) \<or> 2 ^ 63 \<le> v then (0, ResultOutOfRange, rest)
         else (v, NoError, rest))"

text \<open>The test every caller makes: no error and every byte consumed.\<close>

definition whole_match :: "'n \<times> errc \<times> string \<Rightarrow> 'n option" where
  "whole_match r = (case r of (v, ec, rest) \<Rightarrow> if ec = NoError \<and> rest = [] then Some v else None)"

definition all_digits :: "string \<Rightarrow> bool" where
  "all_digits s = (s \<noteq> [] \<and> list_all is_digit s)"

lemma takeWhile_all_set [simp]: "\<forall>x\<in>set s. P x \<Longrightarrow> takeWhile P s = s"
  by (rule takeWhile_eq_all_conv [THEN iffD2])

lemma whole_match_unsigned:
  "whole_match (from_chars_unsigned m s) =
     (if all_digits s \<and> dec_value 0 s \<le> m then Some (dec_value 0 s) else None)"
  by (cases "\<forall>c\<in>set s. is_digit c")
    (auto simp: whole_match_def from_chars_unsigned_def all_digits_def list_all_iff Let_def)

lemma not_digit_minus [simp]: "\<not> is_digit CHR ''-''" "\<not> is_digit CHR ''+''" "\<not> is_digit CHR '',''"
  by (simp_all add: is_digit_def)

lemma starts_with_minus_not_digits: "starts_with CHR ''-'' s \<Longrightarrow> \<not> all_digits s"
  by (cases s) (auto simp: starts_with_def all_digits_def)

lemma whole_match_int64:
  "whole_match (from_chars_int64 s) =
     (if all_digits s \<and> dec_value 0 s < 2 ^ 63 then Some (int (dec_value 0 s))
      else if starts_with CHR ''-'' s \<and> all_digits (tl s) \<and> dec_value 0 (tl s) \<le> 2 ^ 63
        then Some (- int (dec_value 0 (tl s)))
      else None)"
proof (cases "starts_with CHR ''-'' s")
  case True
  then show ?thesis
    using starts_with_minus_not_digits [OF True]
    by (cases "\<forall>c\<in>set (tl s). is_digit c")
      (auto simp: whole_match_def from_chars_int64_def all_digits_def list_all_iff Let_def)
next
  case False
  then show ?thesis
    by (cases "\<forall>c\<in>set s. is_digit c")
      (auto simp: whole_match_def from_chars_int64_def all_digits_def list_all_iff Let_def)
qed

lemma dec_value_append: "dec_value acc (s @ t) = dec_value (dec_value acc s) t"
  by (induction s arbitrary: acc) auto

lemma of_char_digit: "d < 10 \<Longrightarrow> (of_char (char_of (48 + d :: nat)) :: nat) = 48 + d"
  by simp

lemma is_digit_char_of [simp]: "d < 10 \<Longrightarrow> is_digit (char_of (48 + d :: nat))"
  by (simp add: is_digit_def)

lemma dec_digits_all: "all_digits (dec_digits n)"
proof (induction n rule: dec_digits.induct)
  case (1 n)
  then show ?case
    by (auto simp: dec_digits.simps [of n] all_digits_def)
qed

lemma dec_value_digits [simp]: "dec_value 0 (dec_digits n) = n"
proof (induction n rule: dec_digits.induct)
  case (1 n)
  then show ?case
    by (auto simp: dec_digits.simps [of n] dec_value_append)
qed

lemma whole_match_dec_digits:
  "n \<le> m \<Longrightarrow> whole_match (from_chars_unsigned m (dec_digits n)) = Some n"
  by (simp add: whole_match_unsigned dec_digits_all)

end
