(* ===== verification/RpcErrors.thy ===== *)
theory RpcErrors
  imports RpcPrelude
begin

text \<open>
  \<^verbatim>\<open>include/rpcspec/Errors.hpp\<close> and the result types of \<^verbatim>\<open>include/rpcspec/Types.hpp\<close>: error codes,
  the server-dependent names and messages, \<^verbatim>\<open>Status\<close>, and the warnings. The preprocessor switch
  \<^verbatim>\<open>RPCSPEC_IS_CLIO\<close> is the argument \<open>srv\<close>. Of xrpld's code enumeration, which belongs to
  libxrpl, the model has the members the sources name.
\<close>

datatype xrpld_error =
    RpcSuccess | RpcUnknown | RpcInvalidParams | RpcActMalformed | RpcNotSupported
  | RpcBadIssuer | RpcBadMarket | RpcDomainMalformed | RpcDstAmtMalformed | RpcDstIsrMalformed
  | RpcInvalidHotwallet | RpcIssueMalformed | RpcNoPermission | RpcOracleMalformed
  | RpcSrcCurMalformed | RpcSrcIsrMalformed | RpcStreamMalformed

datatype clio_error =
    RpcMalformedCurrency | RpcMalformedRequest | RpcMalformedOwner | RpcMalformedAddress
  | RpcUnknownOption | RpcFieldNotFoundTransaction | RpcMalformedOracleDocumentId
  | RpcMalformedAuthorizedCredentials
  | RpcInvalidApiVersion | RpcCommandIsMissing | RpcCommandNotString | RpcCommandIsEmpty
  | RpcParamsUnparsable
  | RpcForwardingConnectionError | RpcForwardingRequestError | RpcForwardingTimeout
  | RpcForwardingInvalidResponse

fun clio_code :: "clio_error \<Rightarrow> int" where
  "clio_code RpcMalformedCurrency = 5000"
| "clio_code RpcMalformedRequest = 5001"
| "clio_code RpcMalformedOwner = 5002"
| "clio_code RpcMalformedAddress = 5003"
| "clio_code RpcUnknownOption = 5005"
| "clio_code RpcFieldNotFoundTransaction = 5006"
| "clio_code RpcMalformedOracleDocumentId = 5007"
| "clio_code RpcMalformedAuthorizedCredentials = 5008"
| "clio_code RpcInvalidApiVersion = 6000"
| "clio_code RpcCommandIsMissing = 6001"
| "clio_code RpcCommandNotString = 6002"
| "clio_code RpcCommandIsEmpty = 6003"
| "clio_code RpcParamsUnparsable = 6004"
| "clio_code RpcForwardingConnectionError = 7000"
| "clio_code RpcForwardingRequestError = 7001"
| "clio_code RpcForwardingTimeout = 7002"
| "clio_code RpcForwardingInvalidResponse = 7003"

datatype combined_error = XrpldErr xrpld_error | ClioErr clio_error

definition kMalformedRequest :: "server \<Rightarrow> combined_error" where
  "kMalformedRequest srv =
     (if kIsClioBuild srv then ClioErr RpcMalformedRequest else XrpldErr RpcInvalidParams)"

definition kMalformedAddress :: "server \<Rightarrow> combined_error" where
  "kMalformedAddress srv =
     (if kIsClioBuild srv then ClioErr RpcMalformedAddress else XrpldErr RpcInvalidParams)"

definition kMalformedOwner :: "server \<Rightarrow> combined_error" where
  "kMalformedOwner srv =
     (if kIsClioBuild srv then ClioErr RpcMalformedOwner else XrpldErr RpcInvalidParams)"

definition kMalformedCurrency :: "server \<Rightarrow> combined_error" where
  "kMalformedCurrency srv =
     (if kIsClioBuild srv then ClioErr RpcMalformedCurrency else XrpldErr RpcInvalidParams)"

definition kMalformedOracleDocumentId :: "server \<Rightarrow> combined_error" where
  "kMalformedOracleDocumentId srv =
     (if kIsClioBuild srv then ClioErr RpcMalformedOracleDocumentId
      else XrpldErr RpcInvalidParams)"

definition kMalformedAuthorizedCredentials :: "server \<Rightarrow> combined_error" where
  "kMalformedAuthorizedCredentials srv =
     (if kIsClioBuild srv then ClioErr RpcMalformedAuthorizedCredentials
      else XrpldErr RpcInvalidParams)"

definition kFieldNotFoundTransaction :: "server \<Rightarrow> combined_error" where
  "kFieldNotFoundTransaction srv =
     (if kIsClioBuild srv then ClioErr RpcFieldNotFoundTransaction
      else XrpldErr RpcInvalidParams)"

definition kMalformedField :: combined_error where
  "kMalformedField = XrpldErr RpcInvalidParams"

section \<open>Messages\<close>

definition missingFieldMessage :: "server \<Rightarrow> string \<Rightarrow> string" where
  "missingFieldMessage srv f =
     (if kIsClioBuild srv then ''Required field '' @ [CHR 0x27] @ f @ [CHR 0x27] @ '' missing''
      else ''Missing field '' @ [CHR 0x27] @ f @ [CHR 0x27] @ ''.'')"

definition expectedFieldMessage :: "string \<Rightarrow> string \<Rightarrow> string" where
  "expectedFieldMessage f ty =
     ''Invalid field '' @ [CHR 0x27] @ f @ [CHR 0x27] @ '', not '' @ ty @ ''.''"

definition invalidFieldMessage :: "string \<Rightarrow> string" where
  "invalidFieldMessage f = ''Invalid field '' @ [CHR 0x27] @ f @ [CHR 0x27] @ ''.''"

definition notStringFieldMessage :: "server \<Rightarrow> string \<Rightarrow> string" where
  "notStringFieldMessage srv f =
     (if kIsClioBuild srv then f @ ''NotString'' else invalidFieldMessage f)"

definition malformedFieldMessage :: "server \<Rightarrow> string \<Rightarrow> string" where
  "malformedFieldMessage srv f =
     (if kIsClioBuild srv then f @ ''Malformed'' else invalidFieldMessage f)"

definition malformedLedgerIndexMessage :: "server \<Rightarrow> string" where
  "malformedLedgerIndexMessage srv =
     (if kIsClioBuild srv then ''ledgerIndexMalformed''
      else expectedFieldMessage ''ledger_index'' ''string or number'')"

definition malformedCursorMessage :: "server \<Rightarrow> string \<Rightarrow> string" where
  "malformedCursorMessage srv f =
     (if kIsClioBuild srv then ''Malformed cursor.'' else invalidFieldMessage f)"

section \<open>Status\<close>

datatype extra_value =
    ExtraBool bool | ExtraInt64 int64 | ExtraUint64 uint64 | ExtraDouble real | ExtraString string

type_synonym extra_info = "(string \<times> extra_value) list"

record status =
  st_code :: combined_error
  st_error :: string
  st_message :: string
  st_extraInfo :: "extra_info option"

definition status_default :: status where
  "status_default =
     \<lparr>st_code = XrpldErr RpcSuccess, st_error = '''', st_message = '''', st_extraInfo = None\<rparr>"

definition status_of :: "combined_error \<Rightarrow> status" where
  "status_of c = status_default\<lparr>st_code := c\<rparr>"

definition status_extra :: "combined_error \<Rightarrow> extra_info \<Rightarrow> status" where
  "status_extra c x = status_default\<lparr>st_code := c, st_extraInfo := Some x\<rparr>"

definition status_text :: "string \<Rightarrow> status" where
  "status_text m = status_default\<lparr>st_code := XrpldErr RpcUnknown, st_message := m\<rparr>"

definition status_msg :: "combined_error \<Rightarrow> string \<Rightarrow> status" where
  "status_msg c m = status_default\<lparr>st_code := c, st_message := m\<rparr>"

definition status_err_msg :: "combined_error \<Rightarrow> string \<Rightarrow> string \<Rightarrow> status" where
  "status_err_msg c e m = status_default\<lparr>st_code := c, st_error := e, st_message := m\<rparr>"

abbreviation invalidParams :: status where
  "invalidParams \<equiv> status_of (XrpldErr RpcInvalidParams)"

text \<open>\<^verbatim>\<open>operator bool\<close>: true when the status is an error.\<close>

definition status_bool :: "status \<Rightarrow> bool" where
  "status_bool s = (case st_code s of XrpldErr e \<Rightarrow> e \<noteq> RpcSuccess | ClioErr e \<Rightarrow> True)"

definition status_eq_xrpld :: "status \<Rightarrow> xrpld_error \<Rightarrow> bool" where
  "status_eq_xrpld s e = (case st_code s of XrpldErr e' \<Rightarrow> e' = e | ClioErr _ \<Rightarrow> False)"

definition status_eq_clio :: "status \<Rightarrow> clio_error \<Rightarrow> bool" where
  "status_eq_clio s e = (case st_code s of ClioErr e' \<Rightarrow> e' = e | XrpldErr _ \<Rightarrow> False)"

type_synonym 'a parsed = "('a, status) outcome"

section \<open>Warnings\<close>

datatype warning_code =
  WarnUnknown | WarnRpcClio | WarnRpcOutdated | WarnRpcRateLimit | WarnRpcDeprecated

fun warning_value :: "warning_code \<Rightarrow> int" where
  "warning_value WarnUnknown = -1"
| "warning_value WarnRpcClio = 2001"
| "warning_value WarnRpcOutdated = 2002"
| "warning_value WarnRpcRateLimit = 2003"
| "warning_value WarnRpcDeprecated = 2004"

lemma warning_value_inj [simp]: "warning_value a = warning_value b \<longleftrightarrow> a = b"
  by (cases a; cases b) simp_all

text \<open>The order \<^verbatim>\<open>std::map<WarningCode, ...>\<close> iterates in: that of the enumerators' values.\<close>

instantiation warning_code :: linorder
begin

definition less_eq_warning_code :: "warning_code \<Rightarrow> warning_code \<Rightarrow> bool" where
  "less_eq_warning_code a b = (warning_value a \<le> warning_value b)"

definition less_warning_code :: "warning_code \<Rightarrow> warning_code \<Rightarrow> bool" where
  "less_warning_code a b = (warning_value a < warning_value b)"

instance
  by standard (auto simp: less_eq_warning_code_def less_warning_code_def)

end

record warning =
  wn_code :: warning_code
  wn_field :: string
  wn_message :: string

type_synonym warnings = "warning list"

record warning_info =
  wi_code :: warning_code
  wi_message :: string

definition kInfos :: "warning_info list" where
  "kInfos =
    [\<lparr>wi_code = WarnUnknown, wi_message = ''Unknown warning''\<rparr>,
     \<lparr>wi_code = WarnRpcClio, wi_message =
        ''This is a clio server. clio only serves validated data. If you want to talk to xrpld, '' @
        ''include '' @ [CHR 0x27] @ ''ledger_index'' @ [CHR 0x27] @ '':'' @ [CHR 0x27] @
        ''current'' @ [CHR 0x27] @ '' in your request''\<rparr>,
     \<lparr>wi_code = WarnRpcOutdated, wi_message = ''This server may be out of date''\<rparr>,
     \<lparr>wi_code = WarnRpcRateLimit, wi_message = ''You are about to be rate limited''\<rparr>,
     \<lparr>wi_code = WarnRpcDeprecated, wi_message =
        ''Some fields from your request are deprecated. Please check the documentation at '' @
        ''https://xrpl.org/docs/references/http-websocket-apis/ and update your request.''\<rparr>]"

definition getWarningInfo :: "warning_code \<Rightarrow> warning_info parsed" where
  "getWarningInfo c =
     (case find (\<lambda>info. wi_code info = c) kInfos of
        Some info \<Rightarrow> Ret info
      | None \<Rightarrow> Throw (OutOfRange ''Invalid WarningCode''))"

lemma getWarningInfo_total: "\<exists>m. getWarningInfo c = Ret \<lparr>wi_code = c, wi_message = m\<rparr>"
  by (cases c) (simp_all add: getWarningInfo_def kInfos_def)

lemma status_of_simps [simp]:
  "st_code (status_of c) = c" "st_message (status_of c) = []"
  by (simp_all add: status_of_def status_default_def)

lemma status_msg_simps [simp]:
  "st_code (status_msg c m) = c" "st_message (status_msg c m) = m"
  by (simp_all add: status_msg_def status_default_def)

end
