(* ===== verification/RpcJson.thy ===== *)
theory RpcJson
  imports RpcErrors
begin

text \<open>
  \<^verbatim>\<open>include/rpcspec/backends/BoostJson.hpp\<close>: JSON documents and the two views the specs read them
  through. A \<^verbatim>\<open>BoostJsonFieldView\<close> is a key with a pointer to a value; here the view holds the
  value itself (\<open>None\<close> for a null pointer) and whether it came from a mutable parent, and the
  code that resolved it stores it back (\<open>root_put\<close>, \<open>child_put\<close>), which is what writing through
  the pointer does. Reading a value as a kind it does not have, and writing with a null
  \<^verbatim>\<open>writeValue_\<close>, are \<open>Throw\<close> outcomes.

  A JSON double is the real number it denotes (finite: JSON has no infinities or NaNs). The
  members of an object keep their order, and \<open>wf_json\<close> says that their keys are distinct, as in a
  \<^verbatim>\<open>boost::json::object\<close>.
\<close>

datatype json =
    JNull
  | JBool bool
  | JInt64 int64
  | JUint64 uint64
  | JDouble real
  | JString string
  | JArray "json list"
  | JObject "(string \<times> json) list"

text \<open>The JSON types a field can be constrained to (\<^verbatim>\<open>Type<T>\<close>, \<^verbatim>\<open>is<T>()\<close>).\<close>

datatype json_type = TInt64 | TUint32 | TBool | TDouble | TString | TObject | TArray

primrec typeNameOf :: "json_type \<Rightarrow> string" where
  "typeNameOf TInt64 = ''int64''"
| "typeNameOf TUint32 = ''uint32''"
| "typeNameOf TBool = ''bool''"
| "typeNameOf TDouble = ''double''"
| "typeNameOf TString = ''string''"
| "typeNameOf TObject = ''object''"
| "typeNameOf TArray = ''array''"

fun wf_json :: "json \<Rightarrow> bool" where
  "wf_json (JArray xs) = list_all wf_json xs"
| "wf_json (JObject ms) = (distinct (map fst ms) \<and> list_all wf_json (map snd ms))"
| "wf_json _ = True"

section \<open>Field views\<close>

record field_view =
  fv_key :: string
  fv_value :: "json option"
  fv_writable :: bool

definition present :: "field_view \<Rightarrow> bool" where
  "present v = (fv_value v \<noteq> None)"

definition isNull :: "field_view \<Rightarrow> bool" where
  "isNull v = (fv_value v = Some JNull)"

definition isInt64 :: "field_view \<Rightarrow> bool" where
  "isInt64 v = (case fv_value v of
      Some (JInt64 i) \<Rightarrow> True
    | Some (JUint64 u) \<Rightarrow> unat u \<le> 2 ^ 63 - 1
    | _ \<Rightarrow> False)"

definition asInt64 :: "field_view \<Rightarrow> int64 parsed" where
  "asInt64 v = (case fv_value v of
      Some (JInt64 i) \<Rightarrow> Ret i
    | Some (JUint64 u) \<Rightarrow> Ret u
    | Some _ \<Rightarrow> Throw BadKind
    | None \<Rightarrow> Throw NullAccess)"

definition isUint32 :: "field_view \<Rightarrow> bool" where
  "isUint32 v = (case fv_value v of
      Some (JUint64 u) \<Rightarrow> unat u \<le> 2 ^ 32 - 1
    | Some (JInt64 i) \<Rightarrow> 0 \<le> sint i \<and> sint i \<le> 2 ^ 32 - 1
    | _ \<Rightarrow> False)"

definition asUint32 :: "field_view \<Rightarrow> uint32 parsed" where
  "asUint32 v = (case fv_value v of
      Some (JUint64 u) \<Rightarrow> Ret (ucast u)
    | Some (JInt64 i) \<Rightarrow> Ret (ucast i)
    | Some _ \<Rightarrow> Throw BadKind
    | None \<Rightarrow> Throw NullAccess)"

definition isBool :: "field_view \<Rightarrow> bool" where
  "isBool v = (case fv_value v of Some (JBool b) \<Rightarrow> True | _ \<Rightarrow> False)"

definition asBool :: "field_view \<Rightarrow> bool parsed" where
  "asBool v = (case fv_value v of
      Some (JBool b) \<Rightarrow> Ret b | Some _ \<Rightarrow> Throw BadKind | None \<Rightarrow> Throw NullAccess)"

definition isString :: "field_view \<Rightarrow> bool" where
  "isString v = (case fv_value v of Some (JString s) \<Rightarrow> True | _ \<Rightarrow> False)"

definition asString :: "field_view \<Rightarrow> string parsed" where
  "asString v = (case fv_value v of
      Some (JString s) \<Rightarrow> Ret s | Some _ \<Rightarrow> Throw BadKind | None \<Rightarrow> Throw NullAccess)"

definition isDouble :: "field_view \<Rightarrow> bool" where
  "isDouble v = (case fv_value v of Some (JDouble d) \<Rightarrow> True | _ \<Rightarrow> False)"

definition asDouble :: "field_view \<Rightarrow> real parsed" where
  "asDouble v = (case fv_value v of
      Some (JDouble d) \<Rightarrow> Ret d | Some _ \<Rightarrow> Throw BadKind | None \<Rightarrow> Throw NullAccess)"

definition isObject :: "field_view \<Rightarrow> bool" where
  "isObject v = (case fv_value v of Some (JObject ms) \<Rightarrow> True | _ \<Rightarrow> False)"

definition isArray :: "field_view \<Rightarrow> bool" where
  "isArray v = (case fv_value v of Some (JArray xs) \<Rightarrow> True | _ \<Rightarrow> False)"

definition arraySize :: "field_view \<Rightarrow> nat" where
  "arraySize v = (case fv_value v of Some (JArray xs) \<Rightarrow> length xs | _ \<Rightarrow> 0)"

definition objectSize :: "field_view \<Rightarrow> nat" where
  "objectSize v = (case fv_value v of Some (JObject ms) \<Rightarrow> length ms | _ \<Rightarrow> 0)"

definition child :: "field_view \<Rightarrow> string \<Rightarrow> field_view" where
  "child v k =
     \<lparr>fv_key = k,
      fv_value = (case fv_value v of Some (JObject ms) \<Rightarrow> map_of ms k | _ \<Rightarrow> None),
      fv_writable = fv_writable v\<rparr>"

definition element :: "field_view \<Rightarrow> nat \<Rightarrow> field_view" where
  "element v i =
     \<lparr>fv_key = fv_key v,
      fv_value = (case fv_value v of
          Some (JArray xs) \<Rightarrow> if length xs \<le> i then None else Some (xs ! i)
        | _ \<Rightarrow> None),
      fv_writable = fv_writable v\<rparr>"

primrec is_type :: "json_type \<Rightarrow> field_view \<Rightarrow> bool" where
  "is_type TInt64 v = isInt64 v"
| "is_type TUint32 v = isUint32 v"
| "is_type TBool v = isBool v"
| "is_type TString v = isString v"
| "is_type TDouble v = isDouble v"
| "is_type TObject v = isObject v"
| "is_type TArray v = isArray v"

section \<open>Writing\<close>

text \<open>Every \<^verbatim>\<open>set\<close> overload assigns through \<^verbatim>\<open>writeValue_\<close>.\<close>

definition set_value :: "json \<Rightarrow> field_view \<Rightarrow> field_view \<times> unit parsed" where
  "set_value j v =
     (if fv_writable v \<and> present v then (v\<lparr>fv_value := Some j\<rparr>, Ret ())
      else (v, Throw NullAccess))"

definition set_int64 :: "int64 \<Rightarrow> field_view \<Rightarrow> field_view \<times> unit parsed" where
  "set_int64 i = set_value (JInt64 i)"

definition set_uint32 :: "uint32 \<Rightarrow> field_view \<Rightarrow> field_view \<times> unit parsed" where
  "set_uint32 u = set_value (JUint64 (ucast u))"

definition set_string :: "string \<Rightarrow> field_view \<Rightarrow> field_view \<times> unit parsed" where
  "set_string s = set_value (JString s)"

definition set_bool :: "bool \<Rightarrow> field_view \<Rightarrow> field_view \<times> unit parsed" where
  "set_bool b = set_value (JBool b)"

definition set_double :: "real \<Rightarrow> field_view \<Rightarrow> field_view \<times> unit parsed" where
  "set_double d = set_value (JDouble d)"

text \<open>The effect on the parent of writing through a child's pointer.\<close>

fun obj_put :: "string \<Rightarrow> json \<Rightarrow> (string \<times> json) list \<Rightarrow> (string \<times> json) list" where
  "obj_put k j [] = []"
| "obj_put k j ((k', j') # ms) = (if k = k' then (k, j) # ms else (k', j') # obj_put k j ms)"

definition json_put :: "string \<Rightarrow> json option \<Rightarrow> json \<Rightarrow> json" where
  "json_put k jo doc = (case (doc, jo) of (JObject ms, Some j) \<Rightarrow> JObject (obj_put k j ms) | _ \<Rightarrow> doc)"

definition child_put :: "field_view \<Rightarrow> field_view \<Rightarrow> field_view" where
  "child_put v c = v\<lparr>fv_value := map_option (json_put (fv_key c) (fv_value c)) (fv_value v)\<rparr>"

section \<open>The document root\<close>

definition json_get :: "json \<Rightarrow> string \<Rightarrow> json option" where
  "json_get doc k = (case doc of JObject ms \<Rightarrow> map_of ms k | _ \<Rightarrow> None)"

definition root_isObject :: "json \<Rightarrow> bool" where
  "root_isObject doc = (case doc of JObject ms \<Rightarrow> True | _ \<Rightarrow> False)"

definition root_isArray :: "json \<Rightarrow> bool" where
  "root_isArray doc = (case doc of JArray xs \<Rightarrow> True | _ \<Rightarrow> False)"

definition root_child :: "json \<Rightarrow> string \<Rightarrow> field_view" where
  "root_child doc k = \<lparr>fv_key = k, fv_value = json_get doc k, fv_writable = True\<rparr>"

definition root_child_const :: "json \<Rightarrow> string \<Rightarrow> field_view" where
  "root_child_const doc k = \<lparr>fv_key = k, fv_value = json_get doc k, fv_writable = False\<rparr>"

definition root_put :: "json \<Rightarrow> field_view \<Rightarrow> json" where
  "root_put doc v = json_put (fv_key v) (fv_value v) doc"

lemmas view_kind_defs = present_def isNull_def isInt64_def isUint32_def isBool_def isString_def
  isDouble_def isObject_def isArray_def arraySize_def objectSize_def

lemmas view_read_defs = asInt64_def asUint32_def asBool_def asString_def asDouble_def

section \<open>Warnings on the wire\<close>

definition makeWarning :: "warning_code \<Rightarrow> (int64 \<times> string) parsed" where
  "makeWarning c = omap (\<lambda>info. (word_of_int (warning_value c), wi_message info)) (getWarningInfo c)"

text \<open>
  The grouped messages of one code, in the order the warnings came, appended to its standard
  message. The object holds \<open>id\<close> and \<open>message\<close>.
\<close>

definition messages_of :: "warnings \<Rightarrow> warning_code \<Rightarrow> string list" where
  "messages_of ws c = map wn_message (filter (\<lambda>w. wn_code w = c) ws)"

definition warning_object :: "warnings \<Rightarrow> warning_code \<Rightarrow> json parsed" where
  "warning_object ws c =
     omap (\<lambda>(i, msg). JObject
         [(''id'', JInt64 i),
          (''message'', JString (msg @ concat (map (\<lambda>e. '' '' @ e) (messages_of ws c))))])
       (makeWarning c)"

fun collect :: "'a parsed list \<Rightarrow> 'a list parsed" where
  "collect [] = Ret []"
| "collect (r # rs) = obind r (\<lambda>x. omap ((#) x) (collect rs))"

definition toJsonArray :: "warnings \<Rightarrow> json parsed" where
  "toJsonArray ws =
     omap JArray (collect (map (warning_object ws) (sort (remdups (map wn_code ws)))))"

section \<open>Laws of the views\<close>

lemma map_of_obj_put:
  "map_of (obj_put k j ms) k' = (if k = k' \<and> map_of ms k \<noteq> None then Some j else map_of ms k')"
  by (induction ms) auto

lemma keys_obj_put [simp]: "map fst (obj_put k j ms) = map fst ms"
  by (induction ms) auto

lemma length_obj_put [simp]: "length (obj_put k j ms) = length ms"
  by (metis keys_obj_put length_map)

lemma json_get_put_same:
  "json_get doc k \<noteq> None \<Longrightarrow> json_get (json_put k (Some j) doc) k = Some j"
  by (auto simp: json_get_def json_put_def map_of_obj_put split: json.splits)

lemma json_get_put_other [simp]:
  "k \<noteq> k' \<Longrightarrow> json_get (json_put k jo doc) k' = json_get doc k'"
  by (auto simp: json_get_def json_put_def map_of_obj_put split: json.splits option.splits)

lemma json_get_put_None [simp]: "json_put k None doc = doc"
  by (simp add: json_put_def split: json.splits)

lemma json_get_put_present [simp]:
  "json_get (json_put k jo doc) k' = None \<longleftrightarrow> json_get doc k' = None"
  by (auto simp: json_get_def json_put_def map_of_obj_put split: json.splits option.splits)

lemma json_put_missing [simp]: "json_get doc k = None \<Longrightarrow> json_put k jo doc = doc"
proof -
  have "map_of ms k = None \<Longrightarrow> obj_put k j ms = ms" for ms j
    by (induction ms) (auto split: if_splits)
  then show "json_get doc k = None \<Longrightarrow> json_put k jo doc = doc"
    by (auto simp: json_get_def json_put_def split: json.splits option.splits)
qed

lemma obj_put_map_of [simp]: "map_of ms k = Some j \<Longrightarrow> obj_put k j ms = ms"
  by (induction ms) (auto split: if_splits)

lemma json_put_get [simp]: "json_put k (json_get doc k) doc = doc"
  by (auto simp: json_get_def json_put_def split: json.splits option.splits)

lemma root_child_simps [simp, view_simps]:
  "fv_key (root_child doc k) = k" "fv_value (root_child doc k) = json_get doc k"
  "fv_writable (root_child doc k)"
  "fv_key (root_child_const doc k) = k" "fv_value (root_child_const doc k) = json_get doc k"
  by (simp_all add: root_child_def root_child_const_def)

lemma child_simps [simp, view_simps]:
  "fv_key (child v k) = k" "fv_writable (child v k) = fv_writable v"
  by (simp_all add: child_def)

lemma element_simps [simp, view_simps]:
  "fv_key (element v i) = fv_key v" "fv_writable (element v i) = fv_writable v"
  by (simp_all add: element_def)

lemma present_element: "i < arraySize v \<Longrightarrow> present (element v i)"
  by (auto simp: view_kind_defs element_def split: option.splits json.splits)

lemma kinds_present [simp]:
  "isString v \<Longrightarrow> present v" "isBool v \<Longrightarrow> present v" "isObject v \<Longrightarrow> present v"
  "isArray v \<Longrightarrow> present v" "isInt64 v \<Longrightarrow> present v" "isUint32 v \<Longrightarrow> present v"
  "isDouble v \<Longrightarrow> present v" "isNull v \<Longrightarrow> present v"
  by (auto simp: view_kind_defs split: option.splits)

lemma isString_value: "isString v \<longleftrightarrow> (\<exists>s. fv_value v = Some (JString s))"
  by (auto simp: isString_def split: option.splits json.splits)

lemma asString_value [simp]: "fv_value v = Some (JString s) \<Longrightarrow> asString v = Ret s"
  by (simp add: asString_def)

text \<open>A value is readable in each kind its test accepts, and then read exactly.\<close>

lemma asString_isString: "isString v \<Longrightarrow> \<exists>s. asString v = Ret s \<and> fv_value v = Some (JString s)"
  by (auto simp: isString_value)

lemma asBool_isBool: "isBool v \<Longrightarrow> \<exists>b. asBool v = Ret b \<and> fv_value v = Some (JBool b)"
  by (auto simp: isBool_def asBool_def split: option.splits json.splits)

lemma asDouble_isDouble: "isDouble v \<Longrightarrow> \<exists>d. asDouble v = Ret d \<and> fv_value v = Some (JDouble d)"
  by (auto simp: isDouble_def asDouble_def split: option.splits json.splits)

text \<open>The integer a view denotes, whichever of the two JSON integer kinds holds it.\<close>

definition int_value :: "field_view \<Rightarrow> int option" where
  "int_value v = (case fv_value v of
      Some (JInt64 i) \<Rightarrow> Some (sint i) | Some (JUint64 u) \<Rightarrow> Some (uint u) | _ \<Rightarrow> None)"

lemma unat_le_imp_uint_le: "unat (u :: 'a::len word) \<le> n \<Longrightarrow> uint u \<le> int n"
  unfolding uint_nat by (rule of_nat_mono)

lemma sint_small:
  fixes u :: int64
  assumes "unat u \<le> 2 ^ 63 - 1"
  shows "sint u = uint u"
proof -
  have "uint u < 2 ^ 63"
    using assms unat_le_imp_uint_le [of u "2 ^ 63 - 1"] by simp
  moreover have "- (2 ^ 63) \<le> uint u" by (rule order_trans [OF _ uint_ge_0]) simp
  ultimately show ?thesis
    unfolding sint_uint by (intro signed_take_bit_int_eq_self) auto
qed

lemma asInt64_isInt64:
  "isInt64 v \<Longrightarrow> \<exists>i. asInt64 v = Ret i \<and> int_value v = Some (sint i)"
  by (auto simp: isInt64_def asInt64_def int_value_def sint_small split: option.splits json.splits)

lemma uint_ucast_small:
  fixes u :: int64
  assumes "uint u < 2 ^ 32"
  shows "uint (ucast u :: uint32) = uint u"
  using assms by (simp add: unsigned_ucast_eq take_bit_int_eq_self)

lemma uint_nonneg_sint:
  fixes u :: int64
  assumes "0 \<le> sint u"
  shows "uint u = sint u"
proof -
  have "sint u < 2 ^ 63"
    using sint_lt [of u] by simp
  with assms have "take_bit 64 (sint u) = sint u"
    by (intro take_bit_int_eq_self) simp_all
  moreover have "take_bit 64 (sint u) = uint u"
    by transfer (simp add: take_bit_signed_take_bit)
  ultimately show ?thesis by simp
qed

lemma asUint32_isUint32:
  assumes "isUint32 v"
  shows "\<exists>u. asUint32 v = Ret u \<and> int_value v = Some (uint u)"
proof (cases "fv_value v")
  case None
  with assms show ?thesis by (simp add: isUint32_def)
next
  case (Some j)
  show ?thesis
  proof (cases j)
    case (JUint64 u)
    with Some assms have "unat u \<le> 2 ^ 32 - 1"
      by (simp add: isUint32_def)
    then have "uint u < 2 ^ 32"
      using unat_le_imp_uint_le [of u "2 ^ 32 - 1"] by simp
    with Some JUint64 show ?thesis
      by (simp add: asUint32_def int_value_def uint_ucast_small)
  next
    case (JInt64 i)
    with Some assms have b: "0 \<le> sint i" "sint i \<le> 2 ^ 32 - 1"
      by (simp_all add: isUint32_def)
    then have "uint i < 2 ^ 32"
      by (simp add: uint_nonneg_sint)
    with Some JInt64 b show ?thesis
      by (simp add: asUint32_def int_value_def uint_ucast_small uint_nonneg_sint)
  qed (use Some assms in \<open>simp_all add: isUint32_def\<close>)
qed

lemma set_value_ok [simp]:
  "fv_writable v \<Longrightarrow> present v \<Longrightarrow> set_value j v = (v\<lparr>fv_value := Some j\<rparr>, Ret ())"
  by (simp add: set_value_def)

end
