(* ===== verification/RpcField.thy ===== *)
theory RpcField
  imports RpcJson
begin

text \<open>
  \<^verbatim>\<open>include/rpcspec/Concepts.hpp\<close> and \<^verbatim>\<open>include/rpcspec/FieldSpec.hpp\<close>: field items and the loops that
  run them. An item is a C++ object that satisfies some of the concepts \<^verbatim>\<open>SomeRequirement\<close>,
  \<^verbatim>\<open>SomeModifier\<close>, \<^verbatim>\<open>SomeCheck\<close>, \<^verbatim>\<open>SomeDefault\<close> and \<^verbatim>\<open>SomeGuard\<close>; here it is a record with one optional
  member function per concept, present when the concept holds. The type parameter is the type of
  a default value. A requirement reads the view, a modifier also returns the view it left.
\<close>

type_synonym requirement = "field_view \<Rightarrow> unit parsed"
type_synonym modifier = "field_view \<Rightarrow> field_view \<times> unit parsed"

record 'm item =
  it_verify :: "requirement option"
  it_modify :: "modifier option"
  it_check :: "(field_view \<Rightarrow> warning option) option"
  it_default :: "'m option"
  it_skips :: "(json \<Rightarrow> bool) option"
  it_guardKeys :: "string list"

definition no_item :: "'m item" where
  "no_item = \<lparr>it_verify = None, it_modify = None, it_check = None, it_default = None,
              it_skips = None, it_guardKeys = []\<rparr>"

definition requirement_item :: "requirement \<Rightarrow> 'm item" where
  "requirement_item f = no_item\<lparr>it_verify := Some f\<rparr>"

definition modifier_item :: "modifier \<Rightarrow> 'm item" where
  "modifier_item f = no_item\<lparr>it_modify := Some f\<rparr>"

definition check_item :: "(field_view \<Rightarrow> warning option) \<Rightarrow> 'm item" where
  "check_item f = no_item\<lparr>it_check := Some f\<rparr>"

definition default_item :: "'m \<Rightarrow> 'm item" where
  "default_item m = no_item\<lparr>it_default := Some m\<rparr>"

definition guard_item :: "string list \<Rightarrow> (json \<Rightarrow> bool) \<Rightarrow> 'm item" where
  "guard_item ks f = no_item\<lparr>it_skips := Some f, it_guardKeys := ks\<rparr>"

definition SomeProcessor :: "'m item \<Rightarrow> bool" where
  "SomeProcessor it = (it_verify it \<noteq> None \<or> it_modify it \<noteq> None)"

section \<open>Running items\<close>

definition callIfProcessor :: "'m item \<Rightarrow> modifier" where
  "callIfProcessor it v =
     (case it_verify it of
        Some f \<Rightarrow> (v, f v)
      | None \<Rightarrow> (case it_modify it of Some g \<Rightarrow> g v | None \<Rightarrow> (v, Ret ())))"

fun callIfChecker :: "'m item \<Rightarrow> field_view \<Rightarrow> warnings \<Rightarrow> warnings" where
  "callIfChecker it v out =
     (case it_check it of
        Some f \<Rightarrow> (case f v of Some w \<Rightarrow> out @ [w] | None \<Rightarrow> out)
      | None \<Rightarrow> out)"

fun runProcessors :: "'m item list \<Rightarrow> modifier" where
  "runProcessors [] v = (v, Ret ())"
| "runProcessors (it # its) v = sbind (callIfProcessor it v) (\<lambda>_ v'. runProcessors its v')"

fun runChecks :: "'m item list \<Rightarrow> field_view \<Rightarrow> warnings \<Rightarrow> warnings" where
  "runChecks [] v out = out"
| "runChecks (it # its) v out = runChecks its v (callIfChecker it v out)"

fun skipsField :: "'m item list \<Rightarrow> json \<Rightarrow> bool" where
  "skipsField [] doc = False"
| "skipsField (it # its) doc =
     ((case it_skips it of Some f \<Rightarrow> f doc | None \<Rightarrow> False) \<or> skipsField its doc)"

section \<open>Field specs\<close>

record field_spec =
  fs_key :: string
  fs_items :: "unit item list"

definition field :: "string \<Rightarrow> unit item list \<Rightarrow> field_spec" where
  "field k its = \<lparr>fs_key = k, fs_items = its\<rparr>"

definition field_append :: "field_spec \<Rightarrow> unit item \<Rightarrow> field_spec" where
  "field_append fs it = fs\<lparr>fs_items := fs_items fs @ [it]\<rparr>"

text \<open>The static assertion of \<^verbatim>\<open>FieldSpec\<close>: guards apply only to bound fields.\<close>

definition field_spec_ok :: "field_spec \<Rightarrow> bool" where
  "field_spec_ok fs = list_all (\<lambda>it. it_skips it = None) (fs_items fs)"

definition FieldSpec_process :: "field_spec \<Rightarrow> json \<Rightarrow> json \<times> unit parsed" where
  "FieldSpec_process fs doc =
     (case runProcessors (fs_items fs) (root_child doc (fs_key fs)) of
        (v, r) \<Rightarrow> (root_put doc v, r))"

definition FieldSpec_check :: "field_spec \<Rightarrow> json \<Rightarrow> warnings" where
  "FieldSpec_check fs doc = runChecks (fs_items fs) (root_child_const doc (fs_key fs)) []"

definition processNested :: "field_spec \<Rightarrow> modifier" where
  "processNested fs parent =
     (case runProcessors (fs_items fs) (child parent (fs_key fs)) of
        (v, r) \<Rightarrow> (child_put parent v, r))"

definition checkNested :: "field_spec \<Rightarrow> field_view \<Rightarrow> warnings" where
  "checkNested fs parent = runChecks (fs_items fs) (child parent (fs_key fs)) []"

section \<open>The contract of a processor\<close>

text \<open>
  What the loops need of a processor \<open>f\<close>, and what every built-in item provides: run on a
  writable view it never throws and never touches an undefined value, it keeps the view's key and
  writability, and it neither creates nor removes the value.
\<close>

locale processor =
  fixes f :: modifier
  assumes no_throw: "fv_writable v \<Longrightarrow> \<not> throws (snd (f v))"
    and keeps_key: "fv_key (fst (f v)) = fv_key v"
    and keeps_writable: "fv_writable (fst (f v)) = fv_writable v"
    and keeps_presence: "present (fst (f v)) = present v"
begin

lemma keeps_value_None: "fv_value (fst (f v)) = None \<longleftrightarrow> fv_value v = None"
  using keeps_presence [of v] by (auto simp: present_def)

lemma absent_unchanged: "\<not> present v \<Longrightarrow> fst (f v) = v"
  using keeps_key [of v] keeps_writable [of v] keeps_presence [of v]
  by (auto simp: present_def)

end

text \<open>A requirement is a processor that leaves the view alone.\<close>

definition as_modifier :: "requirement \<Rightarrow> modifier" where
  "as_modifier f v = (v, f v)"

definition item_ok :: "'m item \<Rightarrow> bool" where
  "item_ok it = processor (callIfProcessor it)"

lemma processor_requirement:
  "(\<And>v. \<not> throws (f v)) \<Longrightarrow> processor (as_modifier f)"
  by unfold_locales (simp_all add: as_modifier_def)

lemma callIfProcessor_simps [simp]:
  "callIfProcessor (requirement_item f) v = (v, f v)"
  "callIfProcessor (modifier_item g) v = g v"
  "callIfProcessor (check_item h) v = (v, Ret ())"
  "callIfProcessor (default_item m) v = (v, Ret ())"
  "callIfProcessor (guard_item ks p) v = (v, Ret ())"
  "callIfProcessor no_item v = (v, Ret ())"
  by (simp_all add: callIfProcessor_def requirement_item_def modifier_item_def check_item_def
      default_item_def guard_item_def no_item_def)

lemma callIfProcessor_fun:
  "callIfProcessor (requirement_item f) = as_modifier f"
  "callIfProcessor (modifier_item g) = g"
  "callIfProcessor (check_item h) = (\<lambda>v. (v, Ret ()))"
  "callIfProcessor (default_item m) = (\<lambda>v. (v, Ret ()))"
  "callIfProcessor (guard_item ks p) = (\<lambda>v. (v, Ret ()))"
  "callIfProcessor no_item = (\<lambda>v. (v, Ret ()))"
  by (simp_all add: fun_eq_iff as_modifier_def)

lemma processor_skip: "processor (\<lambda>v. (v, Ret ()))"
  by unfold_locales simp_all

lemma item_ok_passive [simp, intro]:
  "item_ok (check_item h)" "item_ok (default_item m)" "item_ok (guard_item ks p)" "item_ok no_item"
  by (simp_all add: item_ok_def callIfProcessor_fun processor_skip)

lemma item_ok_requirement:
  "(\<And>v. \<not> throws (f v)) \<Longrightarrow> item_ok (requirement_item f)"
  by (simp add: item_ok_def callIfProcessor_fun processor_requirement)

lemma item_ok_modifier: "processor g \<Longrightarrow> item_ok (modifier_item g)"
  by (simp add: item_ok_def callIfProcessor_fun)

section \<open>The loops keep the contract\<close>

lemma processor_comp:
  assumes "processor f" and "processor g"
  shows "processor (\<lambda>v. sbind (f v) (\<lambda>_ v'. g v'))"
proof -
  have f: "\<And>v. fv_writable v \<Longrightarrow> \<not> throws (snd (f v))"
    "\<And>v. fv_key (fst (f v)) = fv_key v" "\<And>v. fv_writable (fst (f v)) = fv_writable v"
    "\<And>v. present (fst (f v)) = present v"
    using assms(1) by (simp_all add: processor_def)
  have g: "\<And>v. fv_writable v \<Longrightarrow> \<not> throws (snd (g v))"
    "\<And>v. fv_key (fst (g v)) = fv_key v" "\<And>v. fv_writable (fst (g v)) = fv_writable v"
    "\<And>v. present (fst (g v)) = present v"
    using assms(2) by (simp_all add: processor_def)
  show ?thesis
  proof
    fix v
    obtain v' r where e: "f v = (v', r)" by (cases "f v")
    note fv = f(1) [of v] f(2-4) [of v]
    show "fv_writable v \<Longrightarrow> \<not> throws (snd (sbind (f v) (\<lambda>_ v'. g v')))"
      using fv e g(1) [of v'] by (cases r) auto
    show "fv_key (fst (sbind (f v) (\<lambda>_ v'. g v'))) = fv_key v"
      using fv e g(2) [of v'] by (cases r) auto
    show "fv_writable (fst (sbind (f v) (\<lambda>_ v'. g v'))) = fv_writable v"
      using fv e g(3) [of v'] by (cases r) auto
    show "present (fst (sbind (f v) (\<lambda>_ v'. g v'))) = present v"
      using fv e g(4) [of v'] by (cases r) auto
  qed
qed

lemma processor_runProcessors:
  "list_all item_ok its \<Longrightarrow> processor (runProcessors its)"
proof (induction its)
  case Nil
  have "runProcessors ([] :: 'a item list) = (\<lambda>v. (v, Ret ()))" by (simp add: fun_eq_iff)
  then show ?case using processor_skip by metis
next
  case (Cons it its)
  then have "processor (\<lambda>v. sbind (callIfProcessor it v) (\<lambda>_ v'. runProcessors its v'))"
    by (intro processor_comp) (simp_all add: item_ok_def)
  then show ?case by simp
qed

text \<open>Running a prefix first: the rest runs exactly when the prefix succeeds.\<close>

lemma runProcessors_append:
  "runProcessors (as @ bs) v = sbind (runProcessors as v) (\<lambda>_ v'. runProcessors bs v')"
proof (induction as arbitrary: v)
  case (Cons a as)
  then show ?case
    by (cases "callIfProcessor a v"; cases "snd (callIfProcessor a v)") auto
qed simp

text \<open>
  Requirements alone: the view is unchanged, and the verdict is that of the first failing one.
\<close>

fun first_failure :: "unit parsed list \<Rightarrow> unit parsed" where
  "first_failure [] = Ret ()"
| "first_failure (r # rs) = (if succeeds r then first_failure rs else r)"

lemma runProcessors_requirements:
  "runProcessors (map requirement_item fs) v = (v, first_failure (map (\<lambda>f. f v) fs))"
proof (induction fs)
  case (Cons f fs)
  then show ?case by (cases "f v") simp_all
qed simp

lemma runChecks_append:
  "runChecks (as @ bs) v out = runChecks bs v (runChecks as v out)"
  by (induction as arbitrary: out) auto

lemma runChecks_accumulates: "\<exists>ws. runChecks its v out = out @ ws"
proof (induction its arbitrary: out)
  case (Cons it its)
  obtain ws where "callIfChecker it v out = out @ ws"
    by (cases "it_check it"; cases "the (it_check it) v") auto
  with Cons [of "out @ ws"] show ?case by auto
qed simp

lemma skipsField_iff:
  "skipsField its doc \<longleftrightarrow> (\<exists>it \<in> set its. \<exists>f. it_skips it = Some f \<and> f doc)"
  by (induction its) (auto split: option.splits)

section \<open>Fields of a document\<close>

text \<open>What a field may do to the document: rewrite values, never add or remove root keys.\<close>

definition same_keys :: "json \<Rightarrow> json \<Rightarrow> bool" where
  "same_keys a b = (\<forall>k. (json_get a k = None) = (json_get b k = None))"

definition only_changes :: "string \<Rightarrow> json \<Rightarrow> json \<Rightarrow> bool" where
  "only_changes k a b = (same_keys a b \<and> (\<forall>k'. k' \<noteq> k \<longrightarrow> json_get b k' = json_get a k'))"

lemma same_keys_refl [simp, intro]: "same_keys a a"
  by (simp add: same_keys_def)

lemma same_keys_trans: "same_keys a b \<Longrightarrow> same_keys b c \<Longrightarrow> same_keys a c"
  by (simp add: same_keys_def)

lemma only_changes_refl [simp, intro]: "only_changes k a a"
  by (simp add: only_changes_def)

lemma only_changes_put: "fv_key v = k \<Longrightarrow> only_changes k doc (root_put doc v)"
  by (auto simp: only_changes_def same_keys_def root_put_def)

lemma FieldSpec_process_safe:
  assumes "list_all item_ok (fs_items fs)"
  shows "\<not> throws (snd (FieldSpec_process fs doc))"
    and "only_changes (fs_key fs) doc (fst (FieldSpec_process fs doc))"
proof -
  have p: "processor (runProcessors (fs_items fs))"
    by (rule processor_runProcessors) fact
  then show "\<not> throws (snd (FieldSpec_process fs doc))"
    using processor.no_throw [OF p, of "root_child doc (fs_key fs)"]
    by (cases "runProcessors (fs_items fs) (root_child doc (fs_key fs))")
      (simp add: FieldSpec_process_def)
  show "only_changes (fs_key fs) doc (fst (FieldSpec_process fs doc))"
    using processor.keeps_key [OF p, of "root_child doc (fs_key fs)"]
    by (auto simp: FieldSpec_process_def only_changes_put split: prod.splits)
qed

lemma processor_processNested:
  assumes "list_all item_ok (fs_items fs)"
  shows "processor (processNested fs)"
proof
  fix v
  have p: "processor (runProcessors (fs_items fs))"
    by (rule processor_runProcessors) fact
  show "fv_writable v \<Longrightarrow> \<not> throws (snd (processNested fs v))"
    using processor.no_throw [OF p, of "child v (fs_key fs)"]
    by (cases "runProcessors (fs_items fs) (child v (fs_key fs))") (simp add: processNested_def)
  show "fv_key (fst (processNested fs v)) = fv_key v"
    "fv_writable (fst (processNested fs v)) = fv_writable v"
    "present (fst (processNested fs v)) = present v"
    by (simp_all add: processNested_def child_put_def present_def split: prod.splits)
qed

end
