(* ===== verification/RpcValidators.thy ===== *)
theory RpcValidators
  imports RpcField
begin

text \<open>
  The library-independent part of \<^verbatim>\<open>include/rpcspec/Validators.hpp\<close>: presence, JSON type, ranges,
  array lengths, string sets, the numeric and string modifiers, defaults and null replacement.
  A struct with a \<^verbatim>\<open>verify\<close> member is a \<open>requirement\<close> that takes the struct's members as
  arguments, one with \<^verbatim>\<open>modify\<close> a \<open>modifier\<close>.

  Each validator is shown to be exactly a test with an error: the locale \<open>validator\<close> names the
  accepted views and the error of the others, so that its clients (the wrappers, the handler
  specs) never unfold it. \<open>optional_validator\<close> adds that an absent field passes.
\<close>

section \<open>The contract of a validator\<close>

locale validator =
  fixes verify :: requirement
    and accepts :: "field_view \<Rightarrow> bool"
    and error :: "field_view \<Rightarrow> status"
  assumes verify_eq: "verify v = (if accepts v then Ret () else Fail (error v))"
begin

lemma no_throw: "\<not> throws (verify v)"
  by (simp add: verify_eq)

lemma passes_iff: "verify v = Ret () \<longleftrightarrow> accepts v"
  by (simp add: verify_eq)

lemma fails_iff: "verify v = Fail e \<longleftrightarrow> \<not> accepts v \<and> e = error v"
  by (auto simp: verify_eq)

lemma item_ok: "item_ok (requirement_item verify)"
  by (rule item_ok_requirement) (rule no_throw)

end

locale optional_validator = validator +
  assumes absent_ok: "\<not> present v \<Longrightarrow> accepts v"
begin

lemma absent_passes: "\<not> present v \<Longrightarrow> verify v = Ret ()"
  by (simp add: passes_iff absent_ok)

end

text \<open>A modifier that is a no-op on absent fields.\<close>

locale optional_modifier = processor f for f :: modifier +
  assumes absent_skips: "\<not> present v \<Longrightarrow> f v = (v, Ret ())"
begin

lemma item_ok: "item_ok (modifier_item f)"
  by (rule item_ok_modifier) (rule processor_axioms)

end

section \<open>Presence and type\<close>

definition Required_verify :: "server \<Rightarrow> requirement" where
  "Required_verify srv v =
     (if \<not> present v
      then Fail (status_msg (XrpldErr RpcInvalidParams) (missingFieldMessage srv (fv_key v)))
      else Ret ())"

definition Type_verify :: "json_type \<Rightarrow> requirement" where
  "Type_verify t v = (if \<not> present v \<or> is_type t v then Ret () else Fail invalidParams)"

definition TypeAny_verify :: "json_type list \<Rightarrow> requirement" where
  "TypeAny_verify ts v =
     (if \<not> present v then Ret ()
      else if list_ex (\<lambda>t. is_type t v) ts then Ret ()
      else Fail invalidParams)"

interpretation required: validator "Required_verify srv" present
  "\<lambda>v. status_msg (XrpldErr RpcInvalidParams) (missingFieldMessage srv (fv_key v))" for srv
  by unfold_locales (simp add: Required_verify_def)

interpretation type_of: optional_validator "Type_verify t" "\<lambda>v. \<not> present v \<or> is_type t v"
  "\<lambda>v. invalidParams" for t
  by unfold_locales (simp_all add: Type_verify_def)

interpretation type_any: optional_validator "TypeAny_verify ts"
  "\<lambda>v. \<not> present v \<or> (\<exists>t \<in> set ts. is_type t v)" "\<lambda>v. invalidParams" for ts
  by unfold_locales (auto simp: TypeAny_verify_def list_ex_iff)

section \<open>Numbers\<close>

text \<open>
  The three types \<^verbatim>\<open>SomeNumericBound\<close> admits. A bound fixes the type \<^verbatim>\<open>T\<close> that the field is read as;
  comparisons are those of \<^verbatim>\<open>T\<close> (signed for \<^verbatim>\<open>int64_t\<close>).
\<close>

datatype num = NInt64 int64 | NUint32 uint32 | NDouble real

primrec num_type :: "num \<Rightarrow> json_type" where
  "num_type (NInt64 i) = TInt64"
| "num_type (NUint32 u) = TUint32"
| "num_type (NDouble d) = TDouble"

fun num_less :: "num \<Rightarrow> num \<Rightarrow> bool" where
  "num_less (NInt64 a) (NInt64 b) = (sint a < sint b)"
| "num_less (NUint32 a) (NUint32 b) = (a < b)"
| "num_less (NDouble a) (NDouble b) = (a < b)"
| "num_less _ _ = False"

text \<open>The number a value denotes, for stating what the comparisons mean.\<close>

primrec num_real :: "num \<Rightarrow> real" where
  "num_real (NInt64 i) = of_int (sint i)"
| "num_real (NUint32 u) = of_int (uint u)"
| "num_real (NDouble d) = d"

lemma num_less_real:
  "num_type a = num_type b \<Longrightarrow> num_less a b \<longleftrightarrow> num_real a < num_real b"
  by (cases a; cases b) (simp_all add: word_less_def del: of_int_sint of_int_uint)

definition numericValue :: "json_type \<Rightarrow> field_view \<Rightarrow> num option parsed" where
  "numericValue t v =
     (if \<not> present v \<or> \<not> is_type t v then Ret None
      else (case t of
          TInt64 \<Rightarrow> omap (\<lambda>i. Some (NInt64 i)) (asInt64 v)
        | TUint32 \<Rightarrow> omap (\<lambda>u. Some (NUint32 u)) (asUint32 v)
        | TDouble \<Rightarrow> omap (\<lambda>d. Some (NDouble d)) (asDouble v)
        | _ \<Rightarrow> Ret None))"

definition Min_verify :: "num \<Rightarrow> requirement" where
  "Min_verify bound v =
     obind (numericValue (num_type bound) v)
       (\<lambda>value. case value of
          Some x \<Rightarrow> if num_less x bound then Fail invalidParams else Ret ()
        | None \<Rightarrow> Ret ())"

definition Between_verify :: "num \<Rightarrow> num \<Rightarrow> requirement" where
  "Between_verify lo hi v =
     obind (numericValue (num_type lo) v)
       (\<lambda>value. case value of
          Some x \<Rightarrow> if num_less x lo \<or> num_less hi x then Fail invalidParams else Ret ()
        | None \<Rightarrow> Ret ())"

definition std_clamp :: "num \<Rightarrow> num \<Rightarrow> num \<Rightarrow> num" where
  "std_clamp x lo hi = (if num_less x lo then lo else if num_less hi x then hi else x)"

primrec set_num :: "num \<Rightarrow> field_view \<Rightarrow> field_view \<times> unit parsed" where
  "set_num (NInt64 i) v = set_int64 i v"
| "set_num (NUint32 u) v = set_uint32 u v"
| "set_num (NDouble d) v = set_double d v"

definition Clamp_modify :: "num \<Rightarrow> num \<Rightarrow> modifier" where
  "Clamp_modify lo hi v =
     sbind (v, numericValue (num_type lo) v)
       (\<lambda>value v. case value of
          Some x \<Rightarrow> sbind (set_num (std_clamp x lo hi) v) (\<lambda>_ v'. (v', Ret ()))
        | None \<Rightarrow> (v, Ret ()))"

text \<open>What \<open>numericValue\<close> returns: the number, of the type asked for, when the field holds one.\<close>

definition number_of :: "json_type \<Rightarrow> field_view \<Rightarrow> num option" where
  "number_of t v = (case numericValue t v of Ret x \<Rightarrow> x | _ \<Rightarrow> None)"

lemma numericValue_total: "\<exists>x. numericValue t v = Ret x"
  using asInt64_isInt64 [of v] asUint32_isUint32 [of v] asDouble_isDouble [of v]
  by (cases t) (auto simp: numericValue_def)

lemma numericValue_eq: "numericValue t v = Ret (number_of t v)"
  using numericValue_total [of t v] by (auto simp: number_of_def)

lemma number_of_type: "number_of t v = Some x \<Longrightarrow> num_type x = t"
  using numericValue_eq [of t v]
  by (auto simp: numericValue_def omap_eq_Ret split: if_splits json_type.splits)

lemma number_of_absent: "\<not> present v \<Longrightarrow> number_of t v = None"
  using numericValue_eq [of t v] by (auto simp: numericValue_def)

lemma number_of_present: "number_of t v = Some x \<Longrightarrow> present v"
  using number_of_absent by fastforce

lemma number_of_value:
  assumes "number_of t v = Some x" and "t \<noteq> TDouble"
  shows "\<exists>n. int_value v = Some n \<and> num_real x = of_int n"
  using assms numericValue_eq [of t v]
    asInt64_isInt64 [of v] asUint32_isUint32 [of v]
  by (auto simp: numericValue_def omap_eq_Ret split: if_splits json_type.splits)

interpretation min_of: optional_validator "Min_verify b"
  "\<lambda>v. \<forall>x. number_of (num_type b) v = Some x \<longrightarrow> num_real b \<le> num_real x"
  "\<lambda>v. invalidParams" for b
proof
  fix v
  show "Min_verify b v =
      (if \<forall>x. number_of (num_type b) v = Some x \<longrightarrow> num_real b \<le> num_real x
       then Ret () else Fail invalidParams)"
    using number_of_type [of "num_type b" v]
    by (auto simp: Min_verify_def numericValue_eq num_less_real not_less split: option.split)
  show "\<not> present v \<Longrightarrow> \<forall>x. number_of (num_type b) v = Some x \<longrightarrow> num_real b \<le> num_real x"
    by (simp add: number_of_absent)
qed

text \<open>A range or a clamp is built from two bounds of one type (\<^verbatim>\<open>Between(T, T)\<close>).\<close>

lemma Between_verify_eq:
  assumes "num_type lo = num_type hi"
  shows "Between_verify lo hi v =
    (if \<forall>x. number_of (num_type lo) v = Some x \<longrightarrow> num_real lo \<le> num_real x \<and> num_real x \<le> num_real hi
     then Ret () else Fail invalidParams)"
  using assms number_of_type [of "num_type lo" v]
  by (auto simp: Between_verify_def numericValue_eq num_less_real not_less split: option.split)

lemma Between_verify_no_throw: "\<not> throws (Between_verify lo hi v)"
  by (simp add: Between_verify_def numericValue_eq split: option.split)

lemma set_num_ok:
  "fv_writable v \<Longrightarrow> present v \<Longrightarrow>
     \<exists>j. set_num x v = (v\<lparr>fv_value := Some j\<rparr>, Ret ())"
  by (cases x) (auto simp: set_int64_def set_uint32_def set_double_def)

lemma set_value_frame:
  "fv_key (fst (set_value j v)) = fv_key v" "fv_writable (fst (set_value j v)) = fv_writable v"
  "present (fst (set_value j v)) = present v"
  by (auto simp: set_value_def present_def)

lemma set_num_frame:
  "fv_key (fst (set_num x v)) = fv_key v" "fv_writable (fst (set_num x v)) = fv_writable v"
  "present (fst (set_num x v)) = present v"
  by (cases x; simp add: set_int64_def set_uint32_def set_double_def set_value_frame)+

interpretation clamp: optional_modifier "Clamp_modify lo hi" for lo hi
proof
  fix v
  have eq: "Clamp_modify lo hi v = (case number_of (num_type lo) v of
      Some x \<Rightarrow> sbind (set_num (std_clamp x lo hi) v) (\<lambda>_ v'. (v', Ret ())) | None \<Rightarrow> (v, Ret ()))"
    by (simp add: Clamp_modify_def numericValue_eq)
  have fr: "fst (sbind (set_num x v) (\<lambda>_ v'. (v', Ret ()))) = fst (set_num x v)" for x
    by (cases "set_num x v"; cases "snd (set_num x v)") auto
  show "\<not> throws (snd (Clamp_modify lo hi v))" if w: "fv_writable v"
  proof (cases "number_of (num_type lo) v")
    case (Some x)
    then obtain j where "set_num (std_clamp x lo hi) v = (v\<lparr>fv_value := Some j\<rparr>, Ret ())"
      using set_num_ok [OF w number_of_present] by blast
    with Some show ?thesis by (simp add: eq)
  qed (simp add: eq)
  show "fv_key (fst (Clamp_modify lo hi v)) = fv_key v"
    "fv_writable (fst (Clamp_modify lo hi v)) = fv_writable v"
    "present (fst (Clamp_modify lo hi v)) = present v"
    by (simp_all add: eq fr set_num_frame split: option.split)
  show "\<not> present v \<Longrightarrow> Clamp_modify lo hi v = (v, Ret ())"
    by (simp add: eq number_of_absent)
qed

text \<open>The value a clamp leaves is in range, and a value in range is left alone.\<close>

lemma std_clamp_real:
  assumes "num_type x = num_type lo" "num_type hi = num_type lo" "num_real lo \<le> num_real hi"
  shows "num_type (std_clamp x lo hi) = num_type lo"
    and "num_real (std_clamp x lo hi) = max (num_real lo) (min (num_real hi) (num_real x))"
  using assms by (auto simp: std_clamp_def num_less_real)

lemma number_of_set_num:
  assumes "fv_writable v" and "present v"
  shows "number_of (num_type x) (fst (set_num x v)) = Some x"
proof (cases x)
  case (NUint32 u)
  have b: "uint u < 2 ^ 32" using uint_lt2p [of u] by simp
  have e: "uint (ucast u :: uint64) = uint u"
    using b by (simp add: unsigned_ucast_eq take_bit_int_eq_self)
  moreover have "unat (ucast u :: uint64) = unat u"
    using e by (simp only: unat_eq_nat_uint)
  moreover have "unat u \<le> 2 ^ 32 - 1"
    using unsigned_less [of u, where 'a = nat] by simp
  moreover have "ucast (ucast u :: uint64) = u" 
    using uint_ucast_small [of "ucast u"] b e by (simp add: word_uint_eq_iff)
  ultimately show ?thesis
    using assms NUint32
    by (simp add: number_of_def numericValue_def set_uint32_def isUint32_def asUint32_def
        present_def del: of_int_sint of_int_uint)
qed (use assms in \<open>simp_all add: number_of_def numericValue_def set_int64_def set_double_def
        isInt64_def asInt64_def isDouble_def asDouble_def present_def\<close>)

end
