(* ===== verification/RpcWrappers.thy ===== *)
theory RpcWrappers
  imports RpcValidators
begin

text \<open>
  The items that wrap other items: \<^verbatim>\<open>include/rpcspec/IfType.hpp\<close>, \<^verbatim>\<open>include/rpcspec/Section.hpp\<close>,
  \<^verbatim>\<open>include/rpcspec/WithCustomError.hpp\<close> and \<^verbatim>\<open>include/rpcspec/ServerConditional.hpp\<close>. Each keeps the
  contract of its contents: a wrapper of well-behaved items is a well-behaved item.
\<close>

section \<open>IfType and Section\<close>

definition IfType_modify :: "json_type \<Rightarrow> unit item list \<Rightarrow> modifier" where
  "IfType_modify t subItems v =
     (if \<not> present v \<or> \<not> is_type t v then (v, Ret ()) else runProcessors subItems v)"

fun run_nested :: "field_spec list \<Rightarrow> modifier" where
  "run_nested [] v = (v, Ret ())"
| "run_nested (subSpec # rest) v = sbind (processNested subSpec v) (\<lambda>_ v'. run_nested rest v')"

definition Section_modify :: "field_spec list \<Rightarrow> modifier" where
  "Section_modify subFields v =
     (if \<not> present v then (v, Ret ())
      else if \<not> isObject v then (v, Fail invalidParams)
      else run_nested subFields v)"

lemma optional_modifierI:
  assumes "processor f" and "\<And>v. \<not> present v \<Longrightarrow> g v = (v, Ret ())"
    and "\<And>v. g v = f v \<or> (\<exists>r. g v = (v, r) \<and> \<not> throws r)"
  shows "optional_modifier g"
proof
  fix v
  from assms(3) [of v] show "fv_writable v \<Longrightarrow> \<not> throws (snd (g v))"
    "fv_key (fst (g v)) = fv_key v" "fv_writable (fst (g v)) = fv_writable v"
    "present (fst (g v)) = present v"
    using processor.no_throw [OF assms(1)] processor.keeps_key [OF assms(1)]
      processor.keeps_writable [OF assms(1)] processor.keeps_presence [OF assms(1)]
    by auto
qed (rule assms(2))

lemma optional_modifier_IfType:
  assumes "list_all item_ok its"
  shows "optional_modifier (IfType_modify t its)"
  by (rule optional_modifierI [OF processor_runProcessors [OF assms]])
    (auto simp: IfType_modify_def)

lemma processor_run_nested:
  assumes "list_all (\<lambda>fs. list_all item_ok (fs_items fs)) sub"
  shows "processor (run_nested sub)"
  using assms
proof (induction sub)
  case Nil
  have "run_nested [] = (\<lambda>v. (v, Ret ()))" by (simp add: fun_eq_iff)
  then show ?case using processor_skip by metis
next
  case (Cons f sub)
  then have "processor (\<lambda>v. sbind (processNested f v) (\<lambda>_ v'. run_nested sub v'))"
    by (intro processor_comp processor_processNested) simp_all
  then show ?case by simp
qed

lemma optional_modifier_Section:
  assumes "list_all (\<lambda>fs. list_all item_ok (fs_items fs)) sub"
  shows "optional_modifier (Section_modify sub)"
  by (rule optional_modifierI [OF processor_run_nested [OF assms]])
    (auto simp: Section_modify_def)

section \<open>WithCustomError\<close>

definition makeStatus :: "combined_error \<Rightarrow> string \<Rightarrow> status" where
  "makeStatus code message = (if message = [] then status_of code else status_msg code message)"

definition WithCustomError_verify :: "requirement \<Rightarrow> combined_error \<Rightarrow> string \<Rightarrow> requirement" where
  "WithCustomError_verify f code message v =
     (case f v of Ret _ \<Rightarrow> Ret () | Fail _ \<Rightarrow> Fail (makeStatus code message) | Throw x \<Rightarrow> Throw x)"

definition WithCustomError_modify :: "modifier \<Rightarrow> combined_error \<Rightarrow> string \<Rightarrow> modifier" where
  "WithCustomError_modify f code message v =
     (case f v of (v', r) \<Rightarrow>
       (v', case r of Ret _ \<Rightarrow> Ret () | Fail _ \<Rightarrow> Fail (makeStatus code message) | Throw x \<Rightarrow> Throw x))"

text \<open>\<open>'m\<close> is the member type of the field the wrapper stands in; the wrapped item has no default.\<close>

definition WithCustomError :: "unit item \<Rightarrow> combined_error \<Rightarrow> string \<Rightarrow> 'm item" where
  "WithCustomError wrapped code message =
     no_item\<lparr>it_verify := map_option (\<lambda>f. WithCustomError_verify f code message) (it_verify wrapped),
             it_modify := map_option (\<lambda>f. WithCustomError_modify f code message) (it_modify wrapped)\<rparr>"

lemma validator_WithCustomError:
  assumes "validator f a e"
  shows "validator (WithCustomError_verify f c m) a (\<lambda>v. makeStatus c m)"
  using assms by (auto simp: validator_def WithCustomError_verify_def)

lemma optional_validator_WithCustomError:
  assumes "optional_validator f a e"
  shows "optional_validator (WithCustomError_verify f c m) a (\<lambda>v. makeStatus c m)"
  using assms validator_WithCustomError [of f a e c m]
  by (simp add: optional_validator_def)

lemma callIfProcessor_WithCustomError:
  "callIfProcessor (WithCustomError wrapped c m) v =
     (case callIfProcessor wrapped v of (v', r) \<Rightarrow>
       (v', case r of Ret _ \<Rightarrow> Ret () | Fail _ \<Rightarrow> Fail (makeStatus c m) | Throw x \<Rightarrow> Throw x))"
  by (auto simp: callIfProcessor_def WithCustomError_def WithCustomError_verify_def
      WithCustomError_modify_def no_item_def split: option.split outcome.split)

lemma item_ok_WithCustomError:
  assumes "item_ok wrapped"
  shows "item_ok (WithCustomError wrapped c m)"
proof -
  have p: "processor (callIfProcessor wrapped)" using assms by (simp add: item_ok_def)
  show ?thesis
    unfolding item_ok_def
  proof
    fix v
    obtain v' r where e: "callIfProcessor wrapped v = (v', r)" by fastforce
    show "fv_writable v \<Longrightarrow> \<not> throws (snd (callIfProcessor (WithCustomError wrapped c m) v))"
      "fv_key (fst (callIfProcessor (WithCustomError wrapped c m) v)) = fv_key v"
      "fv_writable (fst (callIfProcessor (WithCustomError wrapped c m) v)) = fv_writable v"
      "present (fst (callIfProcessor (WithCustomError wrapped c m) v)) = present v"
      using processor.no_throw [OF p, of v] processor.keeps_key [OF p, of v]
        processor.keeps_writable [OF p, of v] processor.keeps_presence [OF p, of v] e
      by (cases r; simp add: callIfProcessor_WithCustomError)+
  qed
qed

section \<open>ServerConditional\<close>

fun verify_all :: "'m item list \<Rightarrow> requirement" where
  "verify_all [] v = Ret ()"
| "verify_all (it # its) v =
     (case it_verify it of
        Some f \<Rightarrow> obind (f v) (\<lambda>_. verify_all its v)
      | None \<Rightarrow> verify_all its v)"

fun check_first :: "'m item list \<Rightarrow> field_view \<Rightarrow> warning option \<Rightarrow> warning option" where
  "check_first [] v result = result"
| "check_first (it # its) v result =
     check_first its v
       (case it_check it of
          Some f \<Rightarrow> (if result = None then f v else result)
        | None \<Rightarrow> result)"

fun modify_all :: "'m item list \<Rightarrow> modifier" where
  "modify_all [] v = (v, Ret ())"
| "modify_all (it # its) v =
     (case it_modify it of
        Some f \<Rightarrow> sbind (f v) (\<lambda>_ v'. modify_all its v')
      | None \<Rightarrow> modify_all its v)"

text \<open>The static assertion: not both a requirement and a modifier.\<close>

definition conditional_ok :: "'m item list \<Rightarrow> bool" where
  "conditional_ok vs =
     (\<not> (list_ex (\<lambda>it. it_verify it \<noteq> None) vs \<and> list_ex (\<lambda>it. it_modify it \<noteq> None) vs))"

definition ServerConditional :: "bool \<Rightarrow> 'm item list \<Rightarrow> 'm item" where
  "ServerConditional active vs =
     no_item\<lparr>
       it_verify := (if list_ex (\<lambda>it. it_verify it \<noteq> None) vs
         then Some (\<lambda>v. if active then verify_all vs v else Ret ()) else None),
       it_check := (if list_ex (\<lambda>it. it_check it \<noteq> None) vs
         then Some (\<lambda>v. if active then check_first vs v None else None) else None),
       it_modify := (if list_ex (\<lambda>it. it_modify it \<noteq> None) vs
         then Some (\<lambda>v. if active then modify_all vs v else (v, Ret ())) else None),
       it_skips := (if list_ex (\<lambda>it. it_skips it \<noteq> None) vs
         then Some (\<lambda>doc. if active then skipsField vs doc else False) else None),
       it_guardKeys := concat (map it_guardKeys vs)\<rparr>"

definition ifServerClio :: "server \<Rightarrow> 'm item list \<Rightarrow> 'm item" where
  "ifServerClio srv = ServerConditional (kIsClioBuild srv)"

definition ifServerXrpld :: "server \<Rightarrow> 'm item list \<Rightarrow> 'm item" where
  "ifServerXrpld srv = ServerConditional (kIsXrpldBuild srv)"

lemma ServerConditional_simps [simp]:
  "it_verify (ServerConditional a vs) = (if list_ex (\<lambda>it. it_verify it \<noteq> None) vs
     then Some (\<lambda>v. if a then verify_all vs v else Ret ()) else None)"
  "it_check (ServerConditional a vs) = (if list_ex (\<lambda>it. it_check it \<noteq> None) vs
     then Some (\<lambda>v. if a then check_first vs v None else None) else None)"
  "it_modify (ServerConditional a vs) = (if list_ex (\<lambda>it. it_modify it \<noteq> None) vs
     then Some (\<lambda>v. if a then modify_all vs v else (v, Ret ())) else None)"
  "it_skips (ServerConditional a vs) = (if list_ex (\<lambda>it. it_skips it \<noteq> None) vs
     then Some (\<lambda>doc. if a then skipsField vs doc else False) else None)"
  "it_default (ServerConditional a vs) = None"
  "it_guardKeys (ServerConditional a vs) = concat (map it_guardKeys vs)"
  by (simp_all add: ServerConditional_def no_item_def)

lemma runProcessors_only_verify:
  assumes "\<not> list_ex (\<lambda>it. it_modify it \<noteq> None) its"
  shows "runProcessors its v = (v, verify_all its v)"
  using assms
proof (induction its)
  case (Cons it its)
  then show ?case
  proof (cases "it_verify it")
    case (Some f)
    with Cons show ?thesis by (cases "f v") (auto simp: callIfProcessor_def)
  qed (auto simp: callIfProcessor_def)
qed simp

lemma runProcessors_only_modify:
  assumes "\<not> list_ex (\<lambda>it. it_verify it \<noteq> None) its"
  shows "runProcessors its v = modify_all its v"
  using assms
proof (induction its arbitrary: v)
  case (Cons it its)
  then show ?case
  proof (cases "it_modify it")
    case (Some f)
    with Cons show ?thesis
      by (cases "f v"; cases "snd (f v)") (auto simp: callIfProcessor_def)
  qed (auto simp: callIfProcessor_def)
qed simp

lemma verify_all_none: "\<not> list_ex (\<lambda>it. it_verify it \<noteq> None) its \<Longrightarrow> verify_all its v = Ret ()"
  by (induction its) auto

lemma modify_all_none: "\<not> list_ex (\<lambda>it. it_modify it \<noteq> None) its \<Longrightarrow> modify_all its v = (v, Ret ())"
  by (induction its) auto

lemma callIfProcessor_active:
  assumes "conditional_ok vs"
  shows "callIfProcessor (ServerConditional True vs) v = runProcessors vs v"
proof (cases "list_ex (\<lambda>it. it_verify it \<noteq> None) vs")
  case True
  then have "\<not> list_ex (\<lambda>it. it_modify it \<noteq> None) vs" using assms by (simp add: conditional_ok_def)
  then show ?thesis
    using True by (simp add: callIfProcessor_def runProcessors_only_verify)
next
  case False
  then show ?thesis
    by (auto simp: callIfProcessor_def runProcessors_only_modify modify_all_none)
qed

lemma callIfProcessor_inactive: "callIfProcessor (ServerConditional False vs) v = (v, Ret ())"
  by (auto simp: callIfProcessor_def)

lemma item_ok_ServerConditional:
  assumes "conditional_ok vs" and "list_all item_ok vs"
  shows "item_ok (ServerConditional a vs)"
proof (cases a)
  case True
  then have "callIfProcessor (ServerConditional a vs) = runProcessors vs"
    using callIfProcessor_active [OF assms(1)] by (simp add: fun_eq_iff)
  then show ?thesis
    using processor_runProcessors [OF assms(2)] by (simp add: item_ok_def)
next
  case False
  then have "callIfProcessor (ServerConditional a vs) = (\<lambda>v. (v, Ret ()))"
    by (simp add: fun_eq_iff callIfProcessor_inactive)
  then show ?thesis by (simp add: item_ok_def processor_skip)
qed

lemma skipsField_none: "\<not> list_ex (\<lambda>it. it_skips it \<noteq> None) vs \<Longrightarrow> \<not> skipsField vs doc"
  by (induction vs) auto

lemma runProcessors_single [simp]: "runProcessors [it] v = callIfProcessor it v"
  by (cases "callIfProcessor it v"; cases "snd (callIfProcessor it v)") auto

section \<open>Properties\<close>

lemma runChecks_acc: "runChecks its v out = out @ runChecks its v []"
proof (induction its arbitrary: out)
  case (Cons it its)
  have "callIfChecker it v out = out @ callIfChecker it v []"
    by (auto split: option.split)
  then show ?case
    using Cons.IH [of "callIfChecker it v out"] Cons.IH [of "callIfChecker it v []"] by simp
qed simp

lemma skipsField_append: "skipsField (as @ bs) doc \<longleftrightarrow> skipsField as doc \<or> skipsField bs doc"
  by (auto simp: skipsField_iff)

lemma check_first_some: "check_first vs v (Some w) = Some w"
  by (induction vs) (auto split: option.split)

lemma runChecks_active:
  "runChecks [ServerConditional True vs] v out = out @ take 1 (runChecks vs v [])"
proof -
  have "(case check_first vs v None of None \<Rightarrow> [] | Some w \<Rightarrow> [w]) = take 1 (runChecks vs v [])"
  proof (induction vs)
    case (Cons it vs)
    show ?case
    proof (cases "\<exists>f w. it_check it = Some f \<and> f v = Some w")
      case True
      then obtain f w where f: "it_check it = Some f" "f v = Some w" by blast
      have "runChecks vs v [w] = [w] @ runChecks vs v []"
        using runChecks_acc [of vs v "[w]"] by simp
      with f show ?thesis by (simp add: check_first_some)
    next
      case False
      with Cons show ?thesis by (auto split: option.split)
    qed
  qed simp
  moreover have "runChecks vs v [] = []" if "\<not> list_ex (\<lambda>it. it_check it \<noteq> None) vs"
    using that by (induction vs) auto
  ultimately show ?thesis by (auto split: option.split)
qed

text \<open>
  C7: a conditional item that the build activates, placed among other items, runs exactly as if
  its contents stood there unwrapped: the same rewrites, the same first error. It skips the field
  exactly when one of its contents does, and warns of the first thing they warn of and no more.
\<close>

theorem ServerConditional_inlines:
  assumes "conditional_ok vs"
  shows "runProcessors (as @ ServerConditional True vs # bs) v = runProcessors (as @ vs @ bs) v \<and>
    skipsField (as @ ServerConditional True vs # bs) doc = skipsField (as @ vs @ bs) doc \<and>
    runChecks [ServerConditional True vs] v out = out @ take 1 (runChecks vs v [])"
proof -
  have "runProcessors (ServerConditional True vs # bs) w = runProcessors (vs @ bs) w" for w
    using runProcessors_append [of vs bs w] callIfProcessor_active [OF assms, of w] by simp
  moreover have "skipsField (as @ ServerConditional True vs # bs) doc = skipsField (as @ vs @ bs) doc"
    using skipsField_none [of vs doc] by (auto simp: skipsField_append)
  ultimately show ?thesis
    using runChecks_active [of vs v out]
    by (simp add: runProcessors_append del: runProcessors.simps skipsField.simps ServerConditional_simps)
qed

theorem ServerConditional_inlines_witness:
  "runProcessors
     ([] @ ServerConditional True [requirement_item (Type_verify TString) :: unit item] # [])
     \<lparr>fv_key = ''k'', fv_value = Some (JInt64 1), fv_writable = True\<rparr> =
   (\<lparr>fv_key = ''k'', fv_value = Some (JInt64 1), fv_writable = True\<rparr>, Fail invalidParams)"
proof -
  have "conditional_ok [requirement_item (Type_verify TString) :: unit item]"
    by (simp add: conditional_ok_def requirement_item_def no_item_def)
  from ServerConditional_inlines [OF this, of "[]" "[]"] show ?thesis
    by (simp add: Type_verify_def present_def isString_def)
qed

text \<open>
  In the other server's build the same item is inert: whatever it wraps, it neither rejects
  nor rewrites the field, warns of nothing and skips nothing.
\<close>

theorem ServerConditional_inert:
  "runProcessors (as @ ServerConditional False vs # bs) v = runProcessors (as @ bs) v \<and>
   runChecks (as @ ServerConditional False vs # bs) v out = runChecks (as @ bs) v out \<and>
   skipsField (as @ ServerConditional False vs # bs) doc = skipsField (as @ bs) doc"
  by (auto simp: runProcessors_append callIfProcessor_inactive runChecks_append skipsField_iff)

text \<open>
  Replacing the error of an item changes no verdict and no rewrite: the field view left behind
  and success are those of the wrapped item, and every failure is the custom one.
\<close>

theorem WithCustomError_transparent:
  "fst (callIfProcessor (WithCustomError wrapped c m) v) = fst (callIfProcessor wrapped v) \<and>
   (snd (callIfProcessor (WithCustomError wrapped c m) v) = Ret () \<longleftrightarrow>
     snd (callIfProcessor wrapped v) = Ret ()) \<and>
   (snd (callIfProcessor (WithCustomError wrapped c m) v) = Fail e \<longleftrightarrow>
     e = makeStatus c m \<and> (\<exists>e'. snd (callIfProcessor wrapped v) = Fail e'))"
  by (auto simp: callIfProcessor_WithCustomError split: prod.split outcome.split)

end
