(* ===== verification/RpcWalk.thy ===== *)
theory RpcWalk
  imports RpcField
begin

text \<open>
  \<^verbatim>\<open>include/rpcspec/RpcSpec.hpp\<close>: the override plan, the walk over the surviving fields that every
  spec operation is built on, and \<^verbatim>\<open>RpcSpec\<close> itself. The plan and the walk work on indices as the
  code does; \<open>effective\<close> is the list of fields they stand for, and the refinement lemma
  \<open>forEachEffectiveField_list\<close> says that the index walk visits exactly those.
\<close>

section \<open>The plan\<close>

record override_plan =
  shouldRun :: "bool list"
  effectiveIdx :: "nat list"

definition is_first :: "string list \<Rightarrow> nat \<Rightarrow> bool" where
  "is_first keys i = (\<not> list_ex (\<lambda>j. keys ! j = keys ! i) [0..<i])"

definition last_same :: "string list \<Rightarrow> nat \<Rightarrow> nat" where
  "last_same keys i =
     foldl (\<lambda>last j. if keys ! j = keys ! i then j else last) i [i + 1..<length keys]"

definition buildOverridePlan :: "string list \<Rightarrow> override_plan" where
  "buildOverridePlan keys =
     \<lparr>shouldRun = map (is_first keys) [0..<length keys],
      effectiveIdx = map (\<lambda>i. if is_first keys i then last_same keys i else 0) [0..<length keys]\<rparr>"

section \<open>The walk\<close>

text \<open>
  A visitor gets a field and the state it may change, and says whether to go on. The loop stops at
  the first visitor that says no.
\<close>

fun walk_from ::
    "override_plan \<Rightarrow> 'f list \<Rightarrow> ('f \<Rightarrow> 's \<Rightarrow> 's \<times> bool) \<Rightarrow> nat list \<Rightarrow> 's \<Rightarrow> 's" where
  "walk_from plan fds visit [] s = s"
| "walk_from plan fds visit (i # is) s =
     (if shouldRun plan ! i
      then (case visit (fds ! (effectiveIdx plan ! i)) s of
          (s', go) \<Rightarrow> if go then walk_from plan fds visit is s' else s')
      else walk_from plan fds visit is s)"

definition forEachEffectiveField ::
    "('f \<Rightarrow> string) \<Rightarrow> 'f list \<Rightarrow> ('f \<Rightarrow> 's \<Rightarrow> 's \<times> bool) \<Rightarrow> 's \<Rightarrow> 's" where
  "forEachEffectiveField key fds visit s =
     (if fds = [] then s
      else walk_from (buildOverridePlan (map key fds)) fds visit [0..<length fds] s)"

text \<open>The same over a list of fields to visit.\<close>

fun visit_list :: "('f \<Rightarrow> 's \<Rightarrow> 's \<times> bool) \<Rightarrow> 'f list \<Rightarrow> 's \<Rightarrow> 's" where
  "visit_list visit [] s = s"
| "visit_list visit (f # fs) s =
     (case visit f s of (s', go) \<Rightarrow> if go then visit_list visit fs s' else s')"

text \<open>
  The surviving fields: keys in the order of their first appearance, each with its last
  definition. \<open>last_def\<close> looks a key up from the right.
\<close>

definition last_def :: "('f \<Rightarrow> string) \<Rightarrow> 'f list \<Rightarrow> string \<Rightarrow> 'f option" where
  "last_def key fds k = find (\<lambda>f. key f = k) (rev fds)"

definition first_keys :: "('f \<Rightarrow> string) \<Rightarrow> 'f list \<Rightarrow> string list" where
  "first_keys key fds = rev (remdups (rev (map key fds)))"

definition effective :: "('f \<Rightarrow> string) \<Rightarrow> 'f list \<Rightarrow> 'f list" where
  "effective key fds = map (\<lambda>k. the (last_def key fds k)) (first_keys key fds)"

lemma first_keys_snoc:
  "first_keys key (fds @ [f]) =
     (if key f \<in> key ` set fds then first_keys key fds else first_keys key fds @ [key f])"
  by (auto simp: first_keys_def)

lemma set_first_keys [simp]: "set (first_keys key fds) = key ` set fds"
  by (simp add: first_keys_def)

lemma distinct_first_keys [simp]: "distinct (first_keys key fds)"
  by (simp add: first_keys_def)

lemma first_keys_filter:
  "first_keys key fds =
     map (\<lambda>i. key (fds ! i)) (filter (is_first (map key fds)) [0..<length fds])"
proof (induction fds rule: rev_induct)
  case (snoc f fs)
  have eq: "is_first (map key (fs @ [f])) i = is_first (map key fs) i" if "i < length fs" for i
    using that by (auto simp: is_first_def list_ex_iff nth_append)
  have last: "is_first (map key (fs @ [f])) (length fs) \<longleftrightarrow> key f \<notin> key ` set fs"
  proof -
    have "is_first (map key (fs @ [f])) (length fs) \<longleftrightarrow> (\<forall>j < length fs. key (fs ! j) \<noteq> key f)"
      by (auto simp: is_first_def list_ex_iff nth_append)
    moreover have "key f \<in> key ` set fs \<longleftrightarrow> (\<exists>j < length fs. key (fs ! j) = key f)"
      by (metis (no_types, lifting) image_iff in_set_conv_nth)
    ultimately show ?thesis by blast
  qed
  have "filter (is_first (map key (fs @ [f]))) [0..<length fs] =
      filter (is_first (map key fs)) [0..<length fs]"
    using eq by (intro filter_cong) auto
  moreover have "map (\<lambda>i. key ((fs @ [f]) ! i)) (filter (is_first (map key fs)) [0..<length fs]) =
      map (\<lambda>i. key (fs ! i)) (filter (is_first (map key fs)) [0..<length fs])"
    by (intro map_cong) (auto simp: nth_append)
  ultimately show ?case
    using snoc last by (simp add: first_keys_snoc)
qed (simp add: first_keys_def)

lemma foldl_last_same:
  assumes "i \<le> l" and "l < n" and "keys ! l = keys ! i"
    and "\<forall>j. l < j \<and> j < n \<longrightarrow> keys ! j \<noteq> keys ! i"
  shows "foldl (\<lambda>last j. if keys ! j = keys ! i then j else last) i [i + 1..<n] = l"
  using assms
proof (induction n)
  case (Suc n)
  show ?case
  proof (cases "l = n")
    case True
    with Suc.prems show ?thesis by (cases "i = n") auto
  next
    case False
    with Suc.prems have "l < n" by simp
    moreover from Suc.prems this have "keys ! n \<noteq> keys ! i" by auto
    moreover have "[i + 1..<Suc n] = [i + 1..<n] @ [n]" using Suc.prems calculation(1) by simp
    ultimately show ?thesis using Suc by auto
  qed
qed simp

text \<open>The index the plan stores for a key is that of the key's last definition.\<close>

lemma fields_last_same:
  assumes "i < length fds"
  shows "last_def key fds (key (fds ! i)) = Some (fds ! last_same (map key fds) i)"
proof -
  let ?n = "length fds"
  let ?J = "{j. j < ?n \<and> key (fds ! j) = key (fds ! i)}"
  define l where "l = Max ?J"
  have fin: "finite ?J" and ne: "i \<in> ?J" using assms by auto
  have "l \<in> ?J" unfolding l_def using fin ne by (intro Max_in) blast+
  then have l: "l < ?n" "key (fds ! l) = key (fds ! i)" by simp_all
  have mx: "\<And>j. j \<in> ?J \<Longrightarrow> j \<le> l" unfolding l_def using fin by (rule Max_ge)
  then have il: "i \<le> l" using ne by blast
  have ls: "last_same (map key fds) i = l"
    unfolding last_same_def
    by (rule foldl_last_same) (use l il mx assms in \<open>auto simp: not_less [symmetric]\<close>)
  have "find (\<lambda>f. key f = key (fds ! i)) (rev fds) = Some (fds ! l)"
  proof (subst find_Some_iff, intro exI conjI allI impI)
    show "?n - Suc l < length (rev fds)" using l by auto
    show "key (rev fds ! (?n - Suc l)) = key (fds ! i)" using l by (simp add: rev_nth)
    show "fds ! l = rev fds ! (?n - Suc l)" using l by (simp add: rev_nth)
    fix j assume "j < ?n - Suc l"
    then show "key (rev fds ! j) \<noteq> key (fds ! i)"
      using mx [of "?n - Suc j"] assms by (cases "?n - Suc j < ?n") (auto simp: rev_nth)
  qed
  then show ?thesis by (simp add: last_def_def ls)
qed

lemma walk_from_visit_list:
  assumes "set is \<subseteq> {..<length fds}"
  shows "walk_from (buildOverridePlan (map key fds)) fds visit is s =
    visit_list visit
      (map (\<lambda>i. fds ! last_same (map key fds) i) (filter (is_first (map key fds)) is)) s"
  using assms
proof (induction "is" arbitrary: s)
  case (Cons i "is")
  then have i: "i < length fds" and rest: "set is \<subseteq> {..<length fds}" by auto
  have plan: "shouldRun (buildOverridePlan (map key fds)) ! i = is_first (map key fds) i"
    "is_first (map key fds) i \<Longrightarrow>
       effectiveIdx (buildOverridePlan (map key fds)) ! i = last_same (map key fds) i"
    using i by (simp_all add: buildOverridePlan_def)
  show ?case
    using Cons.IH [OF rest] plan by (auto split: prod.split)
qed simp

lemma forEachEffectiveField_list:
  "forEachEffectiveField key fds visit s = visit_list visit (effective key fds) s"
proof -
  have "effective key fds =
      map (\<lambda>i. fds ! last_same (map key fds) i)
        (filter (is_first (map key fds)) [0..<length fds])"
    unfolding effective_def first_keys_filter map_map comp_def
    by (intro map_cong) (auto simp: fields_last_same)
  then show ?thesis
    using walk_from_visit_list [of "[0..<length fds]" fds key visit s]
    by (auto simp: forEachEffectiveField_def atLeast0LessThan)
qed

section \<open>The contract of a visitor\<close>

text \<open>
  A visitor that keeps an invariant at every admissible field keeps it over a walk, and a walk
  over admissible fields only ever visits admissible ones.
\<close>

locale visitor =
  fixes visit :: "'f \<Rightarrow> 's \<Rightarrow> 's \<times> bool"
    and admissible :: "'f \<Rightarrow> bool"
    and inv :: "'s \<Rightarrow> bool"
  assumes step: "admissible f \<Longrightarrow> inv s \<Longrightarrow> inv (fst (visit f s))"
begin

lemma visit_list_inv: "list_all admissible fs \<Longrightarrow> inv s \<Longrightarrow> inv (visit_list visit fs s)"
proof (induction fs arbitrary: s)
  case (Cons f fs)
  then show ?case using step [of f s] by (auto split: prod.split)
qed simp

end

lemma last_def_Some:
  assumes "k \<in> key ` set fds"
  shows "\<exists>f \<in> set fds. last_def key fds k = Some f \<and> key f = k"
  using assms
proof (induction fds rule: rev_induct)
  case (snoc f fds)
  then show ?case
    by (cases "key f = k") (auto simp: last_def_def)
qed simp

lemma last_def_snoc [simp]:
  "last_def key (fds @ [f]) k = (if key f = k then Some f else last_def key fds k)"
  by (simp add: last_def_def)

lemma set_effective: "set (effective key fds) \<subseteq> set fds"
  using last_def_Some [of _ key fds] by (fastforce simp: effective_def)

lemma keys_effective [simp]: "map key (effective key fds) = first_keys key fds"
proof -
  have "key (the (last_def key fds k)) = k" if "k \<in> key ` set fds" for k
    using last_def_Some [OF that] by auto
  then have "map (\<lambda>k. key (the (last_def key fds k))) (first_keys key fds) = first_keys key fds"
    by (intro map_idI) simp
  then show ?thesis by (simp add: effective_def comp_def)
qed

lemma distinct_effective: "distinct (map key (effective key fds))"
  by simp

lemma list_all_effective: "list_all P fds \<Longrightarrow> list_all P (effective key fds)"
  using set_effective [of key fds] by (auto simp: list_all_iff)

section \<open>Overriding in place\<close>

text \<open>What adding a field to a declaration list means, without a plan.\<close>

definition override_field :: "('f \<Rightarrow> string) \<Rightarrow> 'f \<Rightarrow> 'f list \<Rightarrow> 'f list" where
  "override_field key f fs =
     (if key f \<in> key ` set fs then map (\<lambda>g. if key g = key f then f else g) fs else fs @ [f])"

lemma effective_distinct: "distinct (map key fds) \<Longrightarrow> effective key fds = fds"
proof -
  assume d: "distinct (map key fds)"
  have "the (last_def key fds (key f)) = f" if f: "f \<in> set fds" for f
  proof -
    obtain g where "g \<in> set fds" "last_def key fds (key f) = Some g" "key g = key f"
      using last_def_Some [of "key f" key fds] f by blast
    with d f show ?thesis by (simp add: distinct_map inj_on_def)
  qed
  moreover have "first_keys key fds = map key fds"
    using d by (simp add: first_keys_def distinct_remdups_id)
  ultimately show ?thesis by (simp add: effective_def map_idI)
qed

lemma last_def_replace:
  "last_def key (map (\<lambda>g. if key g = key f then f else g) fs) k =
     (if k = key f \<and> k \<in> key ` set fs then Some f else last_def key fs k)"
  by (induction fs rule: rev_induct) (auto simp: last_def_def)

lemma keys_replace: "map key (map (\<lambda>g. if key g = key f then f else g) fs) = map key fs"
  by simp

lemma effective_override: "effective key (fs @ [f]) = effective key (override_field key f fs)"
proof (cases "key f \<in> key ` set fs")
  case True
  let ?fs = "map (\<lambda>g. if key g = key f then f else g) fs"
  have "first_keys key ?fs = first_keys key (fs @ [f])"
    using True by (simp add: first_keys_snoc) (simp add: first_keys_def comp_def if_distrib cong: if_cong)
  with True show ?thesis
    by (auto simp: effective_def override_field_def last_def_replace intro!: map_cong)
qed (simp add: override_field_def)

text \<open>An extension sees of the base only its effective fields.\<close>

lemma effective_append:
  assumes "effective key a = effective key b"
  shows "effective key (a @ xs) = effective key (b @ xs)"
proof (induction xs rule: rev_induct)
  case (snoc f xs)
  have fk: "first_keys key (a @ xs) = first_keys key (b @ xs)"
    using arg_cong [OF snoc.IH, of "map key"] by simp
  have img: "key ` set (a @ xs) = key ` set (b @ xs)"
    using arg_cong [OF fk, of set] by (simp only: set_first_keys)
  have ld: "the (last_def key (a @ xs) k) = the (last_def key (b @ xs) k)"
    if "k \<in> set (first_keys key (b @ xs))" for k
    using that snoc.IH unfolding effective_def fk map_eq_conv by blast
  have "first_keys key ((a @ xs) @ [f]) = first_keys key ((b @ xs) @ [f])"
    unfolding first_keys_snoc fk img ..
  moreover have "the (last_def key ((a @ xs) @ [f]) k) = the (last_def key ((b @ xs) @ [f]) k)"
    if "k \<in> set (first_keys key ((b @ xs) @ [f]))" for k
    using that ld [of k] by (auto simp: first_keys_snoc simp del: append_assoc split: if_splits)
  ultimately have "effective key ((a @ xs) @ [f]) = effective key ((b @ xs) @ [f])"
    unfolding effective_def by (simp cong: map_cong)
  then show ?case by simp
qed (simp add: assms)

lemma effective_overrides: "effective key (base @ extra) = effective key (fold (override_field key) extra base)"
proof (induction extra arbitrary: base)
  case (Cons f extra)
  have "effective key (base @ f # extra) = effective key (override_field key f base @ extra)"
    using effective_append [OF effective_override [of key base f], of extra] by simp
  also have "\<dots> = effective key (fold (override_field key) (f # extra) base)" using Cons by simp
  finally show ?case .
qed simp

lemma distinct_overrides:
  "distinct (map key base) \<Longrightarrow> distinct (map key (fold (override_field key) extra base))"
proof (induction extra arbitrary: base)
  case (Cons f extra)
  have "distinct (map key (override_field key f base))"
    using Cons.prems keys_replace [of key f base] by (auto simp: override_field_def simp del: map_map)
  then show ?case using Cons.IH by simp
qed simp

section \<open>RpcSpec\<close>

type_synonym rpc_spec = "field_spec list"

definition extend :: "rpc_spec \<Rightarrow> field_spec list \<Rightarrow> rpc_spec" where
  "extend base extra = base @ extra"

text \<open>The state of the walk: the document and the result so far.\<close>

definition process_visit :: "field_spec \<Rightarrow> json \<times> unit parsed \<Rightarrow> (json \<times> unit parsed) \<times> bool" where
  "process_visit f s =
     (case FieldSpec_process f (fst s) of (doc, r) \<Rightarrow> ((doc, r), r = Ret ()))"

definition RpcSpec_process :: "rpc_spec \<Rightarrow> json \<Rightarrow> json \<times> unit parsed" where
  "RpcSpec_process sp doc = forEachEffectiveField fs_key sp process_visit (doc, Ret ())"

definition check_visit :: "json \<Rightarrow> field_spec \<Rightarrow> warnings \<Rightarrow> warnings \<times> bool" where
  "check_visit doc f out = (out @ FieldSpec_check f doc, True)"

definition RpcSpec_check :: "rpc_spec \<Rightarrow> json \<Rightarrow> warnings" where
  "RpcSpec_check sp doc = forEachEffectiveField fs_key sp (check_visit doc) []"

text \<open>The reference: the fields one after another, until one fails.\<close>

fun process_fields :: "field_spec list \<Rightarrow> json \<Rightarrow> json \<times> unit parsed" where
  "process_fields [] doc = (doc, Ret ())"
| "process_fields (f # fs) doc = sbind (FieldSpec_process f doc) (\<lambda>_ doc'. process_fields fs doc')"

lemma visit_list_process:
  "visit_list process_visit fs (doc, Ret ()) = process_fields fs doc"
proof (induction fs arbitrary: doc)
  case (Cons f fs)
  then show ?case
    by (cases "FieldSpec_process f doc"; cases "snd (FieldSpec_process f doc)")
      (auto simp: process_visit_def)
qed simp

lemma visit_list_check:
  "visit_list (check_visit doc) fs out = out @ concat (map (\<lambda>f. FieldSpec_check f doc) fs)"
  by (induction fs arbitrary: out) (auto simp: check_visit_def)

text \<open>A field whose items keep the processor contract.\<close>

definition field_ok :: "field_spec \<Rightarrow> bool" where
  "field_ok f = list_all item_ok (fs_items f)"

definition process_inv :: "json \<Rightarrow> json \<times> unit parsed \<Rightarrow> bool" where
  "process_inv doc0 s = (same_keys doc0 (fst s) \<and> \<not> throws (snd s))"

interpretation process_walk: visitor process_visit field_ok "process_inv doc0" for doc0
proof
  fix f s
  assume f: "field_ok f" and s: "process_inv doc0 s"
  have "same_keys (fst s) (fst (FieldSpec_process f (fst s)))"
    using FieldSpec_process_safe(2) [of f "fst s"] f by (simp add: field_ok_def only_changes_def)
  with s FieldSpec_process_safe(1) [of f "fst s"] f
  show "process_inv doc0 (fst (process_visit f s))"
    by (auto simp: process_inv_def process_visit_def field_ok_def intro: same_keys_trans
        split: prod.splits)
qed

text \<open>The keys outside a spec are never touched; that too is a visitor invariant.\<close>

interpretation frame_walk: visitor process_visit "\<lambda>f. field_ok f \<and> fs_key f \<noteq> k"
  "\<lambda>s. json_get (fst s) k = j" for k j
proof
  fix f and s :: "json \<times> unit parsed"
  assume f: "field_ok f \<and> fs_key f \<noteq> k" and s: "json_get (fst s) k = j"
  have "json_get (fst (FieldSpec_process f (fst s))) k = json_get (fst s) k"
    using FieldSpec_process_safe(2) [of f "fst s"] f by (auto simp: field_ok_def only_changes_def)
  with s show "json_get (fst (fst (process_visit f s))) k = j"
    by (auto simp: process_visit_def split: prod.split)
qed

lemma RpcSpec_process_visits:
  "RpcSpec_process sp doc = visit_list process_visit (effective fs_key sp) (doc, Ret ())"
  by (simp add: RpcSpec_process_def forEachEffectiveField_list)

section \<open>Properties\<close>

text \<open>
  C4: processing a spec runs, for every key in the order of its first appearance, the last field
  declared with that key and nothing else, and stops at the first error with the document that
  field left; the check collects the warnings of the same fields in the same order.
\<close>

theorem RpcSpec_last_wins:
  "RpcSpec_process sp doc = process_fields (effective fs_key sp) doc \<and>
   RpcSpec_check sp doc = concat (map (\<lambda>f. FieldSpec_check f doc) (effective fs_key sp))"
  by (simp add: RpcSpec_process_visits visit_list_process RpcSpec_check_def
      forEachEffectiveField_list visit_list_check)

text \<open>
  C5: extending a spec overrides it in place. Processing and checking the extension, whatever the
  base and however many fields are added, is processing and checking the spec in which each new
  field, in turn, replaces every field of its key where it stands, or is added at the end when
  there is none; when the base declares each key once, that is running these fields one by one.
\<close>

theorem extend_overrides_in_place:
  "RpcSpec_process (extend base extra) doc = RpcSpec_process (fold (override_field fs_key) extra base) doc \<and>
   RpcSpec_check (extend base extra) doc = RpcSpec_check (fold (override_field fs_key) extra base) doc \<and>
   (distinct (map fs_key base) \<longrightarrow>
      RpcSpec_process (extend base extra) doc = process_fields (fold (override_field fs_key) extra base) doc)"
proof -
  let ?sp = "fold (override_field fs_key) extra base"
  have e: "effective fs_key (extend base extra) = effective fs_key ?sp"
    by (simp add: extend_def effective_overrides)
  have "effective fs_key ?sp = ?sp" if "distinct (map fs_key base)"
    by (rule effective_distinct [OF distinct_overrides [OF that]])
  then show ?thesis
    using e by (simp add: RpcSpec_process_visits visit_list_process RpcSpec_check_def forEachEffectiveField_list)
qed

theorem extend_overrides_in_place_witness:
  "RpcSpec_process (extend [field ''a'' [], field ''b'' []] [field ''c'' [], field ''a'' [check_item (\<lambda>v. None)]]) JNull =
   process_fields [field ''a'' [check_item (\<lambda>v. None)], field ''b'' [], field ''c'' []] JNull"
proof -
  let ?base = "[field ''a'' [], field ''b'' []]"
    and ?extra = "[field ''c'' [], field ''a'' [check_item (\<lambda>v. None)]]"
  have f: "fold (override_field fs_key) ?extra ?base =
      [field ''a'' [check_item (\<lambda>v. None)], field ''b'' [], field ''c'' []]"
    by (simp add: override_field_def field_def)
  have "distinct (map fs_key ?base)" by (simp add: field_def)
  with extend_overrides_in_place [of ?base ?extra JNull] show ?thesis unfolding f by blast
qed

text \<open>
  A spec of well-behaved items never throws, adds and removes no key of the request, and
  leaves the value of every key it does not declare as it was.
\<close>

theorem RpcSpec_process_safe:
  assumes "list_all field_ok sp"
  shows "\<not> throws (snd (RpcSpec_process sp doc)) \<and> same_keys doc (fst (RpcSpec_process sp doc)) \<and>
    (\<forall>k. k \<notin> fs_key ` set sp \<longrightarrow> json_get (fst (RpcSpec_process sp doc)) k = json_get doc k)"
proof (intro conjI allI impI)
  have ok: "list_all field_ok (effective fs_key sp)" by (rule list_all_effective) fact
  have "process_inv doc (visit_list process_visit (effective fs_key sp) (doc, Ret ()))"
    by (rule process_walk.visit_list_inv [OF ok]) (simp add: process_inv_def)
  then show "\<not> throws (snd (RpcSpec_process sp doc))" "same_keys doc (fst (RpcSpec_process sp doc))"
    by (simp_all add: process_inv_def RpcSpec_process_visits)
  fix k assume "k \<notin> fs_key ` set sp"
  then have "list_all (\<lambda>f. field_ok f \<and> fs_key f \<noteq> k) (effective fs_key sp)"
    using ok set_effective [of fs_key sp] by (auto simp: list_all_iff)
  from frame_walk.visit_list_inv [OF this, of "(doc, Ret ())" "json_get doc k"]
  show "json_get (fst (RpcSpec_process sp doc)) k = json_get doc k"
    by (simp add: RpcSpec_process_visits)
qed

theorem RpcSpec_process_safe_witness:
  "\<not> throws (snd (RpcSpec_process [field ''limit'' [check_item (\<lambda>v. None)]]
       (JObject [(''limit'', JInt64 5), (''x'', JNull)]))) \<and>
   json_get (fst (RpcSpec_process [field ''limit'' [check_item (\<lambda>v. None)]]
       (JObject [(''limit'', JInt64 5), (''x'', JNull)]))) ''x'' = Some JNull"
  using RpcSpec_process_safe [of "[field ''limit'' [check_item (\<lambda>v. None)]]"
      "JObject [(''limit'', JInt64 5), (''x'', JNull)]"]
  by (simp add: field_ok_def field_def json_get_def [of "JObject _"])

end
