(* ===== verification/RpcTyped.thy ===== *)
theory RpcTyped
  imports RpcWalk
begin

text \<open>
  \<^verbatim>\<open>include/rpcspec/Typed.hpp\<close>: fields bound to a member of the handler's Input aggregate, their
  aliases and guards, and \<^verbatim>\<open>TypedSpec\<close>. The Input type is the type variable \<open>'i\<close>; a pointer to a
  member is the index of the member in the aggregate with the assignment through the pointer.
  The fields of a spec have different member types, so a spec is a list of \<open>'i tfield\<close>, a field
  with its member type erased: its key, the member it binds, and its two operations.
\<close>

type_synonym 'm converter = "field_view \<Rightarrow> 'm parsed"

section \<open>Guards\<close>

definition IfAbsent_skips :: "string \<Rightarrow> json \<Rightarrow> bool" where
  "IfAbsent_skips guardKey doc = present (root_child_const doc guardKey)"

definition ifAbsent :: "string \<Rightarrow> 'm item" where
  "ifAbsent guardKey = guard_item [guardKey] (IfAbsent_skips guardKey)"

definition Never_skips :: "json \<Rightarrow> bool" where
  "Never_skips doc = True"

definition never :: "'m item" where
  "never = guard_item [] Never_skips"

definition guardsKey :: "'m item \<Rightarrow> string \<Rightarrow> bool" where
  "guardsKey it k = (k \<in> set (it_guardKeys it))"

section \<open>Bound fields\<close>

record ('i, 'm) bound_field =
  bf_key :: string
  bf_member :: nat
  bf_assign :: "'m \<Rightarrow> 'i \<Rightarrow> 'i"
  bf_conv :: "'m converter"
  bf_items :: "'m item list"

text \<open>The consteval constructor rejects a field guarded on its own key.\<close>

definition bound_field_ok :: "('i, 'm) bound_field \<Rightarrow> bool" where
  "bound_field_ok f = (\<not> list_ex (\<lambda>it. guardsKey it (bf_key f)) (bf_items f))"

definition applyIfDefault :: "('i, 'm) bound_field \<Rightarrow> 'm item \<Rightarrow> 'i \<Rightarrow> 'i" where
  "applyIfDefault f it out = (case it_default it of Some value \<Rightarrow> bf_assign f value out | None \<Rightarrow> out)"

definition BoundField_parseInto ::
    "('i, 'm) bound_field \<Rightarrow> json \<Rightarrow> 'i \<Rightarrow> json \<times> 'i \<times> unit parsed" where
  "BoundField_parseInto f doc out =
     (if skipsField (bf_items f) doc then (doc, out, Ret ())
      else
        (case runProcessors (bf_items f) (root_child doc (bf_key f)) of
          (fieldView, pre) \<Rightarrow>
            let doc' = root_put doc fieldView
            in case pre of
                 Ret _ \<Rightarrow>
                   if \<not> present fieldView
                   then (doc', fold (applyIfDefault f) (bf_items f) out, Ret ())
                   else (case bf_conv f fieldView of
                       Ret m \<Rightarrow> (doc', bf_assign f m out, Ret ())
                     | Fail e \<Rightarrow> (doc', out, Fail e)
                     | Throw x \<Rightarrow> (doc', out, Throw x))
               | Fail e \<Rightarrow> (doc', out, Fail e)
               | Throw x \<Rightarrow> (doc', out, Throw x)))"

definition BoundField_check :: "('i, 'm) bound_field \<Rightarrow> json \<Rightarrow> warnings" where
  "BoundField_check f doc =
     (if skipsField (bf_items f) doc then []
      else runChecks (bf_items f) (root_child_const doc (bf_key f)) [])"

section \<open>Aliases\<close>

definition AliasedField_parseInto ::
    "string \<Rightarrow> ('i, 'm) bound_field \<Rightarrow> json \<Rightarrow> 'i \<Rightarrow> json \<times> 'i \<times> unit parsed" where
  "AliasedField_parseInto alternateKey f doc out =
     (if present (root_child doc alternateKey) then
        (if present (root_child doc (bf_key f))
         then (doc, out, Fail (status_msg (XrpldErr RpcInvalidParams) ''Too many fields provided.''))
         else BoundField_parseInto (f\<lparr>bf_key := alternateKey\<rparr>) doc out)
      else BoundField_parseInto f doc out)"

definition AliasedField_check :: "string \<Rightarrow> ('i, 'm) bound_field \<Rightarrow> json \<Rightarrow> warnings" where
  "AliasedField_check alternateKey f doc =
     (if present (root_child_const doc alternateKey)
      then BoundField_check (f\<lparr>bf_key := alternateKey\<rparr>) doc
      else BoundField_check f doc)"

section \<open>Typed specs\<close>

record 'i tfield =
  tf_key :: string
  tf_member :: "nat option"
  tf_parse :: "json \<Rightarrow> 'i \<Rightarrow> json \<times> 'i \<times> unit parsed"
  tf_check :: "json \<Rightarrow> warnings"

definition bound :: "('i, 'm) bound_field \<Rightarrow> 'i tfield" where
  "bound f = \<lparr>tf_key = bf_key f, tf_member = Some (bf_member f),
              tf_parse = BoundField_parseInto f, tf_check = BoundField_check f\<rparr>"

definition aliased :: "string \<Rightarrow> ('i, 'm) bound_field \<Rightarrow> 'i tfield" where
  "aliased k f = \<lparr>tf_key = bf_key f, tf_member = Some (bf_member f),
                tf_parse = AliasedField_parseInto k f, tf_check = AliasedField_check k f\<rparr>"

text \<open>A validate-only field: it runs its processors and populates no member.\<close>

definition unbound :: "field_spec \<Rightarrow> 'i tfield" where
  "unbound fs = \<lparr>tf_key = fs_key fs, tf_member = None,
                 tf_parse = (\<lambda>doc out. case FieldSpec_process fs doc of (doc', r) \<Rightarrow> (doc', out, r)),
                 tf_check = FieldSpec_check fs\<rparr>"

type_synonym 'i typed_spec = "'i tfield list"

text \<open>
  \<^verbatim>\<open>countDistinctBoundMembers\<close>: the bound fields whose member no earlier field binds. The
  constructor demands that the count is the number of members of the Input.
\<close>

definition bindsEarlierMember :: "'i typed_spec \<Rightarrow> nat \<Rightarrow> bool" where
  "bindsEarlierMember sp i = list_ex (\<lambda>j. tf_member (sp ! i) = tf_member (sp ! j)) [0..<i]"

definition distinctBoundMemberCount :: "'i typed_spec \<Rightarrow> nat" where
  "distinctBoundMemberCount sp =
     sum_list (map (\<lambda>i. if tf_member (sp ! i) \<noteq> None \<and> \<not> bindsEarlierMember sp i then 1 else 0)
       [0..<length sp])"

definition typed_spec_ok :: "nat \<Rightarrow> 'i typed_spec \<Rightarrow> bool" where
  "typed_spec_ok tuple_size sp = (distinctBoundMemberCount sp = tuple_size)"

definition parse_visit ::
    "'i tfield \<Rightarrow> json \<times> 'i \<times> unit parsed \<Rightarrow> (json \<times> 'i \<times> unit parsed) \<times> bool" where
  "parse_visit f s =
     (case s of (doc, out, _) \<Rightarrow>
       (case tf_parse f doc out of (doc', out', r) \<Rightarrow> ((doc', out', r), r = Ret ())))"

text \<open>\<open>init\<close> is the value-initialised Input.\<close>

definition TypedSpec_parse :: "'i \<Rightarrow> 'i typed_spec \<Rightarrow> json \<Rightarrow> json \<times> 'i parsed" where
  "TypedSpec_parse init sp doc =
     (case forEachEffectiveField tf_key sp parse_visit (doc, init, Ret ()) of
       (doc', out, result) \<Rightarrow> (doc', omap (\<lambda>_. out) result))"

definition tcheck_visit :: "json \<Rightarrow> 'i tfield \<Rightarrow> warnings \<Rightarrow> warnings \<times> bool" where
  "tcheck_visit doc f out = (out @ tf_check f doc, True)"

definition TypedSpec_check :: "'i typed_spec \<Rightarrow> json \<Rightarrow> warnings" where
  "TypedSpec_check sp doc = forEachEffectiveField tf_key sp (tcheck_visit doc) []"

definition textend :: "'i typed_spec \<Rightarrow> 'i tfield list \<Rightarrow> 'i typed_spec" where
  "textend base extra = base @ extra"

section \<open>The walk of a typed spec\<close>

fun parse_fields :: "'i tfield list \<Rightarrow> json \<Rightarrow> 'i \<Rightarrow> json \<times> 'i \<times> unit parsed" where
  "parse_fields [] doc out = (doc, out, Ret ())"
| "parse_fields (f # fs) doc out =
     (case tf_parse f doc out of (doc', out', r) \<Rightarrow>
        if r = Ret () then parse_fields fs doc' out' else (doc', out', r))"

lemma visit_list_parse:
  "visit_list parse_visit fs (doc, out, Ret ()) = parse_fields fs doc out"
  by (induction fs arbitrary: doc out) (auto simp: parse_visit_def split: prod.split)

lemma visit_list_tcheck:
  "visit_list (tcheck_visit doc) fs out = out @ concat (map (\<lambda>f. tf_check f doc) fs)"
  by (induction fs arbitrary: out) (auto simp: tcheck_visit_def)

lemma TypedSpec_parse_fields:
  "TypedSpec_parse init sp doc =
     (case parse_fields (effective tf_key sp) doc init of
       (doc', out, result) \<Rightarrow> (doc', omap (\<lambda>_. out) result))"
  by (simp add: TypedSpec_parse_def forEachEffectiveField_list visit_list_parse)

text \<open>A field that never throws and adds or removes no key.\<close>

definition tfield_safe :: "'i tfield \<Rightarrow> bool" where
  "tfield_safe f =
     (\<forall>doc out. \<not> throws (snd (snd (tf_parse f doc out))) \<and> same_keys doc (fst (tf_parse f doc out)))"

definition parse_inv :: "json \<Rightarrow> json \<times> 'i \<times> unit parsed \<Rightarrow> bool" where
  "parse_inv doc0 s = (same_keys doc0 (fst s) \<and> \<not> throws (snd (snd s)))"

interpretation parse_walk: visitor parse_visit tfield_safe "parse_inv doc0" for doc0
proof
  fix f :: "'a tfield" and s :: "json \<times> 'a \<times> unit parsed"
  assume f: "tfield_safe f" and s: "parse_inv doc0 s"
  obtain doc out r where "s = (doc, out, r)" by (cases s)
  with f s show "parse_inv doc0 (fst (parse_visit f s))"
    by (auto simp: parse_inv_def parse_visit_def tfield_safe_def intro: same_keys_trans
        split: prod.split) (metis fst_conv snd_conv same_keys_trans)+
qed

text \<open>
  What makes a bound field safe: well-behaved items, and a converter that does not throw on a
  present view its own items let through.
\<close>

definition bound_field_safe :: "('i, 'm) bound_field \<Rightarrow> bool" where
  "bound_field_safe f =
     (list_all item_ok (bf_items f) \<and>
      (\<forall>v v'. runProcessors (bf_items f) v = (v', Ret ()) \<longrightarrow> fv_writable v \<longrightarrow> present v' \<longrightarrow>
         \<not> throws (bf_conv f v')))"

lemma same_keys_put: "same_keys doc (root_put doc v)"
  by (simp add: same_keys_def root_put_def)

lemma BoundField_safe:
  assumes "bound_field_safe f"
  shows "\<not> throws (snd (snd (BoundField_parseInto f doc out)))"
    and "same_keys doc (fst (BoundField_parseInto f doc out))"
proof -
  have p: "processor (runProcessors (bf_items f))"
    using assms by (simp add: bound_field_safe_def processor_runProcessors)
  obtain v r where e: "runProcessors (bf_items f) (root_child doc (bf_key f)) = (v, r)" by fastforce
  have nt: "\<not> throws r"
    using processor.no_throw [OF p, of "root_child doc (bf_key f)"] e by simp
  have c: "r = Ret () \<Longrightarrow> present v \<Longrightarrow> \<not> throws (bf_conv f v)"
    using assms e by (auto simp: bound_field_safe_def)
  show "\<not> throws (snd (snd (BoundField_parseInto f doc out)))"
    using nt c e by (cases r; cases "bf_conv f v") (auto simp: BoundField_parseInto_def Let_def)
  show "same_keys doc (fst (BoundField_parseInto f doc out))"
    using e by (cases r; cases "bf_conv f v")
      (auto simp: BoundField_parseInto_def Let_def same_keys_put)
qed

lemma tfield_safe_bound: "bound_field_safe f \<Longrightarrow> tfield_safe (bound f)"
  by (simp add: tfield_safe_def bound_def BoundField_safe)

lemma bound_field_safe_rekey: "bound_field_safe f \<Longrightarrow> bound_field_safe (f\<lparr>bf_key := k\<rparr>)"
  by (simp add: bound_field_safe_def)

lemma tfield_safe_aliased: "bound_field_safe f \<Longrightarrow> tfield_safe (aliased k f)"
  using BoundField_safe [of f] BoundField_safe [OF bound_field_safe_rekey [of f k]]
  by (auto simp: tfield_safe_def aliased_def AliasedField_parseInto_def)

lemma tfield_safe_unbound: "field_ok fs \<Longrightarrow> tfield_safe (unbound fs)"
  using FieldSpec_process_safe [of fs]
  by (auto simp: tfield_safe_def unbound_def field_ok_def only_changes_def split: prod.split)
    (metis fst_conv snd_conv)+

lemma list_all_tfield_safe: "list_all tfield_safe sp \<Longrightarrow> list_all tfield_safe (effective tf_key sp)"
  by (rule list_all_effective)

lemma typed_walk_inv:
  assumes "list_all tfield_safe sp"
  shows "parse_inv doc (visit_list parse_visit (effective tf_key sp) (doc, init, Ret ()))"
  by (rule parse_walk.visit_list_inv [OF list_all_tfield_safe [OF assms]]) (simp add: parse_inv_def)

section \<open>Fields read the request as it was sent\<close>

type_synonym ('i, 'm) declared = "('i, 'm) bound_field + field_spec"

definition decl_field :: "('i, 'm) declared \<Rightarrow> 'i tfield" where
  "decl_field d = (case d of Inl f \<Rightarrow> bound f | Inr fs \<Rightarrow> unbound fs)"

text \<open>Guards that only ask which keys the request has, as \<^verbatim>\<open>ifAbsent\<close> and \<^verbatim>\<open>never\<close> do.\<close>

definition presence_guarded :: "'m item list \<Rightarrow> bool" where
  "presence_guarded its =
     (\<forall>doc doc'. same_keys doc doc' \<longrightarrow> skipsField its doc = skipsField its doc')"

definition declared_ok :: "('i, 'm) declared \<Rightarrow> bool" where
  "declared_ok d = (case d of
       Inl f \<Rightarrow> list_all item_ok (bf_items f) \<and> presence_guarded (bf_items f)
     | Inr fs \<Rightarrow> list_all item_ok (fs_items fs))"

lemma presence_guarded_simps [simp]:
  "presence_guarded []" "it_skips it = None \<Longrightarrow> presence_guarded (it # its) \<longleftrightarrow> presence_guarded its"
  "presence_guarded its \<Longrightarrow> presence_guarded (ifAbsent k # its)"
  "presence_guarded (never # its)"
  by (auto simp: presence_guarded_def ifAbsent_def never_def guard_item_def no_item_def
      IfAbsent_skips_def Never_skips_def present_def same_keys_def)

text \<open>The reference: the fields one after another, each on the request itself.\<close>

fun judge_fields :: "'i tfield list \<Rightarrow> json \<Rightarrow> 'i \<Rightarrow> 'i parsed" where
  "judge_fields [] doc out = Ret out"
| "judge_fields (f # fs) doc out =
     (case tf_parse f doc out of (doc', out', r) \<Rightarrow> obind r (\<lambda>_. judge_fields fs doc out'))"

text \<open>What a field does depends on the value at its key and on which keys there are, no more.\<close>

definition tf_local :: "'i tfield \<Rightarrow> bool" where
  "tf_local f =
     (\<forall>doc doc' out out'. same_keys doc doc' \<longrightarrow> json_get doc (tf_key f) = json_get doc' (tf_key f) \<longrightarrow>
        snd (tf_parse f doc out) = snd (tf_parse f doc' out) \<and>
        json_get (fst (tf_parse f doc out)) (tf_key f) = json_get (fst (tf_parse f doc' out')) (tf_key f) \<and>
        only_changes (tf_key f) doc (fst (tf_parse f doc out)))"

lemma json_get_root_put:
  assumes "list_all item_ok its" and "runProcessors its (root_child doc k) = (v, r)"
  shows "fv_key v = k" and "json_get (root_put doc v) k = fv_value v"
proof -
  have p: "processor (runProcessors its)" by (rule processor_runProcessors) fact
  show k: "fv_key v = k" using processor.keeps_key [OF p, of "root_child doc k"] assms(2) by simp
  have "present v \<longleftrightarrow> json_get doc k \<noteq> None"
    using processor.keeps_presence [OF p, of "root_child doc k"] assms(2) by (simp add: present_def)
  then show "json_get (root_put doc v) k = fv_value v"
    using k json_get_put_same [of doc k] by (cases "fv_value v") (auto simp: root_put_def present_def)
qed

lemma tf_local_bound:
  assumes "list_all item_ok (bf_items f)" and "presence_guarded (bf_items f)"
  shows "tf_local (bound f)"
  unfolding tf_local_def
proof (intro allI impI)
  fix doc doc' :: json and out out'
  let ?k = "bf_key f"
  assume same: "same_keys doc doc'" and "json_get doc (tf_key (bound f)) = json_get doc' (tf_key (bound f))"
  then have g: "json_get doc ?k = json_get doc' ?k" by (simp add: bound_def)
  then have c: "root_child doc' ?k = root_child doc ?k" by (simp add: root_child_def)
  have s: "skipsField (bf_items f) doc' = skipsField (bf_items f) doc"
    using assms(2) same by (auto simp: presence_guarded_def)
  obtain v r where v: "runProcessors (bf_items f) (root_child doc ?k) = (v, r)" by fastforce
  have k: "fv_key v = ?k" "json_get (root_put doc v) ?k = fv_value v" "json_get (root_put doc' v) ?k = fv_value v"
    using json_get_root_put [OF assms(1) v] json_get_root_put(2) [OF assms(1), of doc' ?k v r] v c by simp_all
  have v': "runProcessors (bf_items f) (root_child doc' ?k) = (v, r)" using v c by simp
  show "snd (tf_parse (bound f) doc out) = snd (tf_parse (bound f) doc' out) \<and>
      json_get (fst (tf_parse (bound f) doc out)) (tf_key (bound f)) =
        json_get (fst (tf_parse (bound f) doc' out')) (tf_key (bound f)) \<and>
      only_changes (tf_key (bound f)) doc (fst (tf_parse (bound f) doc out))"
    using s v v' k g only_changes_put [OF k(1), of doc]
    by (cases r; cases "bf_conv f v") (auto simp: bound_def BoundField_parseInto_def Let_def)
qed

lemma tf_local_unbound:
  assumes "list_all item_ok (fs_items fs)"
  shows "tf_local (unbound fs)"
  unfolding tf_local_def
proof (intro allI impI)
  fix doc doc' :: json and out out' :: 'a
  let ?k = "fs_key fs" and ?f = "unbound fs :: 'a tfield"
  assume "json_get doc (tf_key ?f) = json_get doc' (tf_key ?f)"
  then have c: "root_child doc' ?k = root_child doc ?k" by (simp add: unbound_def root_child_def)
  obtain v r where v: "runProcessors (fs_items fs) (root_child doc ?k) = (v, r)" by fastforce
  have k: "fv_key v = ?k" "json_get (root_put doc v) ?k = fv_value v" "json_get (root_put doc' v) ?k = fv_value v"
    using json_get_root_put [OF assms v] json_get_root_put(2) [OF assms, of doc' ?k v r] v c by simp_all
  show "snd (tf_parse ?f doc out) = snd (tf_parse ?f doc' out) \<and>
      json_get (fst (tf_parse ?f doc out)) (tf_key ?f) = json_get (fst (tf_parse ?f doc' out')) (tf_key ?f) \<and>
      only_changes (tf_key ?f) doc (fst (tf_parse ?f doc out))"
    using v k c only_changes_put [OF k(1), of doc] by (simp add: unbound_def FieldSpec_process_def)
qed

lemma tf_local_decl: "declared_ok d \<Longrightarrow> tf_local (decl_field d)"
  by (cases d) (simp_all add: declared_ok_def decl_field_def tf_local_bound tf_local_unbound)

lemma find_distinct: "distinct (map key xs) \<Longrightarrow> f \<in> set xs \<Longrightarrow> find (\<lambda>g. key g = key f) xs = Some f"
  by (induction xs) auto

lemma find_effective: "find (\<lambda>f. tf_key f = k) (effective tf_key sp) = last_def tf_key sp k"
proof (cases "k \<in> tf_key ` set sp")
  case True
  obtain f where f: "last_def tf_key sp k = Some f" "tf_key f = k" using last_def_Some [OF True] by blast
  have "f \<in> set (effective tf_key sp)"
    using True f(1) by (force simp: effective_def)
  from find_distinct [OF distinct_effective this] f show ?thesis by simp
next
  case False
  then have "last_def tf_key sp k = None" by (auto simp: last_def_def find_None_iff)
  moreover have "find (\<lambda>f. tf_key f = k) (effective tf_key sp) = None"
    using False set_effective [of tf_key sp] by (auto simp: find_None_iff)
  ultimately show ?thesis by simp
qed

lemma parse_fields_judge:
  assumes "list_all tf_local fs" and "distinct (map tf_key fs)" and "same_keys doc0 doc"
    and "\<forall>f \<in> set fs. json_get doc (tf_key f) = json_get doc0 (tf_key f)"
  shows "(case parse_fields fs doc out of (doc', out', r) \<Rightarrow>
      omap (\<lambda>_. out') r = judge_fields fs doc0 out \<and>
      (r = Ret () \<longrightarrow> (\<forall>k. json_get doc' k = (case find (\<lambda>f. tf_key f = k) fs of
         Some f \<Rightarrow> json_get (fst (tf_parse f doc0 init)) k | None \<Rightarrow> json_get doc k))))"
  using assms
proof (induction fs arbitrary: doc out)
  case (Cons f fs)
  obtain d o' r where p: "tf_parse f doc out = (d, o', r)" by (cases "tf_parse f doc out") auto
  obtain d0 where p0: "tf_parse f doc0 out = (d0, o', r)"
    and d0: "json_get d (tf_key f) = json_get (fst (tf_parse f doc0 init)) (tf_key f)"
    and ch: "only_changes (tf_key f) doc d"
  proof -
    have loc: "tf_local f" and g: "json_get doc (tf_key f) = json_get doc0 (tf_key f)" and "same_keys doc doc0"
      using Cons.prems by (auto simp: same_keys_def)
    then show ?thesis
      using p that unfolding tf_local_def by (metis fst_conv prod.collapse snd_conv)
  qed
  show ?case
  proof (cases "r = Ret ()")
    case False
    then show ?thesis using p p0 by (cases r) auto
  next
    case True
    have "same_keys doc0 d" using Cons.prems(3) ch by (auto simp: only_changes_def intro: same_keys_trans)
    moreover have "\<forall>g \<in> set fs. json_get d (tf_key g) = json_get doc0 (tf_key g)"
    proof
      fix g assume g: "g \<in> set fs"
      then have "tf_key g \<noteq> tf_key f" using Cons.prems(2) by (auto simp: image_iff)
      then have "json_get d (tf_key g) = json_get doc (tf_key g)" using ch by (simp add: only_changes_def)
      with Cons.prems(4) g show "json_get d (tf_key g) = json_get doc0 (tf_key g)" by simp
    qed
    ultimately have IH: "case parse_fields fs d o' of (doc', out', r) \<Rightarrow>
        omap (\<lambda>_. out') r = judge_fields fs doc0 o' \<and>
        (r = Ret () \<longrightarrow> (\<forall>k. json_get doc' k = (case find (\<lambda>f. tf_key f = k) fs of
           Some f \<Rightarrow> json_get (fst (tf_parse f doc0 init)) k | None \<Rightarrow> json_get d k)))"
      using Cons.prems by (intro Cons.IH) auto
    obtain doc' out' r' where q: "parse_fields fs d o' = (doc', out', r')" by (cases "parse_fields fs d o'") auto
    have none: "find (\<lambda>g. tf_key g = tf_key f) fs = None"
      using Cons.prems(2) by (auto simp: find_None_iff image_iff)
    have "json_get doc' k = (case find (\<lambda>f. tf_key f = k) (f # fs) of
        Some f \<Rightarrow> json_get (fst (tf_parse f doc0 init)) k | None \<Rightarrow> json_get doc k)" if "r' = Ret ()" for k
    proof (cases "k = tf_key f")
      case True
      then show ?thesis using IH q that none d0 by simp
    next
      case False
      then have "json_get d k = json_get doc k" using ch by (simp add: only_changes_def)
      then show ?thesis using IH q that False by (auto split: option.splits)
    qed
    then show ?thesis using IH True p p0 q by simp
  qed
qed simp

section \<open>Counting members\<close>

lemma sum_first_occurrences:
  "sum_list (map (\<lambda>i. if xs ! i \<noteq> None \<and> \<not> list_ex (\<lambda>j. xs ! i = xs ! j) [0..<i] then 1 else 0)
     [0..<length xs]) = card {m. Some m \<in> set xs}"
proof (induction xs rule: rev_induct)
  case (snoc x xs)
  let ?g = "\<lambda>ys i. if ys ! i \<noteq> None \<and> \<not> list_ex (\<lambda>j. ys ! i = ys ! j) [0..<i] then 1 else (0::nat)"
  have fin: "finite {m. Some m \<in> set xs}"
    by (rule finite_subset [of _ "the ` set xs"]) (auto simp: image_iff, force)
  have pre: "map (?g (xs @ [x])) [0..<length xs] = map (?g xs) [0..<length xs]"
    by (intro map_cong) (auto simp: list_ex_iff nth_append)
  have last: "?g (xs @ [x]) (length xs) = (if x \<noteq> None \<and> x \<notin> set xs then 1 else 0)"
  proof -
    have "list_ex (\<lambda>j. (xs @ [x]) ! length xs = (xs @ [x]) ! j) [0..<length xs] \<longleftrightarrow>
        (\<exists>j < length xs. xs ! j = x)"
      by (auto simp: list_ex_iff nth_append)
    then show ?thesis by (auto simp: in_set_conv_nth)
  qed
  have "[0..<length (xs @ [x])] = [0..<length xs] @ [length xs]" by simp
  then have sum: "sum_list (map (?g (xs @ [x])) [0..<length (xs @ [x])]) =
      card {m. Some m \<in> set xs} + (if x \<noteq> None \<and> x \<notin> set xs then 1 else 0)"
    by (simp only: map_append pre last list.map sum_list.append sum_list_simps snoc.IH add_0_right)
  show ?case
    unfolding sum
  proof (cases "x \<noteq> None \<and> x \<notin> set xs")
    case True
    then obtain m where m: "x = Some m" "Some m \<notin> set xs" by auto
    then have "{m. Some m \<in> set (xs @ [x])} = insert m {m. Some m \<in> set xs}" by auto
    with m fin True show "card {m. Some m \<in> set xs} + (if x \<noteq> None \<and> x \<notin> set xs then 1 else 0) =
        card {m. Some m \<in> set (xs @ [x])}" by simp
  next
    case False
    then have "{m. Some m \<in> set (xs @ [x])} = {m. Some m \<in> set xs}" by auto
    with False show "card {m. Some m \<in> set xs} + (if x \<noteq> None \<and> x \<notin> set xs then 1 else 0) =
        card {m. Some m \<in> set (xs @ [x])}" by auto
  qed
qed simp

lemma distinctBoundMemberCount_card:
  "distinctBoundMemberCount sp = card {m. Some m \<in> tf_member ` set sp}"
proof -
  have "distinctBoundMemberCount sp =
      sum_list (map (\<lambda>i. if map tf_member sp ! i \<noteq> None \<and>
          \<not> list_ex (\<lambda>j. map tf_member sp ! i = map tf_member sp ! j) [0..<i] then 1 else 0)
        [0..<length (map tf_member sp)])"
    unfolding distinctBoundMemberCount_def bindsEarlierMember_def
    by (intro arg_cong [where f = sum_list] map_cong) (auto simp: list_ex_iff)
  then show ?thesis unfolding sum_first_occurrences by simp
qed

section \<open>Properties\<close>

text \<open>
  C2: parsing a typed spec runs the last field declared for each key, in the order of the keys'
  first appearance, each on the document and the Input the previous ones left, and returns the
  Input only when all succeed; the warnings come from the same fields in the same order.
\<close>

theorem TypedSpec_last_wins:
  "TypedSpec_parse init sp doc =
     (case parse_fields (effective tf_key sp) doc init of
       (doc', out, result) \<Rightarrow> (doc', omap (\<lambda>_. out) result)) \<and>
   TypedSpec_check sp doc = concat (map (\<lambda>f. tf_check f doc) (effective tf_key sp))"
  by (simp add: TypedSpec_parse_fields TypedSpec_check_def forEachEffectiveField_list
      visit_list_tcheck)

text \<open>A one-member Input for evaluating the properties: an optional string.\<close>

definition sample_field :: "(string option, string) bound_field" where
  "sample_field = \<lparr>bf_key = ''type'', bf_member = 0, bf_assign = (\<lambda>s _. Some s),
     bf_conv = (\<lambda>v. if isString v then asString v else Fail invalidParams),
     bf_items = [default_item ''all'']\<rparr>"

lemma sample_field_safe: "tfield_safe (bound sample_field)"
  by (rule tfield_safe_bound)
    (auto simp: bound_field_safe_def sample_field_def dest: asString_isString)

text \<open>
  C1: every declared field judges the request as the client sent it. Although the fields share one
  document and rewrite it as they go, a typed spec of bound and validate-only fields returns what
  its effective fields say one after the other, each on the original request: the error of the
  first that fails, in the order in which the keys are first declared, or the Input they fill.
  When it succeeds, the document holds under each declared key what the last field of that key
  alone would have left there, and every other key is untouched.
\<close>

theorem TypedSpec_judges_request:
  fixes ds :: "('i, 'm) declared list"
  assumes "list_all declared_ok ds"
  shows "snd (TypedSpec_parse init (map decl_field ds) doc) =
      judge_fields (effective tf_key (map decl_field ds)) doc init \<and>
    (succeeds (snd (TypedSpec_parse init (map decl_field ds) doc)) \<longrightarrow>
      (\<forall>k. json_get (fst (TypedSpec_parse init (map decl_field ds) doc)) k =
        (case last_def tf_key (map decl_field ds) k of
           Some f \<Rightarrow> json_get (fst (tf_parse f doc init)) k
         | None \<Rightarrow> json_get doc k)))"
proof -
  let ?sp = "map decl_field ds"
  obtain doc' out' r where p: "parse_fields (effective tf_key ?sp) doc init = (doc', out', r)"
    by (cases "parse_fields (effective tf_key ?sp) doc init")
  have "list_all tf_local ?sp" using assms by (auto simp: list_all_iff tf_local_decl)
  from parse_fields_judge [OF list_all_effective [OF this] distinct_effective same_keys_refl, of doc init]
  have j: "omap (\<lambda>_. out') r = judge_fields (effective tf_key ?sp) doc init"
    "r = Ret () \<Longrightarrow> json_get doc' k = (case find (\<lambda>f. tf_key f = k) (effective tf_key ?sp) of
       Some f \<Rightarrow> json_get (fst (tf_parse f doc init)) k | None \<Rightarrow> json_get doc k)" for k
    using p by simp_all
  from p j(2) show ?thesis
    by (cases r) (simp_all add: TypedSpec_parse_fields find_effective j(1) [symmetric])
qed

text \<open>
  Two fields of one key and a validate-only one: the second definition of \<open>type\<close> reads the value,
  whatever the first would have done with it.
\<close>

theorem TypedSpec_judges_request_witness:
  "snd (TypedSpec_parse None
     (map decl_field [Inl (sample_field\<lparr>bf_items := [requirement_item (\<lambda>v. Fail invalidParams)]\<rparr>),
        Inr (field ''x'' []), Inl sample_field])
     (JObject [(''x'', JNull), (''type'', JString ''hash'')])) = Ret (Some ''hash'')"
proof -
  let ?f = "sample_field\<lparr>bf_items := [requirement_item (\<lambda>v. Fail invalidParams)]\<rparr>"
  let ?ds = "[Inl ?f, Inr (field ''x'' []), Inl sample_field] :: (string option, string) declared list"
  let ?doc = "JObject [(''x'', JNull), (''type'', JString ''hash'')]"
  have "presence_guarded (bf_items ?f)" "presence_guarded (bf_items sample_field)"
    by (simp_all add: sample_field_def default_item_def requirement_item_def no_item_def)
  moreover have "list_all item_ok (bf_items ?f)" "list_all item_ok (bf_items sample_field)"
    by (simp_all add: sample_field_def item_ok_def processor_def)
  ultimately have "list_all declared_ok ?ds"
    by (simp add: declared_ok_def field_def)
  moreover have "judge_fields (effective tf_key (map decl_field ?ds)) ?doc None = Ret (Some ''hash'')"
    by (simp add: effective_def first_keys_def last_def_def decl_field_def bound_def unbound_def
        sample_field_def field_def BoundField_parseInto_def FieldSpec_process_def root_child_def
        root_put_def json_get_def json_put_def present_def isString_def asString_def default_item_def
        no_item_def Let_def callIfProcessor_def)
  ultimately show ?thesis using TypedSpec_judges_request by metis
qed

text \<open>
  C3: a bound field that succeeds did one of three things: it was guarded out and touched nothing;
  its key was absent, the document is unchanged and the member got the field's default, if it
  declares one; or the key was present and the member got the converter's value of the rewritten
  field, which is also what the document now holds.
\<close>

theorem BoundField_outcomes:
  assumes "list_all item_ok (bf_items f)"
    and "BoundField_parseInto f doc out = (doc', out', Ret ())"
  shows "(skipsField (bf_items f) doc \<and> doc' = doc \<and> out' = out) \<or>
    (\<not> skipsField (bf_items f) doc \<and> json_get doc (bf_key f) = None \<and> doc' = doc \<and>
       out' = fold (applyIfDefault f) (bf_items f) out) \<or>
    (\<exists>v m. \<not> skipsField (bf_items f) doc \<and>
       runProcessors (bf_items f) (root_child doc (bf_key f)) = (v, Ret ()) \<and>
       present v \<and> bf_conv f v = Ret m \<and> out' = bf_assign f m out \<and>
       json_get doc' (bf_key f) = fv_value v)"
proof (cases "skipsField (bf_items f) doc")
  case True
  with assms(2) show ?thesis by (simp add: BoundField_parseInto_def)
next
  case False
  have p: "processor (runProcessors (bf_items f))" by (rule processor_runProcessors) fact
  obtain v r where e: "runProcessors (bf_items f) (root_child doc (bf_key f)) = (v, r)" by fastforce
  have k: "fv_key v = bf_key f"
    using processor.keeps_key [OF p, of "root_child doc (bf_key f)"] e by simp
  have pr: "present v \<longleftrightarrow> json_get doc (bf_key f) \<noteq> None"
    using processor.keeps_presence [OF p, of "root_child doc (bf_key f)"] e
    by (simp add: present_def)
  have r: "r = Ret ()"
    using False assms(2) e by (cases r) (auto simp: BoundField_parseInto_def Let_def)
  show ?thesis
  proof (cases "present v")
    case True
    then obtain j where j: "fv_value v = Some j" by (auto simp: present_def)
    obtain m where m: "bf_conv f v = Ret m"
      using True False r assms(2) e
      by (cases "bf_conv f v") (auto simp: BoundField_parseInto_def Let_def)
    have "json_get (root_put doc v) (bf_key f) = Some j"
      using pr True j k json_get_put_same [of doc "bf_key f" j] by (simp add: root_put_def)
    with True False r m e j assms(2) show ?thesis
      by (auto simp: BoundField_parseInto_def Let_def)
  next
    case nv: False
    then have "fv_value v = None" by (simp add: present_def)
    then have "root_put doc v = doc" by (simp add: root_put_def)
    with nv pr False r e assms(2) show ?thesis
      by (auto simp: BoundField_parseInto_def Let_def)
  qed
qed

theorem BoundField_outcomes_witness:
  "BoundField_parseInto sample_field (JObject []) None = (JObject [], Some ''all'', Ret ())"
proof -
  have "list_all item_ok (bf_items sample_field)"
    by (simp add: sample_field_def)
  moreover obtain doc' out' where
    e: "BoundField_parseInto sample_field (JObject []) None = (doc', out', Ret ())"
    by (simp add: BoundField_parseInto_def sample_field_def default_item_def no_item_def json_get_def
        Let_def present_def callIfProcessor_def root_child_def applyIfDefault_def)
  ultimately have "(skipsField (bf_items sample_field) (JObject []) \<and> doc' = JObject [] \<and> out' = None) \<or>
    doc' = JObject [] \<and> out' = fold (applyIfDefault sample_field) (bf_items sample_field) None"
    using BoundField_outcomes [of sample_field "JObject []" None doc' out']
    by (auto simp: sample_field_def json_get_def default_item_def no_item_def callIfProcessor_def
        present_def root_child_def)
  with e show ?thesis
    by (auto simp: sample_field_def default_item_def no_item_def applyIfDefault_def)
qed

text \<open>
  A field guarded by \<^verbatim>\<open>ifAbsent(k)\<close>, wherever the guard stands among its items, yields entirely
  to a request that sends \<open>k\<close>: no processor or converter runs, the document and the Input are
  unchanged and no warning is produced.
\<close>

theorem IfAbsent_yields:
  assumes "ifAbsent k \<in> set (bf_items f)" and "json_get doc k \<noteq> None"
  shows "BoundField_parseInto f doc out = (doc, out, Ret ()) \<and> BoundField_check f doc = []"
proof -
  have "skipsField (bf_items f) doc"
    unfolding skipsField_iff using assms
    by (intro bexI [of _ "ifAbsent k"])
      (auto simp: ifAbsent_def guard_item_def no_item_def IfAbsent_skips_def present_def)
  then show ?thesis by (simp add: BoundField_parseInto_def BoundField_check_def)
qed

theorem IfAbsent_yields_witness:
  "BoundField_parseInto (sample_field\<lparr>bf_items := [ifAbsent ''account'']\<rparr>)
     (JObject [(''account'', JNull), (''type'', JInt64 3)]) None =
   (JObject [(''account'', JNull), (''type'', JInt64 3)], None, Ret ())"
  using IfAbsent_yields [of "''account''" "sample_field\<lparr>bf_items := [ifAbsent ''account'']\<rparr>"
      "JObject [(''account'', JNull), (''type'', JInt64 3)]" None]
  by (simp add: json_get_def)

text \<open>
  The member count the constructor of a typed spec demands holds exactly when every member of
  the Input aggregate is bound by some declared field.
\<close>

theorem typed_spec_ok_iff_all_bound:
  assumes "\<And>f m. f \<in> set sp \<Longrightarrow> tf_member f = Some m \<Longrightarrow> m < n"
  shows "typed_spec_ok n sp \<longleftrightarrow> (\<forall>m < n. \<exists>f \<in> set sp. tf_member f = Some m)"
proof -
  let ?M = "{m. Some m \<in> tf_member ` set sp}"
  have sub: "?M \<subseteq> {..<n}" using assms by (auto simp: image_iff)
  have "card ?M = n \<longleftrightarrow> ?M = {..<n}"
    using sub by (metis card_lessThan card_subset_eq finite_lessThan)
  moreover have "?M = {..<n} \<longleftrightarrow> (\<forall>m < n. \<exists>f \<in> set sp. tf_member f = Some m)"
  proof -
    have "?M = {..<n} \<longleftrightarrow> (\<forall>m < n. m \<in> ?M)" using sub by blast
    moreover have "m \<in> ?M \<longleftrightarrow> (\<exists>f \<in> set sp. tf_member f = Some m)" for m
      by (simp add: image_iff eq_commute [of "Some m"])
    ultimately show ?thesis by simp
  qed
  ultimately show ?thesis
    by (simp add: typed_spec_ok_def distinctBoundMemberCount_card)
qed

theorem typed_spec_ok_iff_all_bound_witness:
  "typed_spec_ok 1 [bound sample_field]"
  using typed_spec_ok_iff_all_bound [of "[bound sample_field]" 1]
  by (simp add: bound_def sample_field_def)

text \<open>
  C6: the count is over the declared fields and not over the effective ones: overriding a bound
  field with a validate-only field of the same key passes the check, and the member it bound is
  then written by no field that runs.
\<close>

theorem override_can_unbind:
  "typed_spec_ok 1 (textend [bound f0] [unbound (field ''type'' its)]) \<and>
   (\<forall>f \<in> set (effective tf_key (textend [bound f0] [unbound (field ''type'' its)])).
      tf_member f = None)"
  if "bf_key f0 = ''type''" "bf_member f0 = 0" for f0 :: "('i, 'm) bound_field"
proof -
  have c: "{m. m = (0::nat)} = {0}" by auto
  show ?thesis
    using that c
    by (simp add: textend_def typed_spec_ok_def distinctBoundMemberCount_card bound_def unbound_def
        field_def effective_def first_keys_def last_def_def)
qed

theorem override_can_unbind_witness:
  "typed_spec_ok 1 (textend [bound sample_field] [unbound (field ''type'' [])])"
  using override_can_unbind [of sample_field "[]"] by (simp add: sample_field_def)

end
