(* ===== verification/RpcScalars.thy ===== *)
theory RpcScalars
  imports RpcValidators
begin

text \<open>
  The other library-independent items of \<^verbatim>\<open>include/rpcspec/Validators.hpp\<close>: array lengths, the
  unsupported and deprecated markers, string sets, the ledger index, the modifiers that rewrite a
  string to a number or to lower case, \<^verbatim>\<open>ClampAs\<close>, \<^verbatim>\<open>NullAs\<close> and the wrappers of user functions.
\<close>

section \<open>Array lengths\<close>

definition MinArrayLength_verify :: "nat \<Rightarrow> requirement" where
  "MinArrayLength_verify bound v =
     (if present v \<and> isArray v \<and> arraySize v < bound then Fail invalidParams else Ret ())"

definition MaxArrayLength_verify :: "nat \<Rightarrow> requirement" where
  "MaxArrayLength_verify bound v =
     (if present v \<and> isArray v \<and> bound < arraySize v then Fail invalidParams else Ret ())"

interpretation min_array: optional_validator "MinArrayLength_verify b"
  "\<lambda>v. isArray v \<longrightarrow> b \<le> arraySize v" "\<lambda>v. invalidParams" for b
  by unfold_locales (auto simp: MinArrayLength_verify_def)

interpretation max_array: optional_validator "MaxArrayLength_verify b"
  "\<lambda>v. isArray v \<longrightarrow> arraySize v \<le> b" "\<lambda>v. invalidParams" for b
  by unfold_locales (auto simp: MaxArrayLength_verify_def)

section \<open>Unsupported and deprecated fields\<close>

definition NotSupported_verify :: requirement where
  "NotSupported_verify v =
     (if present v
      then Fail (status_msg (XrpldErr RpcNotSupported)
             (''Not supported field '' @ [CHR 0x27] @ fv_key v @ [CHR 0x27]))
      else Ret ())"

definition bool_text :: "bool \<Rightarrow> string" where
  "bool_text b = (if b then ''true'' else ''false'')"

definition NotSupportedIfEqual_verify :: "bool \<Rightarrow> requirement" where
  "NotSupportedIfEqual_verify value v =
     (if \<not> present v \<or> \<not> isBool v then Ret ()
      else obind (asBool v) (\<lambda>b.
        if b \<noteq> value then Ret ()
        else Fail (status_msg (XrpldErr RpcNotSupported)
               (''Not supported field '' @ [CHR 0x27] @ fv_key v @ [CHR 0x27] @ ''s value '' @
                [CHR 0x27] @ bool_text value @ [CHR 0x27]))))"

definition Deprecated_check :: "server \<Rightarrow> field_view \<Rightarrow> warning option" where
  "Deprecated_check srv v =
     (if present v
      then Some \<lparr>wn_code = WarnRpcDeprecated, wn_field = fv_key v,
                 wn_message =
                   (if kIsClioBuild srv
                    then ''Field '' @ [CHR 0x27] @ fv_key v @ [CHR 0x27] @ '' is deprecated.''
                    else ''Field '' @ [CHR 0x60] @ fv_key v @ [CHR 0x60] @ '' is deprecated.'')\<rparr>
      else None)"

interpretation not_supported: optional_validator NotSupported_verify "\<lambda>v. \<not> present v"
  "\<lambda>v. status_msg (XrpldErr RpcNotSupported)
         (''Not supported field '' @ [CHR 0x27] @ fv_key v @ [CHR 0x27])"
  by unfold_locales (auto simp: NotSupported_verify_def)

interpretation not_supported_if: optional_validator "NotSupportedIfEqual_verify b"
  "\<lambda>v. fv_value v \<noteq> Some (JBool b)"
  "\<lambda>v. status_msg (XrpldErr RpcNotSupported)
         (''Not supported field '' @ [CHR 0x27] @ fv_key v @ [CHR 0x27] @ ''s value '' @
          [CHR 0x27] @ bool_text b @ [CHR 0x27])" for b
  by unfold_locales
    (auto simp: NotSupportedIfEqual_verify_def present_def isBool_def asBool_def
      split: option.splits json.splits)

section \<open>String sets and the ledger index\<close>

definition OneOf_verify :: "string list \<Rightarrow> requirement" where
  "OneOf_verify values v =
     (if \<not> present v then Ret ()
      else if \<not> isString v then Fail invalidParams
      else obind (asString v) (\<lambda>s.
        if s \<in> set values then Ret () else Fail invalidParams))"

interpretation one_of: optional_validator "OneOf_verify vs"
  "\<lambda>v. \<not> present v \<or> (\<exists>s \<in> set vs. fv_value v = Some (JString s))" "\<lambda>v. invalidParams"
  for vs
  by unfold_locales
    (auto simp: OneOf_verify_def present_def isString_def asString_def
      split: option.splits json.splits)

definition checkIsU32Numeric :: "string \<Rightarrow> bool" where
  "checkIsU32Numeric sv =
     (case from_chars_unsigned (2 ^ 32 - 1) sv of (unused, ec, rest) \<Rightarrow> ec = NoError \<and> rest = [])"

lemma checkIsU32Numeric_iff:
  "checkIsU32Numeric s \<longleftrightarrow> all_digits s \<and> dec_value 0 s \<le> 2 ^ 32 - 1"
  using whole_match_unsigned [of "2 ^ 32 - 1" s]
  by (auto simp: checkIsU32Numeric_def whole_match_def split: prod.splits if_splits)

definition LedgerIndexValidator_verify :: "server \<Rightarrow> requirement" where
  "LedgerIndexValidator_verify srv v =
     (let unrecognised = Fail (status_msg (XrpldErr RpcInvalidParams) (malformedLedgerIndexMessage srv))
      in if \<not> present v then Ret ()
         else if isInt64 v \<or> isUint32 v then Ret ()
         else if \<not> isString v then
           (if kIsClioBuild srv then unrecognised else Fail invalidParams)
         else obind (asString v) (\<lambda>sv.
           if sv = ''validated'' \<or> checkIsU32Numeric sv then Ret ()
           else if kIsXrpldBuild srv \<and> (sv = ''closed'' \<or> sv = ''current'') then Ret ()
           else unrecognised))"

text \<open>The texts and numbers a \<open>ledger_index\<close> may hold, per server.\<close>

definition ledger_index_text :: "server \<Rightarrow> string \<Rightarrow> bool" where
  "ledger_index_text srv s =
     (s = ''validated'' \<or> (all_digits s \<and> dec_value 0 s \<le> 2 ^ 32 - 1) \<or>
      srv = Xrpld \<and> (s = ''closed'' \<or> s = ''current''))"

definition ledger_index_value :: "server \<Rightarrow> field_view \<Rightarrow> bool" where
  "ledger_index_value srv v =
     (isInt64 v \<or> isUint32 v \<or> (\<exists>s. fv_value v = Some (JString s) \<and> ledger_index_text srv s))"

interpretation ledger_index: optional_validator "LedgerIndexValidator_verify srv"
  "\<lambda>v. \<not> present v \<or> ledger_index_value srv v"
  "\<lambda>v. if srv = Clio \<or> isString v
       then status_msg (XrpldErr RpcInvalidParams) (malformedLedgerIndexMessage srv)
       else invalidParams" for srv
proof
  fix v
  show "LedgerIndexValidator_verify srv v =
      (if \<not> present v \<or> ledger_index_value srv v then Ret ()
       else Fail (if srv = Clio \<or> isString v
         then status_msg (XrpldErr RpcInvalidParams) (malformedLedgerIndexMessage srv)
         else invalidParams))"
  proof (cases "isString v")
    case True
    then obtain s where s: "fv_value v = Some (JString s)" by (auto simp: isString_value)
    then have "present v" "\<not> isInt64 v" "\<not> isUint32 v"
      by (simp_all add: present_def isInt64_def isUint32_def)
    then show ?thesis
      using True s by (cases srv)
        (auto simp: LedgerIndexValidator_verify_def ledger_index_value_def ledger_index_text_def
          checkIsU32Numeric_iff Let_def)
  next
    case False
    then show ?thesis
      by (auto simp: LedgerIndexValidator_verify_def ledger_index_value_def isString_value Let_def)
  qed
qed simp

section \<open>Strings to numbers and to lower case\<close>

definition ToNumber_modify :: modifier where
  "ToNumber_modify v =
     (if \<not> present v \<or> \<not> isString v then (v, Ret ())
      else sbind (v, asString v) (\<lambda>sv v.
        if CHR ''.'' \<in> set sv then (v, Fail invalidParams)
        else (case from_chars_int64 sv of (val, ec, rest) \<Rightarrow>
          if ec \<noteq> NoError \<or> rest \<noteq> [] then (v, Fail invalidParams)
          else if val < 0 \<or> 2 ^ 32 - 1 < val then (v, Fail invalidParams)
          else set_int64 (word_of_int val) v)))"

definition lexicalUint32 :: "string \<Rightarrow> uint32 option" where
  "lexicalUint32 sv =
     (let sv' = (if starts_with CHR ''+'' sv then drop 1 sv else sv)
      in case from_chars_unsigned (2 ^ 32 - 1) sv' of (val, ec, rest) \<Rightarrow>
           if ec \<noteq> NoError \<or> rest \<noteq> [] then None else Some (word_of_nat val))"

definition LexicalUint32_modify :: modifier where
  "LexicalUint32_modify v =
     (if \<not> present v \<or> \<not> isString v then (v, Ret ())
      else sbind (v, asString v) (\<lambda>sv v.
        case lexicalUint32 sv of
          None \<Rightarrow> (v, Fail invalidParams)
        | Some val \<Rightarrow> set_uint32 val v))"

definition ToLower_modify :: modifier where
  "ToLower_modify v =
     (if \<not> present v \<or> \<not> isString v then (v, Ret ())
      else sbind (v, asString v) (\<lambda>sv v. set_string (lower_string sv) v))"

text \<open>
  The three rewrite a present string by a partial function of its text and leave everything else
  alone; \<open>string_rewrite\<close> is that shape, and its contract is proved once.
\<close>

definition string_rewrite :: "(string \<Rightarrow> json option) \<Rightarrow> modifier" where
  "string_rewrite f v =
     (case fv_value v of
        Some (JString s) \<Rightarrow>
          (case f s of None \<Rightarrow> (v, Fail invalidParams) | Some j \<Rightarrow> set_value j v)
      | _ \<Rightarrow> (v, Ret ()))"

lemma optional_modifier_string_rewrite: "optional_modifier (string_rewrite f)"
  by unfold_locales
    (auto simp: string_rewrite_def present_def set_value_def split: option.split json.split)

definition to_number_json :: "string \<Rightarrow> json option" where
  "to_number_json s =
     (if all_digits s \<and> dec_value 0 s < 2 ^ 32 then Some (JInt64 (word_of_nat (dec_value 0 s)))
      else if starts_with CHR ''-'' s \<and> all_digits (tl s) \<and> dec_value 0 (tl s) = 0
        then Some (JInt64 0)
      else None)"

lemma dot_not_digits: "CHR ''.'' \<in> set s \<Longrightarrow> \<not> all_digits s"
proof
  assume "CHR ''.'' \<in> set s" "all_digits s"
  then have "is_digit CHR ''.''" unfolding all_digits_def list_all_iff by blast
  then show False by (simp add: is_digit_def)
qed

lemma dot_not_signed_digits:
  "CHR ''.'' \<in> set s \<Longrightarrow> starts_with CHR ''-'' s \<Longrightarrow> \<not> all_digits (tl s)"
  by (cases s) (auto simp: starts_with_def dest: dot_not_digits)

lemma ToNumber_rewrite: "ToNumber_modify = string_rewrite to_number_json"
proof
  fix v
  show "ToNumber_modify v = string_rewrite to_number_json v"
  proof (cases "isString v")
    case True
    then obtain s where s: "fv_value v = Some (JString s)" by (auto simp: isString_value)
    have nd: "CHR ''.'' \<in> set s \<Longrightarrow> to_number_json s = None"
      using dot_not_digits [of s] dot_not_signed_digits [of s] by (auto simp: to_number_json_def)
    obtain n ec rest where fc: "from_chars_int64 s = (n, ec, rest)" by (cases "from_chars_int64 s")
    have "(case from_chars_int64 s of (val, ec, rest) \<Rightarrow>
          if ec \<noteq> NoError \<or> rest \<noteq> [] then (v, Fail invalidParams)
          else if val < 0 \<or> 2 ^ 32 - 1 < val then (v, Fail invalidParams)
          else set_int64 (word_of_int val) v) =
        (case to_number_json s of None \<Rightarrow> (v, Fail invalidParams) | Some j \<Rightarrow> set_value j v)"
      using whole_match_int64 [of s] starts_with_minus_not_digits [of s] fc
      by (auto simp: whole_match_def to_number_json_def set_int64_def split: if_splits)
    with True s nd show ?thesis
      by (auto simp: ToNumber_modify_def string_rewrite_def)
  next
    case False
    then show ?thesis
      by (auto simp: ToNumber_modify_def string_rewrite_def isString_value
          split: option.split json.split)
  qed
qed

lemma lexicalUint32_eq:
  "lexicalUint32 s =
     (let t = (if starts_with CHR ''+'' s then tl s else s)
      in if all_digits t \<and> dec_value 0 t < 2 ^ 32 then Some (word_of_nat (dec_value 0 t)) else None)"
  using whole_match_unsigned [of "2 ^ 32 - 1" s] whole_match_unsigned [of "2 ^ 32 - 1" "tl s"]
  by (auto simp: lexicalUint32_def whole_match_def drop_Suc split: prod.splits if_splits)

lemma LexicalUint32_rewrite:
  "LexicalUint32_modify = string_rewrite (\<lambda>s. map_option (\<lambda>u. JUint64 (ucast u)) (lexicalUint32 s))"
  by (auto simp: fun_eq_iff LexicalUint32_modify_def string_rewrite_def isString_def asString_def
      present_def set_uint32_def split: option.split json.split)

lemma ToLower_rewrite: "ToLower_modify = string_rewrite (\<lambda>s. Some (JString (lower_string s)))"
  by (auto simp: fun_eq_iff ToLower_modify_def string_rewrite_def isString_def asString_def
      present_def set_string_def split: option.split json.split)

interpretation to_number: optional_modifier ToNumber_modify
  unfolding ToNumber_rewrite by (rule optional_modifier_string_rewrite)

interpretation lexical_uint32: optional_modifier LexicalUint32_modify
  unfolding LexicalUint32_rewrite by (rule optional_modifier_string_rewrite)

interpretation to_lower: optional_modifier ToLower_modify
  unfolding ToLower_rewrite by (rule optional_modifier_string_rewrite)

section \<open>Narrowing, null replacement and user functions\<close>

text \<open>The integral types \<^verbatim>\<open>ClampAs\<close> can target, with \<^verbatim>\<open>std::numeric_limits\<close>.\<close>

datatype integral = I8 | I16 | I32 | I64 | U8 | U16 | U32 | U64

primrec is_unsigned :: "integral \<Rightarrow> bool" where
  "is_unsigned I8 = False" | "is_unsigned I16 = False"
| "is_unsigned I32 = False" | "is_unsigned I64 = False"
| "is_unsigned U8 = True" | "is_unsigned U16 = True"
| "is_unsigned U32 = True" | "is_unsigned U64 = True"

primrec limits_max :: "integral \<Rightarrow> int" where
  "limits_max I8 = 2 ^ 7 - 1" | "limits_max I16 = 2 ^ 15 - 1"
| "limits_max I32 = 2 ^ 31 - 1" | "limits_max I64 = 2 ^ 63 - 1"
| "limits_max U8 = 2 ^ 8 - 1" | "limits_max U16 = 2 ^ 16 - 1"
| "limits_max U32 = 2 ^ 32 - 1" | "limits_max U64 = 2 ^ 64 - 1"

primrec limits_min :: "integral \<Rightarrow> int" where
  "limits_min I8 = - (2 ^ 7)" | "limits_min I16 = - (2 ^ 15)"
| "limits_min I32 = - (2 ^ 31)" | "limits_min I64 = - (2 ^ 63)"
| "limits_min U8 = 0" | "limits_min U16 = 0"
| "limits_min U32 = 0" | "limits_min U64 = 0"

definition clamp_int64 :: "int64 \<Rightarrow> int64 \<Rightarrow> int64 \<Rightarrow> int64" where
  "clamp_int64 x lo hi = (if sint x < sint lo then lo else if sint hi < sint x then hi else x)"

definition min_int64 :: "int64 \<Rightarrow> int64 \<Rightarrow> int64" where
  "min_int64 a b = (if sint b < sint a then b else a)"

definition ClampAs_modify :: "integral \<Rightarrow> modifier" where
  "ClampAs_modify target v =
     (let kHi = word_of_int (limits_max target) :: int64;
          kLo = word_of_int (limits_min target) :: int64
      in if \<not> present v then (v, Ret ())
         else if isInt64 v then
           sbind (v, asInt64 v) (\<lambda>x v.
             let value = clamp_int64 x kLo kHi
             in if is_unsigned target
                then set_uint32 (ucast (if sint value < 0 then 0 else value)) v
                else set_int64 value v)
         else if isUint32 v then
           sbind (v, asUint32 v) (\<lambda>u v.
             if is_unsigned target then set_uint32 (ucast (min_int64 (ucast u) kHi)) v
             else set_int64 (min_int64 (ucast u) kHi) v)
         else (v, Ret ()))"

text \<open>The values a view can be set to.\<close>

datatype scalar = SInt64 int64 | SUint32 uint32 | SBool bool | SDouble real | SString string

primrec set_scalar :: "scalar \<Rightarrow> field_view \<Rightarrow> field_view \<times> unit parsed" where
  "set_scalar (SInt64 i) v = set_int64 i v"
| "set_scalar (SUint32 u) v = set_uint32 u v"
| "set_scalar (SBool b) v = set_bool b v"
| "set_scalar (SDouble d) v = set_double d v"
| "set_scalar (SString s) v = set_string s v"

definition NullAs_modify :: "scalar \<Rightarrow> modifier" where
  "NullAs_modify value v = (if isNull v then set_scalar value v else (v, Ret ()))"

definition CustomValidator_verify :: "requirement \<Rightarrow> requirement" where
  "CustomValidator_verify fn v = (if \<not> present v then Ret () else fn v)"

definition CustomModifier_modify :: "modifier \<Rightarrow> modifier" where
  "CustomModifier_modify fn v = (if \<not> present v then (v, Ret ()) else fn v)"

text \<open>
  Every 32-bit unsigned value is also an \<^verbatim>\<open>int64\<close>, so only the first branch ever writes, and
  what it writes is an integer.
\<close>

lemma isUint32_isInt64: "isUint32 v \<Longrightarrow> isInt64 v"
  by (auto simp: isUint32_def isInt64_def split: option.splits json.splits)

lemma ClampAs_writes: "isInt64 v \<Longrightarrow> \<exists>j. ClampAs_modify t v = set_value j v"
  using asInt64_isInt64 [of v]
  by (cases "is_unsigned t") (auto simp: ClampAs_modify_def Let_def set_int64_def set_uint32_def)

lemma ClampAs_skips: "\<not> isInt64 v \<Longrightarrow> ClampAs_modify t v = (v, Ret ())"
  using isUint32_isInt64 [of v] by (auto simp: ClampAs_modify_def Let_def)

interpretation clamp_as: optional_modifier "ClampAs_modify t" for t
proof
  fix v
  consider j where "isInt64 v" "ClampAs_modify t v = set_value j v"
    | "\<not> isInt64 v" "ClampAs_modify t v = (v, Ret ())"
    using ClampAs_writes ClampAs_skips by blast
  then show "fv_writable v \<Longrightarrow> \<not> throws (snd (ClampAs_modify t v))"
    "fv_key (fst (ClampAs_modify t v)) = fv_key v"
    "fv_writable (fst (ClampAs_modify t v)) = fv_writable v"
    "present (fst (ClampAs_modify t v)) = present v"
    by (cases; simp add: set_value_frame)+
qed (simp add: ClampAs_modify_def)

interpretation null_as: optional_modifier "NullAs_modify s" for s
  by unfold_locales (cases s;
    auto simp: NullAs_modify_def set_int64_def set_uint32_def set_bool_def set_double_def
      set_string_def set_value_frame)+

lemma optional_validator_custom:
  assumes "validator f a e"
  shows "optional_validator (CustomValidator_verify f) (\<lambda>v. \<not> present v \<or> a v) e"
  using assms by (auto simp: optional_validator_def optional_validator_axioms_def validator_def
      CustomValidator_verify_def)

lemma optional_modifier_custom:
  assumes "processor f"
  shows "optional_modifier (CustomModifier_modify f)"
  using assms by (auto simp: optional_modifier_def optional_modifier_axioms_def processor_def
      CustomModifier_modify_def)

section \<open>What the modifiers compute\<close>

lemma sint_limits:
  assumes "t \<noteq> U64"
  shows "sint (word_of_int (limits_max t) :: int64) = limits_max t"
    and "sint (word_of_int (limits_min t) :: int64) = limits_min t"
    and "limits_min t \<le> limits_max t"
  using assms by (cases t; simp add: signed_of_int)+

lemma sint_clamp_int64:
  assumes "t \<noteq> U64"
  shows "sint (clamp_int64 x (word_of_int (limits_min t)) (word_of_int (limits_max t))) =
    max (limits_min t) (min (limits_max t) (sint x))"
  using sint_limits [OF assms] by (auto simp: clamp_int64_def)

lemma uint_narrow:
  fixes x :: int64
  assumes "0 \<le> sint x" and "sint x < 2 ^ 32"
  shows "uint (ucast (ucast x :: uint32) :: uint64) = sint x"
proof -
  have u: "uint (ucast x :: uint32) = sint x"
    using assms by (simp add: uint_ucast_small uint_nonneg_sint)
  have "uint (ucast w :: uint64) = uint w" for w :: uint32
  proof -
    have "uint w < 2 ^ 64" using uint_lt2p [of w] by simp
    then show ?thesis by (simp add: unsigned_ucast_eq take_bit_int_eq_self)
  qed
  from this [of "ucast x"] u show ?thesis by (rule trans)
qed

lemma int_value_update:
  "int_value (v\<lparr>fv_value := Some (JUint64 u)\<rparr>) = Some (uint u)"
  "int_value (v\<lparr>fv_value := Some (JInt64 i)\<rparr>) = Some (sint i)"
  by (simp_all add: int_value_def)

lemma unat_le_int64: "unat (u :: uint64) \<le> 2 ^ 63 - 1 \<longleftrightarrow> uint u < 2 ^ 63"
proof -
  have "m \<le> 2 ^ 63 - 1 \<longleftrightarrow> int m < 2 ^ 63" for m :: nat by auto
  from this [of "unat u"] show ?thesis by (simp only: uint_nat)
qed

lemma isInt64_range:
  assumes "int_value v = Some n"
  shows "isInt64 v \<longleftrightarrow> n < 2 ^ 63"
proof -
  obtain j where j: "fv_value v = Some j" using assms by (auto simp: int_value_def split: option.splits)
  have s: "sint (i :: int64) < 2 ^ 63" for i using sint_lt [of i] by simp
  show ?thesis
  proof (cases j)
    case (JInt64 i)
    then have "n = sint i" using assms j by (simp add: int_value_def)
    then show ?thesis using JInt64 j s [of i] by (simp only: isInt64_def option.case json.case)
  next
    case (JUint64 u)
    then have "n = uint u" using assms j by (simp add: int_value_def)
    then show ?thesis using JUint64 j unat_le_int64 [of u] by (simp only: isInt64_def option.case json.case)
  qed (use assms j in \<open>simp_all add: int_value_def\<close>)
qed

lemma ClampAs_value:
  assumes "t \<noteq> U64" and "isInt64 v" and "fv_writable v" and "int_value v = Some n"
  shows "snd (ClampAs_modify t v) = Ret ()"
    and "int_value (fst (ClampAs_modify t v)) = Some (max (limits_min t) (min (limits_max t) n))"
proof -
  obtain i where i: "asInt64 v = Ret i" "n = sint i"
    using asInt64_isInt64 [OF assms(2)] assms(4) by auto
  let ?c = "clamp_int64 i (word_of_int (limits_min t)) (word_of_int (limits_max t))"
  have p: "present v" using assms(2) by simp
  have c: "sint ?c = max (limits_min t) (min (limits_max t) n)"
    using sint_clamp_int64 [OF assms(1)] i by simp
  have u: "is_unsigned t \<Longrightarrow> 0 \<le> sint ?c \<and> sint ?c < 2 ^ 32"
    using c assms(1) by (cases t) auto
  then have f: "is_unsigned t \<Longrightarrow> \<not> sint ?c < 0"
    by (meson not_less)
  show "snd (ClampAs_modify t v) = Ret ()"
    using assms p i by (simp add: ClampAs_modify_def Let_def set_uint32_def set_int64_def)
  show "int_value (fst (ClampAs_modify t v)) = Some (max (limits_min t) (min (limits_max t) n))"
  proof (cases "is_unsigned t")
    case True
    with assms(3) p i assms(2) have
      "fst (ClampAs_modify t v) = v\<lparr>fv_value := Some (JUint64 (ucast (ucast ?c :: uint32)))\<rparr>"
      using f [OF True] by (simp add: ClampAs_modify_def Let_def set_uint32_def)
    moreover have "uint (ucast (ucast ?c :: uint32) :: uint64) = sint ?c"
      using u [OF True] by (intro uint_narrow) simp_all
    ultimately show ?thesis
      using c by (simp only: int_value_update)
  next
    case False
    with assms p i c show ?thesis
      by (simp add: ClampAs_modify_def Let_def set_int64_def int_value_def)
  qed
qed

lemma to_number_json_readable:
  assumes "to_number_json s = Some j"
  shows "\<exists>n < 2 ^ 32. j = JInt64 (word_of_nat n) \<and>
     n = dec_value 0 (if starts_with CHR ''-'' s then tl s else s)"
  using assms starts_with_minus_not_digits [of s]
  by (auto simp: to_number_json_def split: if_splits)

lemma sint_word_of_nat:
  assumes "n < 2 ^ 32"
  shows "sint (word_of_nat n :: int64) = int n" and "uint (word_of_nat n :: int64) = int n"
proof -
  have "int n < 2 ^ 32" using assms by (metis of_nat_less_iff of_nat_numeral of_nat_power)
  then have "int n < 2 ^ 63" "int n < 2 ^ 64" by simp_all
  then show "sint (word_of_nat n :: int64) = int n" "uint (word_of_nat n :: int64) = int n"
    by (simp_all add: signed_of_nat unsigned_of_nat signed_take_bit_int_eq_self
        take_bit_int_eq_self take_bit_nat_eq_self)
qed

lemma asUint32_JInt64_nat:
  assumes "fv_value v = Some (JInt64 (word_of_nat n))" and "n < 2 ^ 32"
  shows "isUint32 v" and "asUint32 v = Ret (word_of_nat n)"
proof -
  have "int n < 2 ^ 32" using assms(2) by (metis of_nat_less_iff of_nat_numeral of_nat_power)
  with assms(1) sint_word_of_nat(1) [OF assms(2)] show "isUint32 v"
    by (simp add: isUint32_def)
  have u: "uint (word_of_nat n :: uint64) = int n"
    by (rule sint_word_of_nat(2)) fact
  have "uint (ucast (word_of_nat n :: int64) :: uint32) = int n"
    using uint_ucast_small [of "word_of_nat n"] \<open>int n < 2 ^ 32\<close> unfolding u by simp
  moreover have "uint (word_of_nat n :: uint32) = int n"
    using \<open>int n < 2 ^ 32\<close> by (simp add: unsigned_of_nat take_bit_nat_eq_self assms(2))
  ultimately have "(ucast (word_of_nat n :: int64) :: uint32) = word_of_nat n"
    by (simp only: word_uint_eq_iff)
  with assms(1) show "asUint32 v = Ret (word_of_nat n)"
    by (simp add: asUint32_def)
qed

section \<open>Properties\<close>

text \<open>
  A clamp succeeds, and leaves a number of the bound's type whose value is the old one moved
  to the nearest point of [lo, hi]; the range check of the same bounds then accepts the field.
\<close>

theorem Clamp_into_range:
  assumes "num_type hi = num_type lo" and "num_real lo \<le> num_real hi"
    and "fv_writable v" and "number_of (num_type lo) v = Some x"
  shows "\<exists>y v'. Clamp_modify lo hi v = (v', Ret ()) \<and> number_of (num_type lo) v' = Some y \<and>
    num_real y = max (num_real lo) (min (num_real hi) (num_real x)) \<and>
    Between_verify lo hi v' = Ret ()"
proof -
  let ?y = "std_clamp x lo hi"
  have t: "num_type x = num_type lo" by (rule number_of_type) (rule assms(4))
  note c = std_clamp_real [OF t assms(1,2)]
  obtain j where j: "set_num ?y v = (v\<lparr>fv_value := Some j\<rparr>, Ret ())"
    using set_num_ok [OF assms(3) number_of_present [OF assms(4)]] by blast
  have n: "number_of (num_type lo) (v\<lparr>fv_value := Some j\<rparr>) = Some ?y"
    using number_of_set_num [OF assms(3) number_of_present [OF assms(4)], of ?y] j c(1) by simp
  moreover have "Clamp_modify lo hi v = (v\<lparr>fv_value := Some j\<rparr>, Ret ())"
    using assms(4) j by (simp add: Clamp_modify_def numericValue_eq)
  moreover have "Between_verify lo hi (v\<lparr>fv_value := Some j\<rparr>) = Ret ()"
    using n c assms(1,2) by (simp add: Between_verify_eq)
  ultimately show ?thesis using c(2) by blast
qed

theorem Clamp_into_range_witness:
  "\<exists>y v'. Clamp_modify (NUint32 10) (NUint32 400)
       \<lparr>fv_key = ''limit'', fv_value = Some (JInt64 7), fv_writable = True\<rparr> = (v', Ret ()) \<and>
    number_of TUint32 v' = Some y \<and> num_real y = 10 \<and>
    Between_verify (NUint32 10) (NUint32 400) v' = Ret ()"
proof -
  have n: "number_of (num_type (NUint32 10))
      \<lparr>fv_key = ''limit'', fv_value = Some (JInt64 7), fv_writable = True\<rparr> = Some (NUint32 7)"
    by (simp add: number_of_def numericValue_def isUint32_def asUint32_def present_def)
  show ?thesis
    using Clamp_into_range [OF _ _ _ n, of "NUint32 400"] by simp
qed

text \<open>
  C21: narrowing to a target other than \<^verbatim>\<open>uint64_t\<close> succeeds on every integer, whichever of the two
  JSON kinds holds it, and leaves an integer: below \<open>2 ^ 63\<close> the old one moved to the nearest value
  of the target type, and from there on the old one itself, which is then outside of every target.
\<close>

theorem ClampAs_narrows:
  assumes "t \<noteq> U64" and "fv_writable v" and "int_value v = Some n"
  shows "\<exists>v'. ClampAs_modify t v = (v', Ret ()) \<and>
    int_value v' = Some (if n < 2 ^ 63 then max (limits_min t) (min (limits_max t) n) else n)"
proof (cases "isInt64 v")
  case True
  then have "n < 2 ^ 63" using isInt64_range [OF assms(3)] by simp
  with ClampAs_value [OF assms(1) True assms(2,3)] show ?thesis by (cases "ClampAs_modify t v") simp
next
  case False
  then have "\<not> n < 2 ^ 63" using isInt64_range [OF assms(3)] by simp
  with ClampAs_skips [OF False] assms(3) show ?thesis by simp
qed

theorem ClampAs_narrows_witness:
  "(\<exists>v'. ClampAs_modify U32
       \<lparr>fv_key = ''limit'', fv_value = Some (JInt64 (-5)), fv_writable = True\<rparr> = (v', Ret ()) \<and>
    int_value v' = Some 0) \<and>
   (\<exists>v'. ClampAs_modify U32
       \<lparr>fv_key = ''limit'', fv_value = Some (JUint64 (2 ^ 63)), fv_writable = True\<rparr> = (v', Ret ()) \<and>
    int_value v' = Some (2 ^ 63))"
  using ClampAs_narrows [of U32
      "\<lparr>fv_key = ''limit'', fv_value = Some (JInt64 (-5)), fv_writable = True\<rparr>" "-5"]
    ClampAs_narrows [of U32
      "\<lparr>fv_key = ''limit'', fv_value = Some (JUint64 (2 ^ 63)), fv_writable = True\<rparr>" "2 ^ 63"]
  by (simp add: int_value_def)

text \<open>
  \<^verbatim>\<open>ToNumberModifier\<close> reads back every decimal text of a 32-bit number as that number: it
  succeeds, and the field is then one \<^verbatim>\<open>asUint32\<close> reads exactly.
\<close>

theorem ToNumber_round_trip:
  assumes "n < 2 ^ 32" and "fv_writable v" and "fv_value v = Some (JString (dec_digits n))"
  shows "\<exists>v'. ToNumber_modify v = (v', Ret ()) \<and> isUint32 v' \<and> asUint32 v' = Ret (word_of_nat n)"
proof -
  have "ToNumber_modify v = (v\<lparr>fv_value := Some (JInt64 (word_of_nat n))\<rparr>, Ret ())"
    using assms by (simp add: ToNumber_rewrite string_rewrite_def to_number_json_def dec_digits_all
        present_def)
  with asUint32_JInt64_nat [of "v\<lparr>fv_value := Some (JInt64 (word_of_nat n))\<rparr>" n] assms(1)
  show ?thesis by simp
qed

theorem ToNumber_round_trip_witness:
  "\<exists>v'. ToNumber_modify
      \<lparr>fv_key = ''limit'', fv_value = Some (JString (dec_digits 42)), fv_writable = True\<rparr> =
        (v', Ret ()) \<and> isUint32 v' \<and> asUint32 v' = Ret 42"
  using ToNumber_round_trip [of 42
      "\<lparr>fv_key = ''limit'', fv_value = Some (JString (dec_digits 42)), fv_writable = True\<rparr>"]
  by simp

text \<open>
  C22: whatever text \<^verbatim>\<open>ToNumberModifier\<close> accepts, the number \<^verbatim>\<open>asUint32\<close> later reads is the one the
  text denotes (a lone minus is admitted only before zeros), and it is below \<open>2 ^ 32\<close>.
\<close>

theorem ToNumber_exact:
  assumes "fv_writable v" and "fv_value v = Some (JString s)"
    and "ToNumber_modify v = (v', Ret ())"
  shows "\<exists>n < 2 ^ 32. isUint32 v' \<and> asUint32 v' = Ret (word_of_nat n) \<and>
    n = dec_value 0 (if starts_with CHR ''-'' s then tl s else s)"
proof -
  obtain j where j: "to_number_json s = Some j" "v' = v\<lparr>fv_value := Some j\<rparr>"
    using assms by (auto simp: ToNumber_rewrite string_rewrite_def present_def split: option.splits)
  then obtain n where "n < 2 ^ 32" "j = JInt64 (word_of_nat n)"
    "n = dec_value 0 (if starts_with CHR ''-'' s then tl s else s)"
    using to_number_json_readable by blast
  with j asUint32_JInt64_nat [of v' n] show ?thesis by auto
qed

theorem ToNumber_exact_witness:
  "\<exists>n < 2 ^ 32. isUint32 \<lparr>fv_key = ''x'', fv_value = Some (JInt64 7), fv_writable = True\<rparr> \<and>
    asUint32 \<lparr>fv_key = ''x'', fv_value = Some (JInt64 7), fv_writable = True\<rparr> = Ret (word_of_nat n) \<and>
    n = dec_value 0 ''7''"
proof -
  have "ToNumber_modify \<lparr>fv_key = ''x'', fv_value = Some (JString ''7''), fv_writable = True\<rparr> =
      (\<lparr>fv_key = ''x'', fv_value = Some (JInt64 7), fv_writable = True\<rparr>, Ret ())"
    by (simp add: ToNumber_rewrite string_rewrite_def to_number_json_def all_digits_def is_digit_def
        present_def)
  from ToNumber_exact [OF _ _ this, of "''7''"] show ?thesis
    by (simp add: starts_with_def)
qed

text \<open>
  The lexical cast accepts exactly an optional plus sign and the decimal digits of a number
  below \<open>2 ^ 32\<close>, and returns that number.
\<close>

theorem lexicalUint32_iff:
  "lexicalUint32 s = Some u \<longleftrightarrow>
     (\<exists>t. (s = t \<or> s = CHR ''+'' # t) \<and> all_digits t \<and> dec_value 0 t < 2 ^ 32 \<and>
          u = word_of_nat (dec_value 0 t))"
proof (cases "starts_with CHR ''+'' s")
  case True
  then obtain t where t: "s = CHR ''+'' # t" by (cases s) (auto simp: starts_with_def)
  then have "\<not> all_digits s" by (simp add: all_digits_def)
  with True t show ?thesis by (auto simp: lexicalUint32_eq Let_def)
next
  case False
  then have "s \<noteq> CHR ''+'' # t" for t by (auto simp: starts_with_def)
  with False show ?thesis by (auto simp: lexicalUint32_eq Let_def)
qed

lemma lexicalUint32_text:
  "lexicalUint32 s \<noteq> None \<longleftrightarrow>
     (all_digits s \<and> dec_value 0 s < 2 ^ 32) \<or>
     (\<exists>ds. s = CHR ''+'' # ds \<and> all_digits ds \<and> dec_value 0 ds < 2 ^ 32)"
  by (auto simp: lexicalUint32_iff)

end
