(* ===== verification/RpcXrpl.thy ===== *)
theory RpcXrpl
  imports RpcErrors
begin

text \<open>
  \<^verbatim>\<open>include/rpcspec/detail/XrplParse.hpp\<close>. libxrpl is not part of the repository, so its parsers and
  constants are the fields of a record, an argument \<open>xl\<close> of every definition that calls them: a
  parser is a function from the text to the value it writes, \<open>None\<close> where it reports failure
  (\<open>xl_issueFromJson\<close>: where it throws \<^verbatim>\<open>std::runtime_error\<close>).
  Identifiers have the widths libxrpl documents (accounts and currencies 160 bits, hashes 256,
  MPT issuance ids 192), byte strings are lists of bytes.

  The wrappers reject non-alphanumeric text before base58 decoding, and the
  \<^verbatim>\<open>...FromValidated\<close> helpers throw \<^verbatim>\<open>std::logic_error\<close> where their precondition is violated.
\<close>

type_synonym account_id = "160 word"
type_synonym currency = "160 word"
type_synonym uint160 = "160 word"
type_synonym uint192 = "192 word"
type_synonym uint256 = "256 word"
type_synonym blob = "8 word list"

datatype issue = Issue currency account_id
datatype asset = AssetIssue issue | AssetMPT uint192

record xrpl_lib =
  xl_parseHex160 :: "string \<Rightarrow> uint160 option"
  xl_parseHex192 :: "string \<Rightarrow> uint192 option"
  xl_parseHex256 :: "string \<Rightarrow> uint256 option"
  xl_parseBase58Account :: "string \<Rightarrow> account_id option"
  xl_parseBase58Public :: "string \<Rightarrow> blob option"
  xl_strUnHex :: "string \<Rightarrow> blob option"
  xl_publicKeyType :: "blob \<Rightarrow> bool"
  xl_calcAccountID :: "blob \<Rightarrow> account_id"
  xl_toCurrency :: "string \<Rightarrow> currency option"
  xl_toIssuer :: "string \<Rightarrow> account_id option"
  xl_issueFromJson :: "string \<Rightarrow> issue option"
  xl_isXRP :: "currency \<Rightarrow> bool"
  xl_isXRPAccount :: "account_id \<Rightarrow> bool"
  xl_badCurrency :: currency
  xl_noCurrency :: currency
  xl_noAccount :: account_id
  xl_xrpAccount :: account_id
  xl_xrpIssue :: issue
  xl_kMaxCredentialTypeLength :: nat
  xl_kMaxCredentialsArraySize :: nat
  xl_txTypeNames :: "string list"

definition parseBase58Wrapper :: "(string \<Rightarrow> 'a option) \<Rightarrow> string \<Rightarrow> 'a option" where
  "parseBase58Wrapper parse str = (if \<not> list_all isalnum str then None else parse str)"

definition accountFromStringStrict :: "xrpl_lib \<Rightarrow> string \<Rightarrow> account_id option" where
  "accountFromStringStrict xl acct =
     (let publicKey = (case xl_strUnHex xl acct of
          Some b \<Rightarrow> if xl_publicKeyType xl b then Some b
                    else parseBase58Wrapper (xl_parseBase58Public xl) acct
        | None \<Rightarrow> parseBase58Wrapper (xl_parseBase58Public xl) acct)
      in case publicKey of
          Some k \<Rightarrow> Some (xl_calcAccountID xl k)
        | None \<Rightarrow> parseBase58Wrapper (xl_parseBase58Account xl) acct)"

definition validated :: "string \<Rightarrow> 'a option \<Rightarrow> 'a parsed" where
  "validated msg r = (case r of Some x \<Rightarrow> Ret x | None \<Rightarrow> Throw (LogicError msg))"

definition accountFromValidated :: "xrpl_lib \<Rightarrow> string \<Rightarrow> account_id parsed" where
  "accountFromValidated xl s =
     validated ''accountFromValidated: account was not pre-validated'' (accountFromStringStrict xl s)"

definition uint256FromValidated :: "xrpl_lib \<Rightarrow> string \<Rightarrow> uint256 parsed" where
  "uint256FromValidated xl s =
     validated ''uint256FromValidated: hex was not pre-validated'' (xl_parseHex256 xl (c_str s))"

definition uint192FromValidated :: "xrpl_lib \<Rightarrow> string \<Rightarrow> uint192 parsed" where
  "uint192FromValidated xl s =
     validated ''uint192FromValidated: hex was not pre-validated'' (xl_parseHex192 xl (c_str s))"

definition currencyFromValidated :: "xrpl_lib \<Rightarrow> string \<Rightarrow> currency parsed" where
  "currencyFromValidated xl s =
     validated ''currencyFromValidated: currency was not pre-validated'' (xl_toCurrency xl s)"

definition issuerFromValidated :: "xrpl_lib \<Rightarrow> string \<Rightarrow> account_id parsed" where
  "issuerFromValidated xl s =
     validated ''issuerFromValidated: issuer was not pre-validated'' (xl_toIssuer xl s)"

lemma validated_simps [simp]:
  "validated m (Some x) = Ret x" "throws (validated m r) \<longleftrightarrow> r = None"
  by (auto simp: validated_def split: option.splits)

section \<open>A concrete instance\<close>

text \<open>
  A library instance for evaluating the model at concrete inputs: hex is read as hex of the exact
  width, and every other parser is a simple total stand-in (an account is the text
  \<open>''rX''\<close> followed by one character, a currency a three-letter code).
\<close>

definition hex_digit :: "char \<Rightarrow> nat option" where
  "hex_digit c =
     (let n = (of_char c :: nat) in
      if is_digit c then Some (n - 48)
      else if 97 \<le> n \<and> n \<le> 102 then Some (n - 87)
      else if 65 \<le> n \<and> n \<le> 70 then Some (n - 55) else None)"

fun hex_value :: "nat \<Rightarrow> string \<Rightarrow> nat option" where
  "hex_value acc [] = Some acc"
| "hex_value acc (c # cs) =
     (case hex_digit c of None \<Rightarrow> None | Some d \<Rightarrow> hex_value (16 * acc + d) cs)"

definition hex_exact :: "nat \<Rightarrow> string \<Rightarrow> nat option" where
  "hex_exact n s = (if length s = n then hex_value 0 s else None)"

fun hex_bytes :: "string \<Rightarrow> blob option" where
  "hex_bytes [] = Some []"
| "hex_bytes [c] = None"
| "hex_bytes (c # d # cs) =
     (case (hex_digit c, hex_digit d, hex_bytes cs) of
        (Some a, Some b, Some bs) \<Rightarrow> Some (word_of_nat (16 * a + b) # bs)
      | _ \<Rightarrow> None)"

definition sample_account :: "string \<Rightarrow> account_id option" where
  "sample_account s =
     (if length s = 3 \<and> take 2 s = ''rX'' then Some (word_of_nat (of_char (s ! 2))) else None)"

definition sample_currency :: "string \<Rightarrow> currency option" where
  "sample_currency s =
     (if s = ''XRP'' then Some 0
      else if length s = 3 then Some (word_of_nat (of_char (hd s) + 1)) else None)"

definition sample_lib :: xrpl_lib where
  "sample_lib =
     \<lparr>xl_parseHex160 = (\<lambda>s. map_option word_of_nat (hex_exact 40 s)),
      xl_parseHex192 = (\<lambda>s. map_option word_of_nat (hex_exact 48 s)),
      xl_parseHex256 = (\<lambda>s. map_option word_of_nat (hex_exact 64 s)),
      xl_parseBase58Account = sample_account,
      xl_parseBase58Public = (\<lambda>s. None),
      xl_strUnHex = hex_bytes,
      xl_publicKeyType = (\<lambda>b. length b = 33),
      xl_calcAccountID = (\<lambda>b. word_of_nat (length b)),
      xl_toCurrency = sample_currency,
      xl_toIssuer = sample_account,
      xl_issueFromJson = (\<lambda>s. None),
      xl_isXRP = (\<lambda>c. c = 0),
      xl_isXRPAccount = (\<lambda>a. a = 0),
      xl_badCurrency = 89,
      xl_noCurrency = 1,
      xl_noAccount = 1,
      xl_xrpAccount = 0,
      xl_xrpIssue = Issue 0 0,
      xl_kMaxCredentialTypeLength = 64,
      xl_kMaxCredentialsArraySize = 8,
      xl_txTypeNames = [''Payment'', ''OfferCreate'']\<rparr>"

end
