(* ===== verification/RpcLedgerTypes.thy ===== *)
theory RpcLedgerTypes
  imports RpcPrelude
begin

text \<open>
  \<^verbatim>\<open>include/rpcspec/LedgerTypes.hpp\<close>: the registry of ledger object types and the lookups by RPC
  name and by canonical name. Of libxrpl's \<^verbatim>\<open>LedgerEntryType\<close> the model has the members the table
  names and \<open>ltANY\<close>, the "no type" value.
\<close>

datatype LedgerEntryType =
    ltANY
  | ltACCOUNT_ROOT | ltAMENDMENTS | ltCHECK | ltDEPOSIT_PREAUTH | ltDIR_NODE | ltESCROW
  | ltFEE_SETTINGS | ltLEDGER_HASHES | ltOFFER | ltPAYCHAN | ltSIGNER_LIST | ltRIPPLE_STATE
  | ltTICKET | ltNFTOKEN_OFFER | ltNFTOKEN_PAGE | ltAMM | ltBRIDGE | ltXCHAIN_OWNED_CLAIM_ID
  | ltXCHAIN_OWNED_CREATE_ACCOUNT_CLAIM_ID | ltDID | ltORACLE | ltCREDENTIAL | ltVAULT
  | ltLOAN_BROKER | ltLOAN | ltNEGATIVE_UNL | ltMPTOKEN_ISSUANCE | ltMPTOKEN
  | ltPERMISSIONED_DOMAIN | ltDELEGATE | ltSPONSORSHIP

datatype LedgerCategory = AccountOwned | Chain | DeletionBlocker

record LedgerTypeEntry =
  lt_name :: string
  lt_rpcName :: string
  lt_type :: LedgerEntryType
  lt_category :: LedgerCategory

record LedgerTypeInfo =
  li_type :: LedgerEntryType
  li_category :: LedgerCategory

definition ledger_row ::
    "string \<Rightarrow> string \<Rightarrow> LedgerEntryType \<Rightarrow> LedgerCategory \<Rightarrow> LedgerTypeEntry" where
  "ledger_row n r t c = \<lparr>lt_name = n, lt_rpcName = r, lt_type = t, lt_category = c\<rparr>"

definition kLedgerTypesTable :: "LedgerTypeEntry list" where
  "kLedgerTypesTable =
    [ledger_row ''AccountRoot'' ''account'' ltACCOUNT_ROOT AccountOwned,
     ledger_row ''Amendments'' ''amendments'' ltAMENDMENTS Chain,
     ledger_row ''Check'' ''check'' ltCHECK DeletionBlocker,
     ledger_row ''DepositPreauth'' ''deposit_preauth'' ltDEPOSIT_PREAUTH AccountOwned,
     ledger_row ''DirectoryNode'' ''directory'' ltDIR_NODE Chain,
     ledger_row ''Escrow'' ''escrow'' ltESCROW DeletionBlocker,
     ledger_row ''FeeSettings'' ''fee'' ltFEE_SETTINGS Chain,
     ledger_row ''LedgerHashes'' ''hashes'' ltLEDGER_HASHES Chain,
     ledger_row ''Offer'' ''offer'' ltOFFER AccountOwned,
     ledger_row ''PayChannel'' ''payment_channel'' ltPAYCHAN DeletionBlocker,
     ledger_row ''SignerList'' ''signer_list'' ltSIGNER_LIST AccountOwned,
     ledger_row ''RippleState'' ''state'' ltRIPPLE_STATE DeletionBlocker,
     ledger_row ''Ticket'' ''ticket'' ltTICKET AccountOwned,
     ledger_row ''NFTokenOffer'' ''nft_offer'' ltNFTOKEN_OFFER AccountOwned,
     ledger_row ''NFTokenPage'' ''nft_page'' ltNFTOKEN_PAGE DeletionBlocker,
     ledger_row ''AMM'' ''amm'' ltAMM AccountOwned,
     ledger_row ''Bridge'' ''bridge'' ltBRIDGE DeletionBlocker,
     ledger_row ''XChainOwnedClaimID'' ''xchain_owned_claim_id'' ltXCHAIN_OWNED_CLAIM_ID DeletionBlocker,
     ledger_row ''XChainOwnedCreateAccountClaimID'' ''xchain_owned_create_account_claim_id'' ltXCHAIN_OWNED_CREATE_ACCOUNT_CLAIM_ID DeletionBlocker,
     ledger_row ''DID'' ''did'' ltDID AccountOwned,
     ledger_row ''Oracle'' ''oracle'' ltORACLE AccountOwned,
     ledger_row ''Credential'' ''credential'' ltCREDENTIAL AccountOwned,
     ledger_row ''Vault'' ''vault'' ltVAULT AccountOwned,
     ledger_row ''LoanBroker'' ''loan_broker'' ltLOAN_BROKER AccountOwned,
     ledger_row ''Loan'' ''loan'' ltLOAN DeletionBlocker,
     ledger_row ''NegativeUNL'' ''nunl'' ltNEGATIVE_UNL Chain,
     ledger_row ''MPTokenIssuance'' ''mpt_issuance'' ltMPTOKEN_ISSUANCE DeletionBlocker,
     ledger_row ''MPToken'' ''mptoken'' ltMPTOKEN DeletionBlocker,
     ledger_row ''PermissionedDomain'' ''permissioned_domain'' ltPERMISSIONED_DOMAIN DeletionBlocker,
     ledger_row ''Delegate'' ''delegate'' ltDELEGATE AccountOwned,
     ledger_row ''Sponsorship'' ''sponsorship'' ltSPONSORSHIP DeletionBlocker]"

definition row_info :: "LedgerTypeEntry \<Rightarrow> LedgerTypeInfo" where
  "row_info e = \<lparr>li_type = lt_type e, li_category = lt_category e\<rparr>"

text \<open>\<^verbatim>\<open>emplace\<close> keeps the entry that is already there.\<close>

definition emplace :: "'k \<Rightarrow> 'v \<Rightarrow> ('k \<rightharpoonup> 'v) \<Rightarrow> ('k \<rightharpoonup> 'v)" where
  "emplace k v m = (if m k = None then m(k \<mapsto> v) else m)"

definition kRpcMap :: "string \<rightharpoonup> LedgerTypeInfo" where
  "kRpcMap = fold (\<lambda>e. emplace (lt_rpcName e) (row_info e)) kLedgerTypesTable Map.empty"

definition kNameMap :: "string \<rightharpoonup> LedgerTypeInfo" where
  "kNameMap = fold (\<lambda>e. emplace (lower_string (lt_name e)) (row_info e)) kLedgerTypesTable Map.empty"

definition ledgerTypeInfoFromStr :: "string \<Rightarrow> LedgerTypeInfo option" where
  "ledgerTypeInfoFromStr entryName =
     (case kRpcMap entryName of
        Some info \<Rightarrow> Some info
      | None \<Rightarrow> kNameMap (lower_string entryName))"

definition ledgerEntryTypeFromStr :: "string \<Rightarrow> LedgerEntryType" where
  "ledgerEntryTypeFromStr name =
     (case ledgerTypeInfoFromStr name of Some info \<Rightarrow> li_type info | None \<Rightarrow> ltANY)"

definition accountOwnedLedgerTypeFromStr :: "string \<Rightarrow> LedgerEntryType" where
  "accountOwnedLedgerTypeFromStr name =
     (case ledgerTypeInfoFromStr name of
        Some info \<Rightarrow> if li_category info \<noteq> Chain then li_type info else ltANY
      | None \<Rightarrow> ltANY)"

section \<open>The lookups\<close>

lemma fold_emplace_apply:
  "fold (\<lambda>e. emplace (k e) (f e)) es m x =
     (case m x of Some y \<Rightarrow> Some y | None \<Rightarrow> map_of (map (\<lambda>e. (k e, f e)) es) x)"
  by (induction es arbitrary: m) (auto simp: emplace_def split: option.split)

lemma kRpcMap_apply: "kRpcMap x = map_of (map (\<lambda>e. (lt_rpcName e, row_info e)) kLedgerTypesTable) x"
  by (simp add: kRpcMap_def fold_emplace_apply)

lemma kNameMap_apply:
  "kNameMap x = map_of (map (\<lambda>e. (lower_string (lt_name e), row_info e)) kLedgerTypesTable) x"
  by (simp add: kNameMap_def fold_emplace_apply)

text \<open>The two columns of keys, evaluated.\<close>

lemma rpc_column:
  "map lt_rpcName kLedgerTypesTable =
    [''account'', ''amendments'', ''check'', ''deposit_preauth'', ''directory'', ''escrow'',
     ''fee'', ''hashes'', ''offer'', ''payment_channel'', ''signer_list'', ''state'',
     ''ticket'', ''nft_offer'', ''nft_page'', ''amm'', ''bridge'', ''xchain_owned_claim_id'',
     ''xchain_owned_create_account_claim_id'', ''did'', ''oracle'', ''credential'', ''vault'',
     ''loan_broker'', ''loan'', ''nunl'', ''mpt_issuance'', ''mptoken'',
     ''permissioned_domain'', ''delegate'', ''sponsorship'']"
  by (simp add: kLedgerTypesTable_def ledger_row_def)

lemma name_column:
  "map (\<lambda>e. lower_string (lt_name e)) kLedgerTypesTable =
    [''accountroot'', ''amendments'', ''check'', ''depositpreauth'', ''directorynode'',
     ''escrow'', ''feesettings'', ''ledgerhashes'', ''offer'', ''paychannel'', ''signerlist'',
     ''ripplestate'', ''ticket'', ''nftokenoffer'', ''nftokenpage'', ''amm'', ''bridge'',
     ''xchainownedclaimid'', ''xchainownedcreateaccountclaimid'', ''did'', ''oracle'',
     ''credential'', ''vault'', ''loanbroker'', ''loan'', ''negativeunl'', ''mptokenissuance'',
     ''mptoken'', ''permissioneddomain'', ''delegate'', ''sponsorship'']"
  by (simp add: kLedgerTypesTable_def ledger_row_def lower_string_def tolower_def is_upper_def
      char_of_def bit_0)

lemma table_rpc_distinct: "distinct (map lt_rpcName kLedgerTypesTable)"
  unfolding rpc_column by simp

lemma table_name_distinct: "distinct (map (\<lambda>e. lower_string (lt_name e)) kLedgerTypesTable)"
  unfolding name_column by simp

text \<open>
  RPC names are their own lower-case form, and a text that is both an RPC name and a canonical
  name in lower case names one type, so the order of the two lookups does not matter.
\<close>

lemma rpc_column_lower: "map lower_string (map lt_rpcName kLedgerTypesTable) = map lt_rpcName kLedgerTypesTable"
  unfolding rpc_column by (simp add: lower_string_def tolower_def is_upper_def)

lemma columns_agree:
  "list_all2 (\<lambda>x e. x \<in> set (map (\<lambda>e. lower_string (lt_name e)) kLedgerTypesTable) \<longrightarrow>
      x = lower_string (lt_name e)) (map lt_rpcName kLedgerTypesTable) kLedgerTypesTable"
proof -
  have "list_all2 (\<lambda>x y. x \<in> set (map (\<lambda>e. lower_string (lt_name e)) kLedgerTypesTable) \<longrightarrow> x = y)
     (map lt_rpcName kLedgerTypesTable) (map (\<lambda>e. lower_string (lt_name e)) kLedgerTypesTable)"
    unfolding rpc_column name_column by simp
  then show ?thesis by (simp only: list_all2_map2)
qed

lemma key_lookup:
  assumes "distinct (map k es)" and "e \<in> set es"
  shows "map_of (map (\<lambda>e. (k e, f e)) es) (k e) = Some (f e)"
  using assms by (intro map_of_is_SomeI) (auto simp: comp_def)

lemma kRpcMap_row: "e \<in> set kLedgerTypesTable \<Longrightarrow> kRpcMap (lt_rpcName e) = Some (row_info e)"
  unfolding kRpcMap_apply by (rule key_lookup [OF table_rpc_distinct])

lemma kNameMap_row:
  "e \<in> set kLedgerTypesTable \<Longrightarrow> kNameMap (lower_string (lt_name e)) = Some (row_info e)"
  unfolding kNameMap_apply by (rule key_lookup [OF table_name_distinct])

lemma kRpcMap_SomeD:
  "kRpcMap s = Some i \<Longrightarrow> \<exists>e \<in> set kLedgerTypesTable. s = lt_rpcName e \<and> i = row_info e"
  unfolding kRpcMap_apply by (auto dest!: map_of_SomeD)

lemma kNameMap_SomeD:
  "kNameMap s = Some i \<Longrightarrow> \<exists>e \<in> set kLedgerTypesTable. s = lower_string (lt_name e) \<and> i = row_info e"
  unfolding kNameMap_apply by (auto dest!: map_of_SomeD)

lemma rpc_name_lower: "e \<in> set kLedgerTypesTable \<Longrightarrow> lower_string (lt_rpcName e) = lt_rpcName e"
  using rpc_column_lower unfolding map_map comp_def map_eq_conv by (rule bspec)

lemma rpc_name_canonical:
  assumes "e \<in> set kLedgerTypesTable" and "e' \<in> set kLedgerTypesTable"
    and "lt_rpcName e = lower_string (lt_name e')"
  shows "e = e'"
proof -
  have "lt_rpcName e = lower_string (lt_name e)"
    using bspec [OF columns_agree [unfolded list_all2_map1 list_all2_same] assms(1)] assms(2,3)
    by (metis (no_types, lifting) imageI image_set)
  with assms(3) have "lower_string (lt_name e) = lower_string (lt_name e')" by simp
  with assms(1,2) show ?thesis
    using table_name_distinct unfolding distinct_map inj_on_def by blast
qed

lemma row_of_lookup:
  "ledgerTypeInfoFromStr s = Some i \<Longrightarrow> \<exists>e \<in> set kLedgerTypesTable. i = row_info e"
  using kRpcMap_SomeD [of s i] kNameMap_SomeD [of "lower_string s" i]
  by (auto simp: ledgerTypeInfoFromStr_def split: option.splits)

lemma table_type_distinct: "distinct (map lt_type kLedgerTypesTable)"
  by (simp add: kLedgerTypesTable_def ledger_row_def)

section \<open>Properties\<close>

text \<open>
  A name resolves exactly when it is the RPC name of a row, letter for letter, or the
  canonical name of a row in any case, and then to that row's type and category: the two lookups
  never contradict each other.
\<close>

theorem ledgerTypeInfoFromStr_iff:
  "ledgerTypeInfoFromStr s = Some i \<longleftrightarrow>
     (\<exists>e \<in> set kLedgerTypesTable.
        (s = lt_rpcName e \<or> lower_string s = lower_string (lt_name e)) \<and> i = row_info e)"
proof
  assume "ledgerTypeInfoFromStr s = Some i"
  then show "\<exists>e \<in> set kLedgerTypesTable.
        (s = lt_rpcName e \<or> lower_string s = lower_string (lt_name e)) \<and> i = row_info e"
    using kRpcMap_SomeD [of s i] kNameMap_SomeD [of "lower_string s" i]
    by (auto simp: ledgerTypeInfoFromStr_def split: option.splits)
next
  assume "\<exists>e \<in> set kLedgerTypesTable.
        (s = lt_rpcName e \<or> lower_string s = lower_string (lt_name e)) \<and> i = row_info e"
  then obtain e where e: "e \<in> set kLedgerTypesTable" "i = row_info e"
    "s = lt_rpcName e \<or> lower_string s = lower_string (lt_name e)" by blast
  show "ledgerTypeInfoFromStr s = Some i"
  proof (cases "kRpcMap s")
    case None
    with e kRpcMap_row [of e] kNameMap_row [of e] show ?thesis
      by (auto simp: ledgerTypeInfoFromStr_def)
  next
    case (Some i')
    then obtain e' where e': "e' \<in> set kLedgerTypesTable" "s = lt_rpcName e'" "i' = row_info e'"
      using kRpcMap_SomeD by blast
    have "e' = e \<or> lt_rpcName e' = lt_rpcName e"
      using e e' rpc_name_lower [of e'] rpc_name_canonical [of e' e] by auto
    then have "i' = i"
      using e e' kRpcMap_row [of e] kRpcMap_row [of e'] by auto
    with Some show ?thesis by (simp add: ledgerTypeInfoFromStr_def)
  qed
qed

text \<open>
  An account-owned lookup is the plain lookup, except that the chain-wide types of the
  registry, and nothing else it knows, come back as \<open>ltANY\<close>.
\<close>

theorem accountOwned_excludes_chain:
  "accountOwnedLedgerTypeFromStr s =
     (if ledgerEntryTypeFromStr s \<in> lt_type ` {e \<in> set kLedgerTypesTable. lt_category e = Chain}
      then ltANY else ledgerEntryTypeFromStr s)"
proof (cases "ledgerTypeInfoFromStr s")
  case None
  then show ?thesis
    by (simp add: accountOwnedLedgerTypeFromStr_def ledgerEntryTypeFromStr_def)
next
  case (Some i)
  then obtain e where e: "e \<in> set kLedgerTypesTable" "i = row_info e"
    using row_of_lookup by blast
  have "lt_type e \<in> lt_type ` {e \<in> set kLedgerTypesTable. lt_category e = Chain} \<longleftrightarrow>
      lt_category e = Chain"
    using e(1) table_type_distinct unfolding distinct_map inj_on_def by blast
  with Some e(2) show ?thesis
    by (simp add: accountOwnedLedgerTypeFromStr_def ledgerEntryTypeFromStr_def row_info_def)
qed

end
