(* ===== verification/RpcValidatorsXrpl.thy ===== *)
theory RpcValidatorsXrpl
  imports RpcScalars RpcXrpl RpcLedgerTypes
begin

text \<open>
  The items of \<^verbatim>\<open>include/rpcspec/Validators.hpp\<close> that read XRPL identifiers: accounts, currencies,
  issuers, hashes, credentials, cursors and ledger object types. They are parameterised by the
  server \<open>srv\<close> and by the libxrpl record \<open>xl\<close>.

  Most have one shape, \<open>string_test\<close>: absent passes, a value of another kind has one error, and the
  text decides. Its contract is proved once and each validator is shown to be an instance.
\<close>

definition q :: string where "q = [CHR 0x27]"

section \<open>Validators of one text\<close>

definition string_test ::
    "(field_view \<Rightarrow> status) \<Rightarrow> (field_view \<Rightarrow> string \<Rightarrow> status option) \<Rightarrow> requirement" where
  "string_test not_string test v =
     (if \<not> present v then Ret ()
      else if \<not> isString v then Fail (not_string v)
      else obind (asString v) (\<lambda>s. case test v s of None \<Rightarrow> Ret () | Some e \<Rightarrow> Fail e))"

definition string_field :: "(string \<Rightarrow> bool) \<Rightarrow> field_view \<Rightarrow> bool" where
  "string_field P v = (\<not> present v \<or> (\<exists>s. fv_value v = Some (JString s) \<and> P s))"

definition string_error ::
    "(field_view \<Rightarrow> status) \<Rightarrow> (field_view \<Rightarrow> string \<Rightarrow> status option) \<Rightarrow> field_view \<Rightarrow> status" where
  "string_error not_string test v =
     (case fv_value v of Some (JString s) \<Rightarrow> the (test v s) | _ \<Rightarrow> not_string v)"

lemma string_test_validator:
  assumes "\<And>v s. test v s = None \<longleftrightarrow> P s"
  shows "optional_validator (string_test e test) (string_field P) (string_error e test)"
proof
  fix v
  show "string_test e test v =
      (if string_field P v then Ret () else Fail (string_error e test v))"
  proof (cases "isString v")
    case True
    then obtain s where "fv_value v = Some (JString s)" by (auto simp: isString_value)
    with True assms [of v s] show ?thesis
      by (auto simp: string_test_def string_field_def string_error_def split: option.split)
  next
    case False
    then show ?thesis
      by (auto simp: string_test_def string_field_def string_error_def isString_value
          split: option.split json.split)
  qed
qed (simp add: string_field_def)

definition AccountFormat_verify :: "xrpl_lib \<Rightarrow> requirement" where
  "AccountFormat_verify xl v =
     (if \<not> present v then Ret ()
      else if \<not> isString v then
        Fail (status_msg (XrpldErr RpcInvalidParams) (fv_key v @ ''NotString''))
      else obind (asString v) (\<lambda>s.
        if accountFromStringStrict xl s = None
        then Fail (status_msg (XrpldErr RpcActMalformed) (fv_key v @ ''Malformed''))
        else Ret ()))"

definition HexString_verify :: "server \<Rightarrow> (string \<Rightarrow> 'h option) \<Rightarrow> requirement" where
  "HexString_verify srv parseHex v =
     (if \<not> present v then Ret ()
      else if \<not> isString v then
        Fail (status_msg kMalformedField (notStringFieldMessage srv (fv_key v)))
      else obind (asString v) (\<lambda>s.
        if parseHex (c_str s) = None
        then Fail (status_msg kMalformedField (malformedFieldMessage srv (fv_key v)))
        else Ret ()))"

definition Uint256HexString_verify :: "server \<Rightarrow> xrpl_lib \<Rightarrow> requirement" where
  "Uint256HexString_verify srv xl = HexString_verify srv (xl_parseHex256 xl)"

definition Uint192HexString_verify :: "server \<Rightarrow> xrpl_lib \<Rightarrow> requirement" where
  "Uint192HexString_verify srv xl = HexString_verify srv (xl_parseHex192 xl)"

definition Uint160HexString_verify :: "server \<Rightarrow> xrpl_lib \<Rightarrow> requirement" where
  "Uint160HexString_verify srv xl = HexString_verify srv (xl_parseHex160 xl)"

definition AccountBase58_verify :: "server \<Rightarrow> xrpl_lib \<Rightarrow> requirement" where
  "AccountBase58_verify srv xl v =
     (if \<not> present v then Ret ()
      else if \<not> isString v then
        Fail (status_msg (XrpldErr RpcInvalidParams) (fv_key v @ ''NotString''))
      else obind (asString v) (\<lambda>s.
        case parseBase58Wrapper (xl_parseBase58Account xl) s of
          None \<Rightarrow> Fail (status_of (kMalformedAddress srv))
        | Some account \<Rightarrow>
            if account = 0 then Fail (status_of (kMalformedAddress srv)) else Ret ()))"

definition Currency_verify :: "server \<Rightarrow> xrpl_lib \<Rightarrow> requirement" where
  "Currency_verify srv xl v =
     (if \<not> present v then Ret ()
      else if \<not> isString v then
        Fail (status_msg (XrpldErr RpcInvalidParams) (fv_key v @ ''NotString''))
      else obind (asString v) (\<lambda>str.
        if str = [] then Fail (status_msg (XrpldErr RpcInvalidParams) (fv_key v @ ''IsEmpty''))
        else if xl_toCurrency xl str = None
        then Fail (status_msg (kMalformedCurrency srv) ''malformedCurrency'')
        else Ret ()))"

definition StrictCurrency_verify :: "server \<Rightarrow> xrpl_lib \<Rightarrow> requirement" where
  "StrictCurrency_verify srv xl v =
     (case Currency_verify srv xl v of
        Ret _ \<Rightarrow>
          if \<not> present v then Ret ()
          else obind (asString v) (\<lambda>s.
            let malformed = Fail (status_msg (kMalformedCurrency srv) ''malformedCurrency'')
            in case xl_toCurrency xl s of
                 None \<Rightarrow> malformed
               | Some c \<Rightarrow> if c = xl_badCurrency xl \<or> c = xl_noCurrency xl then malformed else Ret ())
      | res \<Rightarrow> res)"

definition Issuer_verify :: "xrpl_lib \<Rightarrow> requirement" where
  "Issuer_verify xl v =
     (if \<not> present v then Ret ()
      else if \<not> isString v then
        Fail (status_msg (XrpldErr RpcInvalidParams) (fv_key v @ ''NotString''))
      else obind (asString v) (\<lambda>s.
        case xl_toIssuer xl s of
          None \<Rightarrow> Fail (status_msg (XrpldErr RpcInvalidParams)
            (''Invalid field '' @ q @ fv_key v @ q @ '', bad issuer.''))
        | Some issuer \<Rightarrow>
            if issuer = xl_noAccount xl
            then Fail (status_msg (XrpldErr RpcInvalidParams)
              (''Invalid field '' @ q @ fv_key v @ q @ '', bad issuer account one.''))
            else Ret ()))"

definition CredentialType_verify :: "server \<Rightarrow> xrpl_lib \<Rightarrow> requirement" where
  "CredentialType_verify srv xl v =
     (if \<not> present v then Ret ()
      else if \<not> isString v then
        Fail (status_msg (kMalformedAuthorizedCredentials srv) (fv_key v @ '' NotString''))
      else obind (asString v) (\<lambda>s.
        case xl_strUnHex xl s of
          None \<Rightarrow>
            Fail (status_msg (kMalformedAuthorizedCredentials srv) (fv_key v @ '' NotHexString''))
        | Some decoded \<Rightarrow>
            if decoded = []
            then Fail (status_msg (kMalformedAuthorizedCredentials srv) (fv_key v @ '' is empty''))
            else if xl_kMaxCredentialTypeLength xl < length decoded
            then Fail (status_msg (kMalformedAuthorizedCredentials srv)
              (fv_key v @ '' greater than max length''))
            else Ret ()))"

text \<open>
  \<^verbatim>\<open>sv.find(',')\<close> with the two substrings around it: the cursor text before the first comma and
  after it.
\<close>

definition split_comma :: "string \<Rightarrow> (string \<times> string) option" where
  "split_comma s =
     (if CHR '','' \<in> set s
      then Some (takeWhile (\<lambda>c. c \<noteq> CHR '','') s, drop 1 (dropWhile (\<lambda>c. c \<noteq> CHR '','') s))
      else None)"

definition AccountMarker_verify :: "server \<Rightarrow> xrpl_lib \<Rightarrow> requirement" where
  "AccountMarker_verify srv xl v =
     (let malformed = Fail (status_msg kMalformedField (malformedCursorMessage srv (fv_key v)))
      in if \<not> present v then Ret ()
         else if \<not> isString v then
           Fail (status_msg (XrpldErr RpcInvalidParams) (fv_key v @ ''NotString''))
         else obind (asString v) (\<lambda>sv.
           case split_comma sv of
             None \<Rightarrow> malformed
           | Some (hexPart, hintPart) \<Rightarrow>
               if xl_parseHex256 xl (c_str hexPart) = None then malformed
               else (case from_chars_unsigned (2 ^ 64 - 1) hintPart of (hint, ec, rest) \<Rightarrow>
                 if ec \<noteq> NoError \<or> rest \<noteq> [] then malformed else Ret ())))"

definition AccountType_verify :: requirement where
  "AccountType_verify v =
     (if \<not> present v then Ret ()
      else if \<not> isString v then
        Fail (status_msg (XrpldErr RpcInvalidParams)
          (''Invalid field '' @ q @ fv_key v @ q @ '', not string.''))
      else obind (asString v) (\<lambda>s.
        if accountOwnedLedgerTypeFromStr s = ltANY
        then Fail (status_msg (XrpldErr RpcInvalidParams) (''Invalid field '' @ q @ fv_key v @ q @ ''.''))
        else Ret ()))"

definition LedgerEntryType_verify :: requirement where
  "LedgerEntryType_verify v =
     (if \<not> present v then Ret ()
      else if \<not> isString v then
        Fail (status_msg (XrpldErr RpcInvalidParams)
          (''Invalid field '' @ q @ fv_key v @ q @ '', not string.''))
      else obind (asString v) (\<lambda>s.
        if ledgerEntryTypeFromStr s = ltANY
        then Fail (status_msg (XrpldErr RpcInvalidParams) (''Invalid field '' @ q @ fv_key v @ q @ ''.''))
        else Ret ()))"

text \<open>The verdict of each on a text, and the validator as a \<open>string_test\<close> of it.\<close>

definition key_msg :: "combined_error \<Rightarrow> string \<Rightarrow> field_view \<Rightarrow> status" where
  "key_msg c t v = status_msg c (fv_key v @ t)"

abbreviation not_string :: "field_view \<Rightarrow> status" where
  "not_string \<equiv> key_msg (XrpldErr RpcInvalidParams) ''NotString''"

definition is_account :: "xrpl_lib \<Rightarrow> string \<Rightarrow> bool" where
  "is_account xl s = (accountFromStringStrict xl s \<noteq> None)"

definition is_hex :: "(string \<Rightarrow> 'h option) \<Rightarrow> string \<Rightarrow> bool" where
  "is_hex parseHex s = (parseHex (c_str s) \<noteq> None)"

definition is_base58_account :: "xrpl_lib \<Rightarrow> string \<Rightarrow> bool" where
  "is_base58_account xl s =
     (list_all isalnum s \<and> (\<exists>a. xl_parseBase58Account xl s = Some a \<and> a \<noteq> 0))"

definition is_currency :: "xrpl_lib \<Rightarrow> string \<Rightarrow> bool" where
  "is_currency xl s = (s \<noteq> [] \<and> xl_toCurrency xl s \<noteq> None)"

definition is_strict_currency :: "xrpl_lib \<Rightarrow> string \<Rightarrow> bool" where
  "is_strict_currency xl s =
     (s \<noteq> [] \<and> (\<exists>c. xl_toCurrency xl s = Some c \<and> c \<noteq> xl_badCurrency xl \<and> c \<noteq> xl_noCurrency xl))"

definition is_issuer :: "xrpl_lib \<Rightarrow> string \<Rightarrow> bool" where
  "is_issuer xl s = (\<exists>a. xl_toIssuer xl s = Some a \<and> a \<noteq> xl_noAccount xl)"

definition is_credential_type :: "xrpl_lib \<Rightarrow> string \<Rightarrow> bool" where
  "is_credential_type xl s =
     (\<exists>b. xl_strUnHex xl s = Some b \<and> b \<noteq> [] \<and> length b \<le> xl_kMaxCredentialTypeLength xl)"

definition is_cursor :: "xrpl_lib \<Rightarrow> string \<Rightarrow> bool" where
  "is_cursor xl s =
     (\<exists>h t. split_comma s = Some (h, t) \<and> is_hex (xl_parseHex256 xl) h \<and>
        all_digits t \<and> dec_value 0 t < 2 ^ 64)"

lemma string_test_validatorI:
  assumes "\<And>v. f v = string_test e test v" and "\<And>v s. test v s = None \<longleftrightarrow> P s"
  shows "optional_validator f (string_field P) (string_error e test)"
proof -
  have "f = string_test e test" using assms(1) by (rule ext)
  then show ?thesis using string_test_validator [of test P e] assms(2) by simp
qed

definition account_test :: "xrpl_lib \<Rightarrow> field_view \<Rightarrow> string \<Rightarrow> status option" where
  "account_test xl v s =
     (if is_account xl s then None else Some (key_msg (XrpldErr RpcActMalformed) ''Malformed'' v))"

definition hex_test ::
    "server \<Rightarrow> (string \<Rightarrow> 'h option) \<Rightarrow> field_view \<Rightarrow> string \<Rightarrow> status option" where
  "hex_test srv parseHex v s =
     (if is_hex parseHex s then None
      else Some (status_msg kMalformedField (malformedFieldMessage srv (fv_key v))))"

definition base58_test :: "server \<Rightarrow> xrpl_lib \<Rightarrow> field_view \<Rightarrow> string \<Rightarrow> status option" where
  "base58_test srv xl v s =
     (if is_base58_account xl s then None else Some (status_of (kMalformedAddress srv)))"

definition currency_test ::
    "(string \<Rightarrow> bool) \<Rightarrow> server \<Rightarrow> field_view \<Rightarrow> string \<Rightarrow> status option" where
  "currency_test P srv v s =
     (if P s then None
      else if s = [] then Some (key_msg (XrpldErr RpcInvalidParams) ''IsEmpty'' v)
      else Some (status_msg (kMalformedCurrency srv) ''malformedCurrency''))"

definition issuer_test :: "xrpl_lib \<Rightarrow> field_view \<Rightarrow> string \<Rightarrow> status option" where
  "issuer_test xl v s =
     (if is_issuer xl s then None
      else Some (status_msg (XrpldErr RpcInvalidParams) (''Invalid field '' @ q @ fv_key v @ q @
        (if xl_toIssuer xl s = None then '', bad issuer.'' else '', bad issuer account one.''))))"

definition credential_test :: "server \<Rightarrow> xrpl_lib \<Rightarrow> field_view \<Rightarrow> string \<Rightarrow> status option" where
  "credential_test srv xl v s =
     (if is_credential_type xl s then None
      else Some (key_msg (kMalformedAuthorizedCredentials srv)
        (case xl_strUnHex xl s of None \<Rightarrow> '' NotHexString''
         | Some b \<Rightarrow> if b = [] then '' is empty'' else '' greater than max length'') v))"

definition cursor_test :: "server \<Rightarrow> xrpl_lib \<Rightarrow> field_view \<Rightarrow> string \<Rightarrow> status option" where
  "cursor_test srv xl v s =
     (if is_cursor xl s then None
      else Some (status_msg kMalformedField (malformedCursorMessage srv (fv_key v))))"

definition type_test :: "(string \<Rightarrow> bool) \<Rightarrow> field_view \<Rightarrow> string \<Rightarrow> status option" where
  "type_test P v s =
     (if P s then None
      else Some (status_msg (XrpldErr RpcInvalidParams) (''Invalid field '' @ q @ fv_key v @ q @ ''.'')))"

interpretation account_format: optional_validator "AccountFormat_verify xl"
  "string_field (is_account xl)" "string_error not_string (account_test xl)" for xl
  by (rule string_test_validatorI)
    (auto simp: AccountFormat_verify_def string_test_def account_test_def is_account_def key_msg_def
      intro!: arg_cong2 [where f = obind])

interpretation hex_string: optional_validator "HexString_verify srv ph"
  "string_field (is_hex ph)"
  "string_error (\<lambda>v. status_msg kMalformedField (notStringFieldMessage srv (fv_key v)))
     (hex_test srv ph)" for srv ph
  by (rule string_test_validatorI)
    (auto simp: HexString_verify_def string_test_def hex_test_def is_hex_def
      intro!: arg_cong2 [where f = obind])

interpretation account_base58: optional_validator "AccountBase58_verify srv xl"
  "string_field (is_base58_account xl)" "string_error not_string (base58_test srv xl)" for srv xl
  by (rule string_test_validatorI)
    (auto simp: AccountBase58_verify_def string_test_def base58_test_def is_base58_account_def
      key_msg_def parseBase58Wrapper_def intro!: arg_cong2 [where f = obind] split: option.split)

interpretation currency: optional_validator "Currency_verify srv xl"
  "string_field (is_currency xl)" "string_error not_string (currency_test (is_currency xl) srv)"
  for srv xl
  by (rule string_test_validatorI)
    (auto simp: Currency_verify_def string_test_def currency_test_def is_currency_def key_msg_def
      intro!: arg_cong2 [where f = obind])

interpretation issuer: optional_validator "Issuer_verify xl"
  "string_field (is_issuer xl)" "string_error not_string (issuer_test xl)" for xl
  by (rule string_test_validatorI)
    (auto simp: Issuer_verify_def string_test_def issuer_test_def is_issuer_def key_msg_def
      intro!: arg_cong2 [where f = obind] split: option.split)

interpretation credential_type: optional_validator "CredentialType_verify srv xl"
  "string_field (is_credential_type xl)"
  "string_error (key_msg (kMalformedAuthorizedCredentials srv) '' NotString'')
     (credential_test srv xl)" for srv xl
  by (rule string_test_validatorI)
    (auto simp: CredentialType_verify_def string_test_def credential_test_def
      is_credential_type_def key_msg_def intro!: arg_cong2 [where f = obind] split: option.split)

interpretation account_type: optional_validator AccountType_verify
  "string_field (\<lambda>s. accountOwnedLedgerTypeFromStr s \<noteq> ltANY)"
  "string_error (\<lambda>v. status_msg (XrpldErr RpcInvalidParams)
      (''Invalid field '' @ q @ fv_key v @ q @ '', not string.''))
    (type_test (\<lambda>s. accountOwnedLedgerTypeFromStr s \<noteq> ltANY))"
  by (rule string_test_validatorI)
    (auto simp: AccountType_verify_def string_test_def type_test_def
      intro!: arg_cong2 [where f = obind])

interpretation ledger_entry_type: optional_validator LedgerEntryType_verify
  "string_field (\<lambda>s. ledgerEntryTypeFromStr s \<noteq> ltANY)"
  "string_error (\<lambda>v. status_msg (XrpldErr RpcInvalidParams)
      (''Invalid field '' @ q @ fv_key v @ q @ '', not string.''))
    (type_test (\<lambda>s. ledgerEntryTypeFromStr s \<noteq> ltANY))"
  by (rule string_test_validatorI)
    (auto simp: LedgerEntryType_verify_def string_test_def type_test_def
      intro!: arg_cong2 [where f = obind])

lemma cursor_hint:
  "(case from_chars_unsigned (2 ^ 64 - 1) t of (hint, ec, rest) \<Rightarrow>
      if ec \<noteq> NoError \<or> rest \<noteq> [] then x else y) =
   (if all_digits t \<and> dec_value 0 t < 2 ^ 64 then y else x)"
  using whole_match_unsigned [of "2 ^ 64 - 1" t]
  by (auto simp: whole_match_def split: prod.splits if_splits)

interpretation account_marker: optional_validator "AccountMarker_verify srv xl"
  "string_field (is_cursor xl)" "string_error not_string (cursor_test srv xl)" for srv xl
proof (rule string_test_validatorI)
  fix v
  show "AccountMarker_verify srv xl v = string_test not_string (cursor_test srv xl) v"
  proof (cases "isString v")
    case True
    then obtain s where "fv_value v = Some (JString s)" by (auto simp: isString_value)
    with True show ?thesis
      unfolding AccountMarker_verify_def cursor_hint
      by (auto simp: string_test_def cursor_test_def is_cursor_def is_hex_def Let_def
          split: option.split)
  next
    case False
    then show ?thesis
      by (simp add: AccountMarker_verify_def string_test_def key_msg_def Let_def)
  qed
qed (auto simp: cursor_test_def)

text \<open>The strict form runs the plain one first, so it can only fail with the plain one's errors.\<close>

interpretation strict_currency: optional_validator "StrictCurrency_verify srv xl"
  "string_field (is_strict_currency xl)"
  "string_error not_string (currency_test (is_strict_currency xl) srv)" for srv xl
proof (rule string_test_validatorI)
  fix v
  show "StrictCurrency_verify srv xl v =
      string_test not_string (currency_test (is_strict_currency xl) srv) v"
  proof (cases "isString v")
    case True
    then obtain s where "fv_value v = Some (JString s)" by (auto simp: isString_value)
    with True show ?thesis
      by (auto simp: StrictCurrency_verify_def Currency_verify_def string_test_def
          currency_test_def is_strict_currency_def key_msg_def Let_def split: option.split)
  next
    case False
    then show ?thesis
      by (simp add: StrictCurrency_verify_def Currency_verify_def string_test_def key_msg_def)
  qed
qed (auto simp: currency_test_def)

section \<open>Currency and issuer\<close>

definition CurrencyIssue_verify :: "server \<Rightarrow> xrpl_lib \<Rightarrow> requirement" where
  "CurrencyIssue_verify srv xl v =
     (let malformed = Fail (status_of (kMalformedRequest srv))
      in if \<not> present v then Ret ()
         else if \<not> isObject v then
           Fail (status_msg (XrpldErr RpcInvalidParams) (fv_key v @ ''NotObject''))
         else
           let currView = child v ''currency''
           in if \<not> present currView \<or> \<not> isString currView then malformed
              else obind (asString currView) (\<lambda>s.
                case xl_toCurrency xl s of
                  None \<Rightarrow> malformed
                | Some currency \<Rightarrow>
                    let issuerView = child v ''issuer''
                    in if xl_isXRP xl currency then (if present issuerView then malformed else Ret ())
                       else if \<not> present issuerView \<or> \<not> isString issuerView then malformed
                       else obind (asString issuerView) (\<lambda>t.
                         if xl_toIssuer xl t = None then malformed else Ret ())))"

text \<open>The JSON value of an issue: a currency, and an issuer exactly when it is not XRP.\<close>

definition is_currency_issue :: "xrpl_lib \<Rightarrow> field_view \<Rightarrow> bool" where
  "is_currency_issue xl v =
     (\<exists>s c. isObject v \<and> fv_value (child v ''currency'') = Some (JString s) \<and>
        xl_toCurrency xl s = Some c \<and>
        (if xl_isXRP xl c then \<not> present (child v ''issuer'')
         else \<exists>t a. fv_value (child v ''issuer'') = Some (JString t) \<and> xl_toIssuer xl t = Some a))"

interpretation currency_issue: optional_validator "CurrencyIssue_verify srv xl"
  "\<lambda>v. \<not> present v \<or> is_currency_issue xl v"
  "\<lambda>v. if isObject v then status_of (kMalformedRequest srv)
       else status_msg (XrpldErr RpcInvalidParams) (fv_key v @ ''NotObject'')" for srv xl
proof
  fix v
  show "CurrencyIssue_verify srv xl v =
      (if \<not> present v \<or> is_currency_issue xl v then Ret ()
       else Fail (if isObject v then status_of (kMalformedRequest srv)
         else status_msg (XrpldErr RpcInvalidParams) (fv_key v @ ''NotObject'')))"
  proof (cases "isObject v \<and> isString (child v ''currency'')")
    case True
    then obtain s where s: "fv_value (child v ''currency'') = Some (JString s)"
      by (auto simp: isString_value)
    show ?thesis
    proof (cases "isString (child v ''issuer'')")
      case True
      then obtain t where t: "fv_value (child v ''issuer'') = Some (JString t)"
        by (auto simp: isString_value)
      with True s \<open>isObject v \<and> _\<close> show ?thesis
        by (auto simp: CurrencyIssue_verify_def is_currency_issue_def Let_def split: option.split)
    next
      case False
      with s \<open>isObject v \<and> _\<close> show ?thesis
        by (auto simp: CurrencyIssue_verify_def is_currency_issue_def isString_value Let_def
            split: option.split)
    qed
  next
    case False
    then show ?thesis
      by (auto simp: CurrencyIssue_verify_def is_currency_issue_def isString_value Let_def)
  qed
qed simp

section \<open>Arrays\<close>

text \<open>\<^verbatim>\<open>for (i = 0; i < size; ++i)\<close> with a body that returns early on failure.\<close>

fun for_each :: "('i \<Rightarrow> unit parsed) \<Rightarrow> 'i list \<Rightarrow> unit parsed" where
  "for_each body [] = Ret ()"
| "for_each body (i # is) = obind (body i) (\<lambda>_. for_each body is)"

definition AccountIdArray_verify :: "xrpl_lib \<Rightarrow> nat \<Rightarrow> requirement" where
  "AccountIdArray_verify xl MaxSize v =
     (if \<not> present v then Ret ()
      else if \<not> isArray v then
        Fail (status_msg kMalformedField (expectedFieldMessage (fv_key v) ''array''))
      else
        let size = arraySize v
        in if size = 0 \<or> MaxSize < size then
             Fail (status_msg kMalformedField (expectedFieldMessage (fv_key v)
               (''an array of 1 to '' @ dec_digits MaxSize @ '' account IDs'')))
           else for_each (\<lambda>i.
             let elem = element v i;
                 bad = Fail (status_msg kMalformedField
                   (expectedFieldMessage (fv_key v) ''an array of account IDs''))
             in if \<not> isString elem then bad
                else obind (asString elem) (\<lambda>s.
                  if accountFromStringStrict xl s = None then bad else Ret ())) [0..<size])"

definition Hex256Array_verify :: "xrpl_lib \<Rightarrow> requirement" where
  "Hex256Array_verify xl v =
     (let bad = Fail (status_msg (XrpldErr RpcInvalidParams) ''Item is not a valid uint256 type.'')
      in if \<not> present v then Ret ()
         else if \<not> isArray v then Fail invalidParams
         else for_each (\<lambda>i.
           let elem = element v i
           in if \<not> isString elem then bad
              else obind (asString elem) (\<lambda>s.
                if xl_parseHex256 xl (c_str s) = None then bad else Ret ())) [0..<arraySize v])"

definition Uint192Array_verify :: "xrpl_lib \<Rightarrow> requirement" where
  "Uint192Array_verify xl v =
     (if \<not> present v then Ret ()
      else if \<not> isArray v \<or> arraySize v = 0 then Fail invalidParams
      else for_each (\<lambda>i.
        let elem = element v i
        in if \<not> isString elem then Fail invalidParams
           else obind (asString elem) (\<lambda>s.
             if xl_parseHex192 xl (c_str s) = None then Fail invalidParams else Ret ()))
        [0..<arraySize v])"

text \<open>The body of the loop of \<^verbatim>\<open>AuthorizeCredentialValidator\<close>, on one element.\<close>

definition credential_element_verify :: "server \<Rightarrow> xrpl_lib \<Rightarrow> requirement" where
  "credential_element_verify srv xl elem =
     (let bad = (\<lambda>m. Fail (status_msg (kMalformedAuthorizedCredentials srv) m))
      in if \<not> isObject elem then bad ''authorized_credentials elements in array are not objects.''
         else
           let issuerView = child elem ''issuer''
           in if \<not> present issuerView then
                bad (''Field '' @ q @ ''Issuer'' @ q @ '' is required but missing.'')
              else if AccountBase58_verify srv xl issuerView \<noteq> Ret () then bad ''issuer NotString''
              else
                let credView = child elem ''credential_type''
                in if \<not> present credView then
                     bad (''Field '' @ q @ ''CredentialType'' @ q @ '' is required but missing.'')
                   else CredentialType_verify srv xl credView)"

definition AuthorizeCredential_verify :: "server \<Rightarrow> xrpl_lib \<Rightarrow> requirement" where
  "AuthorizeCredential_verify srv xl v =
     (if \<not> present v then Ret ()
      else if \<not> isArray v then Fail (status_msg (kMalformedRequest srv) (fv_key v @ '' not array''))
      else
        let sz = arraySize v
        in if sz = 0 then
             Fail (status_msg (kMalformedAuthorizedCredentials srv)
               ''Requires at least one element in authorized_credentials array.'')
           else if xl_kMaxCredentialsArraySize xl < sz then
             Fail (status_msg (kMalformedAuthorizedCredentials srv)
               (''Max '' @ dec_digits (xl_kMaxCredentialsArraySize xl) @
                '' number of credentials in authorized_credentials array''))
           else for_each (\<lambda>i. credential_element_verify srv xl (element v i)) [0..<sz])"

section \<open>What the array validators accept\<close>

text \<open>A loop over bodies that are each a test: the verdict is that of the first failing index.\<close>

lemma for_each_find:
  assumes "\<And>i. i \<in> set is \<Longrightarrow> body i = (if P i then Ret () else Fail (e i))"
  shows "for_each body is = (case find (\<lambda>i. \<not> P i) is of None \<Rightarrow> Ret () | Some i \<Rightarrow> Fail (e i))"
  using assms by (induction "is") auto

lemma for_each_uniform:
  assumes "\<And>i. i \<in> set is \<Longrightarrow> body i = (if P i then Ret () else Fail e)"
  shows "for_each body is = (if \<forall>i \<in> set is. P i then Ret () else Fail e)"
  using assms by (induction "is") auto

definition array_all :: "(json \<Rightarrow> bool) \<Rightarrow> field_view \<Rightarrow> bool" where
  "array_all P v = (\<exists>xs. fv_value v = Some (JArray xs) \<and> list_all P xs)"

lemma isArray_value: "isArray v \<longleftrightarrow> (\<exists>xs. fv_value v = Some (JArray xs))"
  by (auto simp: isArray_def split: option.splits json.splits)

lemma array_value [simp]: "fv_value v = Some (JArray xs) \<Longrightarrow> arraySize v = length xs"
  by (simp add: arraySize_def)

lemma element_value [simp]:
  "fv_value v = Some (JArray xs) \<Longrightarrow> i < length xs \<Longrightarrow> fv_value (element v i) = Some (xs ! i)"
  by (simp add: element_def)

lemma array_all_index:
  "isArray v \<Longrightarrow>
     array_all P v \<longleftrightarrow> (\<forall>i < arraySize v. \<exists>x. fv_value (element v i) = Some x \<and> P x)"
  by (auto simp: array_all_def isArray_value list_all_length)

definition string_json :: "(string \<Rightarrow> bool) \<Rightarrow> json \<Rightarrow> bool" where
  "string_json P j = (case j of JString s \<Rightarrow> P s | _ \<Rightarrow> False)"

lemma string_json_iff: "string_json P j \<longleftrightarrow> (\<exists>s. j = JString s \<and> P s)"
  by (auto simp: string_json_def split: json.splits)

text \<open>The loop all three array validators run: every element is a text that parses.\<close>

lemma for_each_string_elements:
  assumes "isArray v"
  shows "for_each (\<lambda>i. let elem = element v i
      in if \<not> isString elem then Fail e
         else obind (asString elem) (\<lambda>s. if \<not> P s then Fail e else Ret ())) [0..<arraySize v] =
    (if array_all (string_json P) v then Ret () else Fail e)"
proof -
  have "(let elem = element v i
      in if \<not> isString elem then Fail e
         else obind (asString elem) (\<lambda>s. if \<not> P s then Fail e else Ret ())) =
    (if \<exists>x. fv_value (element v i) = Some x \<and> string_json P x then Ret () else Fail e)" for i
    using asString_isString [of "element v i"]
    by (cases "isString (element v i)") (auto simp: string_json_iff isString_value)
  then show ?thesis
    using assms array_all_index [of v "string_json P"]
    by (subst for_each_uniform [where P = "\<lambda>i. \<exists>x. fv_value (element v i) = Some x \<and> string_json P x"
        and e = e]) auto
qed

lemma not_account: "(accountFromStringStrict xl s = None) = (\<not> is_account xl s)"
  by (simp add: is_account_def)

lemma not_hex: "(ph (c_str s) = None) = (\<not> is_hex ph s)"
  by (simp add: is_hex_def)

interpretation account_id_array: optional_validator "AccountIdArray_verify xl n"
  "\<lambda>v. \<not> present v \<or> array_all (string_json (is_account xl)) v \<and> 0 < arraySize v \<and> arraySize v \<le> n"
  "\<lambda>v. status_msg kMalformedField (expectedFieldMessage (fv_key v)
     (if \<not> isArray v then ''array''
      else if arraySize v = 0 \<or> n < arraySize v
        then ''an array of 1 to '' @ dec_digits n @ '' account IDs''
      else ''an array of account IDs''))" for xl n
proof
  fix v
  have l: "isArray v \<Longrightarrow> for_each (\<lambda>i.
      let elem = element v i;
          bad = Fail (status_msg kMalformedField (expectedFieldMessage (fv_key v) ''an array of account IDs''))
      in if \<not> isString elem then bad
         else obind (asString elem) (\<lambda>s.
           if accountFromStringStrict xl s = None then bad else Ret ())) [0..<arraySize v] =
    (if array_all (string_json (is_account xl)) v then Ret ()
     else Fail (status_msg kMalformedField (expectedFieldMessage (fv_key v) ''an array of account IDs'')))"
    unfolding not_account Let_def by (rule for_each_string_elements [unfolded Let_def])
  show "AccountIdArray_verify xl n v =
      (if \<not> present v \<or> array_all (string_json (is_account xl)) v \<and> 0 < arraySize v \<and> arraySize v \<le> n
       then Ret () else Fail (status_msg kMalformedField (expectedFieldMessage (fv_key v)
     (if \<not> isArray v then ''array''
      else if arraySize v = 0 \<or> n < arraySize v
        then ''an array of 1 to '' @ dec_digits n @ '' account IDs''
      else ''an array of account IDs''))))"
  proof (cases "isArray v")
    case True
    then show ?thesis
      unfolding AccountIdArray_verify_def Let_def l [OF True, unfolded Let_def] by auto
  next
    case False
    then show ?thesis by (auto simp: AccountIdArray_verify_def array_all_def isArray_value)
  qed
qed simp

interpretation hex256_array: optional_validator "Hex256Array_verify xl"
  "\<lambda>v. \<not> present v \<or> array_all (string_json (is_hex (xl_parseHex256 xl))) v"
  "\<lambda>v. if isArray v then status_msg (XrpldErr RpcInvalidParams) ''Item is not a valid uint256 type.''
       else invalidParams" for xl
proof
  fix v
  show "Hex256Array_verify xl v =
      (if \<not> present v \<or> array_all (string_json (is_hex (xl_parseHex256 xl))) v then Ret ()
       else Fail (if isArray v then status_msg (XrpldErr RpcInvalidParams) ''Item is not a valid uint256 type.''
         else invalidParams))"
  proof (cases "isArray v")
    case True
    then show ?thesis
      unfolding Hex256Array_verify_def not_hex Let_def
        for_each_string_elements [OF True, unfolded Let_def] by simp
  next
    case False
    then show ?thesis by (auto simp: Hex256Array_verify_def array_all_def isArray_value)
  qed
qed simp

interpretation uint192_array: optional_validator "Uint192Array_verify xl"
  "\<lambda>v. \<not> present v \<or> array_all (string_json (is_hex (xl_parseHex192 xl))) v \<and> 0 < arraySize v"
  "\<lambda>v. invalidParams" for xl
proof
  fix v
  show "Uint192Array_verify xl v =
      (if \<not> present v \<or> array_all (string_json (is_hex (xl_parseHex192 xl))) v \<and> 0 < arraySize v
       then Ret () else Fail invalidParams)"
  proof (cases "isArray v")
    case True
    then show ?thesis
      unfolding Uint192Array_verify_def not_hex Let_def
        for_each_string_elements [OF True, unfolded Let_def] by auto
  next
    case False
    then show ?thesis by (auto simp: Uint192Array_verify_def array_all_def isArray_value)
  qed
qed simp

section \<open>Credentials\<close>

definition is_credential :: "xrpl_lib \<Rightarrow> json \<Rightarrow> bool" where
  "is_credential xl j =
     (\<exists>ms s t. j = JObject ms \<and>
        map_of ms ''issuer'' = Some (JString s) \<and> is_base58_account xl s \<and>
        map_of ms ''credential_type'' = Some (JString t) \<and> is_credential_type xl t)"

definition credential_error :: "server \<Rightarrow> xrpl_lib \<Rightarrow> field_view \<Rightarrow> status" where
  "credential_error srv xl elem =
     (case credential_element_verify srv xl elem of Fail e \<Rightarrow> e | _ \<Rightarrow> status_default)"

lemma child_object [simp]:
  "fv_value v = Some (JObject ms) \<Longrightarrow> fv_value (child v k) = map_of ms k"
  by (simp add: child_def)

lemma isObject_value: "isObject v \<longleftrightarrow> (\<exists>ms. fv_value v = Some (JObject ms))"
  by (auto simp: isObject_def split: option.splits json.splits)

lemma present_value: "present v \<longleftrightarrow> (\<exists>j. fv_value v = Some j)"
  by (auto simp: present_def)

lemma credential_element_no_throw: "\<not> throws (credential_element_verify srv xl v)"
  using credential_type.no_throw [of srv xl "child v ''credential_type''"]
  by (simp add: credential_element_verify_def Let_def)

lemma credential_element_passes:
  "credential_element_verify srv xl v = Ret () \<longleftrightarrow> (\<exists>j. fv_value v = Some j \<and> is_credential xl j)"
proof (cases "isObject v")
  case True
  then obtain ms where ms: "fv_value v = Some (JObject ms)" by (auto simp: isObject_value)
  have "credential_element_verify srv xl v = Ret () \<longleftrightarrow>
      present (child v ''issuer'') \<and> string_field (is_base58_account xl) (child v ''issuer'') \<and>
      present (child v ''credential_type'') \<and>
      string_field (is_credential_type xl) (child v ''credential_type'')"
    using True by (auto simp: credential_element_verify_def Let_def account_base58.passes_iff
        credential_type.passes_iff)
  with ms show ?thesis
    by (auto simp: string_field_def present_value is_credential_def)
next
  case False
  then show ?thesis
    by (auto simp: credential_element_verify_def Let_def isObject_value is_credential_def)
qed

lemma credential_element_eq:
  "credential_element_verify srv xl v =
     (if \<exists>j. fv_value v = Some j \<and> is_credential xl j then Ret ()
      else Fail (credential_error srv xl v))"
  using credential_element_passes [of srv xl v] credential_element_no_throw [of srv xl v]
  by (cases "credential_element_verify srv xl v") (auto simp: credential_error_def)

definition AuthorizeCredential_error :: "server \<Rightarrow> xrpl_lib \<Rightarrow> field_view \<Rightarrow> status" where
  "AuthorizeCredential_error srv xl v =
     (if \<not> isArray v then status_msg (kMalformedRequest srv) (fv_key v @ '' not array'')
      else if arraySize v = 0 then
        status_msg (kMalformedAuthorizedCredentials srv)
          ''Requires at least one element in authorized_credentials array.''
      else if xl_kMaxCredentialsArraySize xl < arraySize v then
        status_msg (kMalformedAuthorizedCredentials srv)
          (''Max '' @ dec_digits (xl_kMaxCredentialsArraySize xl) @
           '' number of credentials in authorized_credentials array'')
      else (case find (\<lambda>i. \<not> (\<exists>j. fv_value (element v i) = Some j \<and> is_credential xl j))
              [0..<arraySize v] of
          Some i \<Rightarrow> credential_error srv xl (element v i) | None \<Rightarrow> status_default))"

interpretation authorize_credential: optional_validator "AuthorizeCredential_verify srv xl"
  "\<lambda>v. \<not> present v \<or> array_all (is_credential xl) v \<and> 0 < arraySize v \<and>
     arraySize v \<le> xl_kMaxCredentialsArraySize xl" "AuthorizeCredential_error srv xl" for srv xl
proof
  fix v
  let ?P = "\<lambda>i. \<exists>j. fv_value (element v i) = Some j \<and> is_credential xl j"
  have l: "for_each (\<lambda>i. credential_element_verify srv xl (element v i)) [0..<arraySize v] =
      (case find (\<lambda>i. \<not> ?P i) [0..<arraySize v] of
         None \<Rightarrow> Ret () | Some i \<Rightarrow> Fail (credential_error srv xl (element v i)))"
    by (rule for_each_find) (rule credential_element_eq)
  have f: "find (\<lambda>i. \<not> ?P i) [0..<arraySize v] = None \<longleftrightarrow> array_all (is_credential xl) v"
    if "isArray v"
    using array_all_index [OF that, of "is_credential xl"] by (auto simp: find_None_iff)
  show "AuthorizeCredential_verify srv xl v =
      (if \<not> present v \<or> array_all (is_credential xl) v \<and> 0 < arraySize v \<and>
          arraySize v \<le> xl_kMaxCredentialsArraySize xl
       then Ret () else Fail (AuthorizeCredential_error srv xl v))"
  proof (cases "isArray v")
    case True
    then show ?thesis
      unfolding AuthorizeCredential_verify_def AuthorizeCredential_error_def Let_def l
      using f by (auto split: option.split)
  next
    case False
    then show ?thesis
      by (auto simp: AuthorizeCredential_verify_def AuthorizeCredential_error_def array_all_def
          isArray_value)
  qed
qed simp

section \<open>Cursors\<close>

lemma split_comma_iff:
  "split_comma s = Some (h, t) \<longleftrightarrow> s = h @ CHR '','' # t \<and> CHR '','' \<notin> set h"
proof
  assume "split_comma s = Some (h, t)"
  then have c: "CHR '','' \<in> set s" and h: "h = takeWhile (\<lambda>c. c \<noteq> CHR '','') s"
    and t: "t = drop 1 (dropWhile (\<lambda>c. c \<noteq> CHR '','') s)"
    by (auto simp: split_comma_def split: if_splits)
  from c have ne: "dropWhile (\<lambda>c. c \<noteq> CHR '','') s \<noteq> []"
    by simp
  then have "hd (dropWhile (\<lambda>c. c \<noteq> CHR '','') s) = CHR '',''"
    using hd_dropWhile [OF ne] by blast
  with ne have d: "dropWhile (\<lambda>c. c \<noteq> CHR '','') s = CHR '','' # t"
    unfolding t by (cases "dropWhile (\<lambda>c. c \<noteq> CHR '','') s") simp_all
  have "s = h @ CHR '','' # t"
    unfolding h d [symmetric] by simp
  moreover have "CHR '','' \<notin> set h" unfolding h by (auto dest: set_takeWhileD)
  ultimately show "s = h @ CHR '','' # t \<and> CHR '','' \<notin> set h" by blast
next
  assume "s = h @ CHR '','' # t \<and> CHR '','' \<notin> set h"
  then show "split_comma s = Some (h, t)"
    by (auto simp: split_comma_def takeWhile_append dropWhile_append)
qed

section \<open>Properties\<close>

text \<open>
  C23: the credential list check accepts exactly an absent field and an array of one to
  \<^verbatim>\<open>kMaxCredentialsArraySize\<close> objects, each with a text \<open>issuer\<close> that is the base58 form of a
  non-zero account and a text \<open>credential_type\<close> that is hex of one to
  \<^verbatim>\<open>kMaxCredentialTypeLength\<close> bytes.
\<close>

theorem AuthorizeCredential_accepts:
  "AuthorizeCredential_verify srv xl v = Ret () \<longleftrightarrow>
     fv_value v = None \<or>
     (\<exists>xs. fv_value v = Some (JArray xs) \<and> 0 < length xs \<and>
        length xs \<le> xl_kMaxCredentialsArraySize xl \<and> list_all (is_credential xl) xs)"
  by (auto simp: authorize_credential.passes_iff present_def array_all_def)

text \<open>
  The account cursor check accepts exactly the texts with a comma whose part before the first
  comma, up to a NUL, parses as a 256-bit hash and whose rest is the decimal form of an unsigned
  64-bit number.
\<close>

theorem AccountMarker_accepts:
  "AccountMarker_verify srv xl v = Ret () \<longleftrightarrow>
     fv_value v = None \<or>
     (\<exists>h t. fv_value v = Some (JString (h @ CHR '','' # t)) \<and> CHR '','' \<notin> set h \<and>
        xl_parseHex256 xl (c_str h) \<noteq> None \<and> all_digits t \<and> dec_value 0 t < 2 ^ 64)"
  by (auto simp: account_marker.passes_iff string_field_def present_def is_cursor_def is_hex_def
      split_comma_iff)

end
