(* ===== verification/RpcConverters.thy ===== *)
theory RpcConverters
  imports RpcTyped RpcValidatorsXrpl
begin

text \<open>
  \<^verbatim>\<open>include/rpcspec/Converters.hpp\<close>, \<^verbatim>\<open>Account.hpp\<close>, \<^verbatim>\<open>Asset.hpp\<close>, \<^verbatim>\<open>JsonBool.hpp\<close> and
  \<^verbatim>\<open>DeferredTypes.hpp\<close>: the converters that turn a present field into a member value. Most check
  what they read and are total; the vector converters trust the array validators and throw where
  those did not run. The locale \<open>converter\<close> names what a converter relies on, and its lemma makes
  any bound field safe whose items establish it.
\<close>

section \<open>The contract of a converter\<close>

locale converter =
  fixes conv :: "'m converter"
    and pre :: "field_view \<Rightarrow> bool"
  assumes no_throw: "pre v \<Longrightarrow> \<not> throws (conv v)"
begin

lemma bound_field_safe:
  assumes "list_all item_ok (bf_items f)" and "bf_conv f = conv"
    and "\<And>v v'. runProcessors (bf_items f) v = (v', Ret ()) \<Longrightarrow> present v' \<Longrightarrow> pre v'"
  shows "bound_field_safe f"
  using assms no_throw by (auto simp: bound_field_safe_def)

end

section \<open>Scalars\<close>

definition AccountIdConverter_parse :: "server \<Rightarrow> xrpl_lib \<Rightarrow> account_id converter" where
  "AccountIdConverter_parse srv xl v =
     (if \<not> isString v then
        Fail (status_msg (XrpldErr RpcInvalidParams) (notStringFieldMessage srv (fv_key v)))
      else obind (asString v) (\<lambda>s.
        if kIsXrpldBuild srv
        then (case xl_parseBase58Account xl s of
            None \<Rightarrow> Fail (status_of (XrpldErr RpcActMalformed))
          | Some i \<Rightarrow> Ret i)
        else (case accountFromStringStrict xl s of
            None \<Rightarrow> Fail (status_msg (XrpldErr RpcActMalformed) (fv_key v @ ''Malformed''))
          | Some i \<Rightarrow> Ret i)))"

text \<open>The two instances of \<^verbatim>\<open>HexConverterBase\<close>: the parsed value, and the text itself.\<close>

definition HexConverter_parse :: "server \<Rightarrow> (string \<Rightarrow> 'h option) \<Rightarrow> 'h converter" where
  "HexConverter_parse srv parseHex v =
     (if \<not> isString v then
        Fail (status_msg kMalformedField (notStringFieldMessage srv (fv_key v)))
      else obind (asString v) (\<lambda>s.
        case parseHex (c_str s) of
          None \<Rightarrow> Fail (status_msg kMalformedField (malformedFieldMessage srv (fv_key v)))
        | Some h \<Rightarrow> Ret h))"

definition LedgerHashConverter_parse :: "server \<Rightarrow> xrpl_lib \<Rightarrow> string converter" where
  "LedgerHashConverter_parse srv xl v =
     obind (HexConverter_parse srv (xl_parseHex256 xl) v) (\<lambda>_. asString v)"

definition Uint256HexConverter_parse :: "server \<Rightarrow> xrpl_lib \<Rightarrow> uint256 converter" where
  "Uint256HexConverter_parse srv xl = HexConverter_parse srv (xl_parseHex256 xl)"

definition Uint192HexConverter_parse :: "server \<Rightarrow> xrpl_lib \<Rightarrow> uint192 converter" where
  "Uint192HexConverter_parse srv xl = HexConverter_parse srv (xl_parseHex192 xl)"

definition JsonBoolConverter_parse :: "bool \<Rightarrow> bool converter" where
  "JsonBoolConverter_parse Strict v =
     (if Strict then
        (if \<not> isBool v then Fail invalidParams else asBool v)
      else if isBool v then asBool v
      else if isUint32 v then omap (\<lambda>u. u \<noteq> 0) (asUint32 v)
      else if isInt64 v then omap (\<lambda>i. i \<noteq> 0) (asInt64 v)
      else if isDouble v then omap (\<lambda>d. d \<noteq> 0) (asDouble v)
      else if isString v then omap (\<lambda>text. text \<noteq> [] \<and> text ! 0 \<noteq> CHR 0x00) (asString v)
      else if isArray v then Ret (arraySize v \<noteq> 0)
      else if isObject v then Ret (objectSize v \<noteq> 0)
      else Ret False)"

definition Uint32Converter_parse :: "uint32 converter" where
  "Uint32Converter_parse v = (if \<not> isUint32 v then Fail invalidParams else asUint32 v)"

definition StringConverter_parse :: "string converter" where
  "StringConverter_parse v = (if \<not> isString v then Fail invalidParams else asString v)"

definition AccountIdActMalformedConverter_parse :: "xrpl_lib \<Rightarrow> account_id converter" where
  "AccountIdActMalformedConverter_parse xl v =
     (let malformed = Fail (status_of (XrpldErr RpcActMalformed))
      in if isString v
         then obind (asString v) (\<lambda>s.
           case accountFromStringStrict xl s of Some i \<Rightarrow> Ret i | None \<Rightarrow> malformed)
         else malformed)"

section \<open>Vectors\<close>

fun push_all :: "('i \<Rightarrow> 'a parsed) \<Rightarrow> 'i list \<Rightarrow> 'a list \<Rightarrow> 'a list parsed" where
  "push_all body [] acc = Ret acc"
| "push_all body (i # is) acc = obind (body i) (\<lambda>x. push_all body is (acc @ [x]))"

definition AccountIdVecConverter_parse :: "xrpl_lib \<Rightarrow> account_id list option converter" where
  "AccountIdVecConverter_parse xl v =
     omap Some (push_all (\<lambda>i. obind (asString (element v i)) (accountFromValidated xl))
       [0..<arraySize v] [])"

definition Uint192VecConverter_parse :: "xrpl_lib \<Rightarrow> uint192 list option converter" where
  "Uint192VecConverter_parse xl v =
     omap Some (push_all (\<lambda>i. obind (asString (element v i)) (uint192FromValidated xl))
       [0..<arraySize v] [])"

section \<open>Cursors\<close>

datatype MalformedMarker = NamesField | InvalidParamsMarker

definition AccountMarkerStrConverter_parse ::
    "server \<Rightarrow> xrpl_lib \<Rightarrow> MalformedMarker \<Rightarrow> string converter" where
  "AccountMarkerStrConverter_parse srv xl OnXrpld v =
     (if \<not> isString v then
        Fail (status_msg (XrpldErr RpcInvalidParams)
          (if kIsXrpldBuild srv then expectedFieldMessage (fv_key v) ''string''
           else notStringFieldMessage srv (fv_key v)))
      else obind (asString v) (\<lambda>sv.
        let malformed =
          (if kIsXrpldBuild srv \<and> OnXrpld = InvalidParamsMarker then Fail invalidParams
           else Fail (status_msg kMalformedField (malformedCursorMessage srv (fv_key v))))
        in case split_comma sv of
             None \<Rightarrow> malformed
           | Some (hexPart, hintPart) \<Rightarrow>
               if xl_parseHex256 xl (c_str hexPart) = None then malformed
               else
                 let hint1 = (if kIsXrpldBuild srv
                       then takeWhile (\<lambda>c. c \<noteq> CHR '','') hintPart else hintPart);
                     hint2 = (if kIsXrpldBuild srv \<and> starts_with CHR ''+'' hint1
                       then drop 1 hint1 else hint1)
                 in case from_chars_unsigned (2 ^ 64 - 1) hint2 of (hint, ec, rest) \<Rightarrow>
                      if ec \<noteq> NoError \<or> rest \<noteq> [] then malformed else Ret sv))"

section \<open>Deferred values\<close>

datatype DeferredError = Missing | Malformed | Invalid

type_synonym 'a deferred = "DeferredError + 'a"

text \<open>
  \<^verbatim>\<open>EmptyAsAbsentConverter\<close>: \<open>absent\<close> and \<open>wrap\<close> are \<^verbatim>\<open>AbsentValue::get\<close> and the conversion to
  \<^verbatim>\<open>AbsentValue::Type\<close>, which \<open>emptyAsAbsent\<close> and \<open>emptyAsAbsent_deferred\<close> instantiate.
\<close>

definition EmptyAsAbsentConverter_parse ::
    "server \<Rightarrow> 'b \<Rightarrow> ('a \<Rightarrow> 'b) \<Rightarrow> 'a converter \<Rightarrow> 'b converter" where
  "EmptyAsAbsentConverter_parse srv absent wrap conv v =
     (let otherwise = omap wrap (conv v)
      in if kIsXrpldBuild srv \<and> isString v
         then obind (asString v) (\<lambda>s. if s = [] then Ret absent else otherwise)
         else otherwise)"

definition emptyAsAbsent :: "server \<Rightarrow> 'a converter \<Rightarrow> 'a option converter" where
  "emptyAsAbsent srv = EmptyAsAbsentConverter_parse srv None Some"

definition emptyAsAbsent_deferred :: "server \<Rightarrow> 'a deferred converter \<Rightarrow> 'a deferred converter" where
  "emptyAsAbsent_deferred srv = EmptyAsAbsentConverter_parse srv (Inl Missing) id"

datatype NonStringAccount = Fails | Deferred

definition DeferredAccountIdConverter_parse ::
    "server \<Rightarrow> xrpl_lib \<Rightarrow> account_id converter \<Rightarrow> NonStringAccount \<Rightarrow> account_id deferred converter"
  where
  "DeferredAccountIdConverter_parse srv xl clioConv nonString v =
     (if kIsXrpldBuild srv then
        (case AccountIdConverter_parse srv xl v of
          Ret i \<Rightarrow> Ret (Inr i)
        | Fail e \<Rightarrow>
            if isString v \<or> nonString = Deferred then Ret (Inl Malformed) else Fail e
        | Throw x \<Rightarrow> Throw x)
      else omap Inr (clioConv v))"

text \<open>
  \<^verbatim>\<open>detail::assetFromView\<close>. The MPT id is parsed from the \<^verbatim>\<open>std::string\<close> and not through
  \<^verbatim>\<open>c_str()\<close>.
\<close>

definition assetFromView :: "xrpl_lib \<Rightarrow> field_view \<Rightarrow> asset deferred parsed" where
  "assetFromView xl v =
     (let malformed = Ret (Inl Malformed);
          currencyView = child v ''currency'';
          mptView = child v ''mpt_issuance_id'';
          issuerView = child v ''issuer''
      in if \<not> isObject v then malformed
         else if present currencyView then
           (if present mptView \<or> \<not> isString currencyView then malformed
            else obind (asString currencyView) (\<lambda>s.
              case xl_toCurrency xl s of
                None \<Rightarrow> malformed
              | Some currency \<Rightarrow>
                  if currency = xl_badCurrency xl \<or> currency = xl_noCurrency xl then malformed
                  else if xl_isXRP xl currency then
                    (if present issuerView \<and> \<not> isNull issuerView then malformed
                     else Ret (Inr (AssetIssue (xl_xrpIssue xl))))
                  else if \<not> isString issuerView then malformed
                  else obind (asString issuerView) (\<lambda>t.
                    case xl_parseBase58Account xl t of
                      None \<Rightarrow> malformed
                    | Some issuer \<Rightarrow>
                        if issuer = xl_noAccount xl \<or> issuer = xl_xrpAccount xl then malformed
                        else Ret (Inr (AssetIssue (Issue currency issuer))))))
         else if \<not> present mptView \<or> present issuerView \<or> \<not> isString mptView then malformed
         else obind (asString mptView) (\<lambda>s.
           case xl_parseHex192 xl s of
             None \<Rightarrow> malformed
           | Some i \<Rightarrow> Ret (Inr (AssetMPT i))))"

definition DeferredAssetConverter_parse ::
    "server \<Rightarrow> xrpl_lib \<Rightarrow> asset converter \<Rightarrow> asset deferred converter" where
  "DeferredAssetConverter_parse srv xl clioConv v =
     (if kIsXrpldBuild srv then assetFromView xl v else omap Inr (clioConv v))"

section \<open>Total converters\<close>

lemma throws_asString:
  "isString v \<Longrightarrow> throws (obind (asString v) k) \<longleftrightarrow> (\<exists>s. fv_value v = Some (JString s) \<and> throws (k s))"
  using asString_isString [of v] by auto

interpretation conv_account: converter "AccountIdConverter_parse srv xl" "\<lambda>v. True" for srv xl
  by unfold_locales
    (auto simp: AccountIdConverter_parse_def throws_asString split: option.splits if_splits)

interpretation conv_hex: converter "HexConverter_parse srv ph" "\<lambda>v. True" for srv ph
  by unfold_locales (auto simp: HexConverter_parse_def throws_asString split: option.splits)

interpretation conv_bool: converter "JsonBoolConverter_parse st" "\<lambda>v. True" for st
  by unfold_locales
    (auto simp: JsonBoolConverter_parse_def dest: asBool_isBool asUint32_isUint32 asInt64_isInt64
      asDouble_isDouble asString_isString)

interpretation conv_uint32: converter Uint32Converter_parse "\<lambda>v. True"
  by unfold_locales (auto simp: Uint32Converter_parse_def dest: asUint32_isUint32)

interpretation conv_string: converter StringConverter_parse "\<lambda>v. True"
  by unfold_locales (auto simp: StringConverter_parse_def dest: asString_isString)

interpretation conv_account_malformed: converter "AccountIdActMalformedConverter_parse xl" "\<lambda>v. True"
  for xl
  by unfold_locales
    (auto simp: AccountIdActMalformedConverter_parse_def Let_def throws_asString
      split: option.splits)

lemma HexConverter_Ret: "HexConverter_parse srv ph v = Ret h \<Longrightarrow> isString v"
  by (auto simp: HexConverter_parse_def split: if_splits)

interpretation conv_ledger_hash: converter "LedgerHashConverter_parse srv xl" "\<lambda>v. True" for srv xl
proof
  fix v
  show "\<not> throws (LedgerHashConverter_parse srv xl v)"
    using conv_hex.no_throw [of srv "xl_parseHex256 xl" v]
      HexConverter_Ret [of srv "xl_parseHex256 xl" v] asString_isString [of v]
    by (cases "HexConverter_parse srv (xl_parseHex256 xl) v")
      (auto simp: LedgerHashConverter_parse_def)
qed

interpretation conv_marker: converter "AccountMarkerStrConverter_parse srv xl m" "\<lambda>v. True" for srv xl m
  by unfold_locales
    (auto simp: AccountMarkerStrConverter_parse_def Let_def throws_asString
      split: option.splits prod.splits if_splits)

lemma converter_emptyAsAbsent:
  assumes "converter conv pre"
  shows "converter (EmptyAsAbsentConverter_parse srv a w conv) pre"
  using assms by (auto simp: converter_def EmptyAsAbsentConverter_parse_def Let_def
      throws_asString split: if_splits)

interpretation conv_asset: converter "assetFromView xl" "\<lambda>v. True" for xl
  by unfold_locales
    (auto simp: assetFromView_def Let_def throws_asString split: option.splits if_splits)

lemma converter_deferred_asset:
  assumes "converter conv pre"
  shows "converter (DeferredAssetConverter_parse srv xl conv) pre"
  using assms conv_asset.no_throw by (auto simp: converter_def DeferredAssetConverter_parse_def)

lemma converter_deferred_account:
  assumes "converter conv pre"
  shows "converter (DeferredAccountIdConverter_parse srv xl conv n) pre"
  using assms conv_account.no_throw [of srv xl]
  by (auto simp: converter_def DeferredAccountIdConverter_parse_def split: outcome.split)
    (metis throws_simps(3))+

section \<open>Vectors behind their validators\<close>

lemma push_all_Ret:
  assumes "\<And>i. i \<in> set is \<Longrightarrow> body i = Ret (g i)"
  shows "push_all body is acc = Ret (acc @ map g is)"
  using assms by (induction "is" arbitrary: acc) auto

lemma push_all_array:
  assumes "fv_value v = Some (JArray xs)"
    and "\<And>x. x \<in> set xs \<Longrightarrow> \<exists>s. x = JString s \<and> f s = Ret (g s)"
  shows "push_all (\<lambda>i. obind (asString (element v i)) f) [0..<arraySize v] [] =
    Ret (map (\<lambda>x. case x of JString s \<Rightarrow> g s) xs)"
proof -
  have "push_all (\<lambda>i. obind (asString (element v i)) f) [0..<arraySize v] [] =
      Ret ([] @ map (\<lambda>i. case xs ! i of JString s \<Rightarrow> g s) [0..<arraySize v])"
  proof (rule push_all_Ret)
    fix i assume "i \<in> set [0..<arraySize v]"
    then have i: "i < length xs" using assms(1) by simp
    then obtain s where "xs ! i = JString s" "f s = Ret (g s)" using assms(2) nth_mem by blast
    with assms(1) i show "obind (asString (element v i)) f = Ret (case xs ! i of JString s \<Rightarrow> g s)"
      by (simp add: asString_def)
  qed
  moreover have "map (\<lambda>i. case xs ! i of JString s \<Rightarrow> g s) [0..<length xs] =
      map (\<lambda>x. case x of JString s \<Rightarrow> g s) xs"
    by (rule nth_equalityI) simp_all
  ultimately show ?thesis using assms(1) by simp
qed

definition string_of :: "json \<Rightarrow> string" where
  "string_of j = (case j of JString s \<Rightarrow> s | _ \<Rightarrow> [])"

lemma AccountIdVec_after_array:
  assumes "array_all (string_json (is_account xl)) v"
  shows "\<exists>xs. fv_value v = Some (JArray xs) \<and> AccountIdVecConverter_parse xl v =
    Ret (Some (map (\<lambda>x. the (accountFromStringStrict xl (string_of x))) xs))"
proof -
  obtain xs where xs: "fv_value v = Some (JArray xs)" "list_all (string_json (is_account xl)) xs"
    using assms by (auto simp: array_all_def)
  have "push_all (\<lambda>i. obind (asString (element v i)) (accountFromValidated xl)) [0..<arraySize v] [] =
      Ret (map (\<lambda>x. case x of JString s \<Rightarrow> the (accountFromStringStrict xl s)) xs)"
    using xs by (intro push_all_array)
      (auto simp: list_all_iff string_json_iff is_account_def accountFromValidated_def)
  moreover have "map (\<lambda>x. case x of JString s \<Rightarrow> the (accountFromStringStrict xl s)) xs =
      map (\<lambda>x. the (accountFromStringStrict xl (string_of x))) xs"
    using xs(2) by (intro map_cong) (auto simp: list_all_iff string_json_iff string_of_def)
  ultimately show ?thesis using xs(1) by (simp add: AccountIdVecConverter_parse_def)
qed

lemma Uint192Vec_after_array:
  assumes "array_all (string_json (is_hex (xl_parseHex192 xl))) v"
  shows "\<exists>xs. fv_value v = Some (JArray xs) \<and> Uint192VecConverter_parse xl v =
    Ret (Some (map (\<lambda>x. the (xl_parseHex192 xl (c_str (string_of x)))) xs))"
proof -
  obtain xs where xs: "fv_value v = Some (JArray xs)"
    "list_all (string_json (is_hex (xl_parseHex192 xl))) xs"
    using assms by (auto simp: array_all_def)
  have "push_all (\<lambda>i. obind (asString (element v i)) (uint192FromValidated xl)) [0..<arraySize v] [] =
      Ret (map (\<lambda>x. case x of JString s \<Rightarrow> the (xl_parseHex192 xl (c_str s))) xs)"
    using xs by (intro push_all_array)
      (auto simp: list_all_iff string_json_iff is_hex_def uint192FromValidated_def)
  moreover have "map (\<lambda>x. case x of JString s \<Rightarrow> the (xl_parseHex192 xl (c_str s))) xs =
      map (\<lambda>x. the (xl_parseHex192 xl (c_str (string_of x)))) xs"
    using xs(2) by (intro map_cong) (auto simp: list_all_iff string_json_iff string_of_def)
  ultimately show ?thesis using xs(1) by (simp add: Uint192VecConverter_parse_def)
qed

interpretation conv_account_vec: converter "AccountIdVecConverter_parse xl"
  "array_all (string_json (is_account xl))" for xl
  by unfold_locales (use AccountIdVec_after_array in fastforce)

interpretation conv_uint192_vec: converter "Uint192VecConverter_parse xl"
  "array_all (string_json (is_hex (xl_parseHex192 xl)))" for xl
  by unfold_locales (use Uint192Vec_after_array in fastforce)

lemma runProcessors_requirement_Ret [simp]:
  "sbind (v, f v) (\<lambda>_. runProcessors its) = (v', Ret ()) \<longleftrightarrow>
     f v = Ret () \<and> runProcessors its v = (v', Ret ())" for f :: requirement
  by (cases "f v") simp_all

section \<open>Properties\<close>

text \<open>
  A bound field that runs \<^verbatim>\<open>accountIdArray\<close> and then the account vector converter never throws
  on any document, whatever key and member it binds: the precondition the converter trusts is what
  the validator checked.
\<close>

theorem account_vec_field_safe:
  "tfield_safe (bound \<lparr>bf_key = k, bf_member = m, bf_assign = asg,
     bf_conv = AccountIdVecConverter_parse xl,
     bf_items = [requirement_item (AccountIdArray_verify xl n)]\<rparr>)"
  by (intro tfield_safe_bound conv_account_vec.bound_field_safe)
    (auto simp: account_id_array.item_ok account_id_array.passes_iff)

text \<open>
  On a present array the validator passed, the vector converter returns one account id per
  element, in order, each the account the element's text denotes.
\<close>

theorem AccountIdArray_then_vec:
  assumes "AccountIdArray_verify xl n v = Ret ()" and "fv_value v = Some (JArray xs)"
  shows "length xs \<in> {1..n} \<and>
    (\<exists>ids. AccountIdVecConverter_parse xl v = Ret (Some ids) \<and>
       list_all2 (\<lambda>x i. \<exists>s. x = JString s \<and> accountFromStringStrict xl s = Some i) xs ids)"
proof -
  have a: "array_all (string_json (is_account xl)) v" "0 < arraySize v" "arraySize v \<le> n"
    using assms by (auto simp: account_id_array.passes_iff present_def)
  then have l: "list_all (string_json (is_account xl)) xs"
    using assms(2) by (auto simp: array_all_def)
  obtain ys where ys: "fv_value v = Some (JArray ys)" "AccountIdVecConverter_parse xl v =
      Ret (Some (map (\<lambda>x. the (accountFromStringStrict xl (string_of x))) ys))"
    using AccountIdVec_after_array [OF a(1)] by blast
  have "ys = xs" using ys(1) assms(2) by simp
  moreover have "list_all2 (\<lambda>x i. \<exists>s. x = JString s \<and> accountFromStringStrict xl s = Some i) xs
      (map (\<lambda>x. the (accountFromStringStrict xl (string_of x))) xs)"
    using l by (auto simp: list_all2_map2 list_all2_same list_all_iff string_json_iff string_of_def
        is_account_def)
  ultimately show ?thesis using a assms(2) ys(2) by (auto simp: Suc_le_eq)
qed

theorem AccountIdArray_then_vec_witness:
  "\<exists>ids. AccountIdVecConverter_parse sample_lib
      \<lparr>fv_key = ''accounts'', fv_value = Some (JArray [JString ''rX1'']), fv_writable = False\<rparr> =
        Ret (Some ids)"
proof -
  let ?v = "\<lparr>fv_key = ''accounts'', fv_value = Some (JArray [JString ''rX1'']), fv_writable = False\<rparr>"
  have "accountFromStringStrict sample_lib ''rX1'' = Some 49"
    by (simp add: accountFromStringStrict_def sample_lib_def parseBase58Wrapper_def isalnum_def
        is_digit_def is_upper_def is_lower_def sample_account_def hex_digit_def Let_def numeral_eq_Suc)
  then have "AccountIdArray_verify sample_lib 4 ?v = Ret ()"
    by (simp add: account_id_array.passes_iff array_all_def string_json_def is_account_def)
  from AccountIdArray_then_vec [OF this, of "[JString ''rX1'']"] show ?thesis by auto
qed

text \<open>
  What the lenient bool converter makes of a value. An unsigned integer above the \<^verbatim>\<open>int64_t\<close> range
  has no reading among the kinds the converter asks for and falls through to false.
\<close>

fun truthy :: "json \<Rightarrow> bool" where
  "truthy JNull = False"
| "truthy (JBool b) = b"
| "truthy (JInt64 i) = (i \<noteq> 0)"
| "truthy (JUint64 u) = (u \<noteq> 0 \<and> unat u < 2 ^ 63)"
| "truthy (JDouble d) = (d \<noteq> 0)"
| "truthy (JString s) = (s \<noteq> [] \<and> hd s \<noteq> CHR 0x00)"
| "truthy (JArray xs) = (xs \<noteq> [])"
| "truthy (JObject ms) = (ms \<noteq> [])"

lemma uint_zero_iff: "uint (u :: 'a::len word) = 0 \<longleftrightarrow> u = 0"
  by (rule unsigned_eq_0_iff)

lemma asUint32_zero:
  assumes "isUint32 v"
  shows "omap (\<lambda>u. u \<noteq> 0) (asUint32 v) = Ret (\<not> int_value v = Some 0)"
  using asUint32_isUint32 [OF assms] by (auto simp: uint_zero_iff)

text \<open>
  The lenient bool converter is total on every JSON value and agrees with the truth value of
  the value: false exactly for null, \<open>false\<close>, zero, the empty or NUL-led text, the empty array and
  object, and the unsigned integers of \<open>2 ^ 63\<close> and more.
\<close>

theorem jsonBool_truthy:
  "JsonBoolConverter_parse False \<lparr>fv_key = k, fv_value = Some j, fv_writable = w\<rparr> = Ret (truthy j)"
proof (cases j)
  case (JInt64 i)
  let ?v = "\<lparr>fv_key = k, fv_value = Some (JInt64 i), fv_writable = w\<rparr>"
  have "isUint32 ?v \<Longrightarrow> omap (\<lambda>u. u \<noteq> 0) (asUint32 ?v) = Ret (i \<noteq> 0)"
    by (subst asUint32_zero) (simp_all add: int_value_def signed_eq_0_iff)
  then show ?thesis
    using JInt64 by (auto simp: JsonBoolConverter_parse_def isBool_def isInt64_def asInt64_def)
next
  case (JUint64 u)
  let ?v = "\<lparr>fv_key = k, fv_value = Some (JUint64 u), fv_writable = w\<rparr>"
  have "isUint32 ?v \<Longrightarrow> omap (\<lambda>u. u \<noteq> 0) (asUint32 ?v) = Ret (u \<noteq> 0)"
    by (subst asUint32_zero) (simp_all add: int_value_def uint_zero_iff)
  moreover have "isUint32 ?v \<Longrightarrow> unat u < 2 ^ 63" by (simp add: isUint32_def)
  ultimately show ?thesis
    using JUint64
    by (auto simp: JsonBoolConverter_parse_def isBool_def isInt64_def asInt64_def isDouble_def
        isString_def isArray_def isObject_def)
qed (auto simp: JsonBoolConverter_parse_def view_kind_defs view_read_defs hd_conv_nth)

text \<open>
  The ledger hash converter returns a text exactly when the part of it before the first NUL is
  a 256-bit hash, and returns the whole text then; a hash followed by a NUL and anything else comes
  back as it was sent.
\<close>

theorem LedgerHashConverter_iff:
  "(LedgerHashConverter_parse srv xl v = Ret s \<longleftrightarrow>
     fv_value v = Some (JString s) \<and> xl_parseHex256 xl (c_str s) \<noteq> None) \<and>
   (fv_value v = Some (JString (h @ CHR 0x00 # t)) \<and> CHR 0x00 \<notin> set h \<and> xl_parseHex256 xl h = Some x \<longrightarrow>
     LedgerHashConverter_parse srv xl v = Ret (h @ CHR 0x00 # t))"
proof -
  have "LedgerHashConverter_parse srv xl v = Ret s \<longleftrightarrow>
     fv_value v = Some (JString s) \<and> xl_parseHex256 xl (c_str s) \<noteq> None" for s
    by (cases "isString v")
      (auto simp: LedgerHashConverter_parse_def HexConverter_parse_def isString_value
        split: option.splits)
  then show ?thesis by (simp add: c_str_append_nul)
qed

theorem LedgerHashConverter_iff_witness:
  "LedgerHashConverter_parse Clio (sample_lib\<lparr>xl_parseHex256 := (\<lambda>s. if s = ''AB'' then Some 171 else None)\<rparr>)
     \<lparr>fv_key = ''ledger_hash'', fv_value = Some (JString (''AB'' @ CHR 0x00 # ''zz'')), fv_writable = False\<rparr> =
   Ret (''AB'' @ CHR 0x00 # ''zz'')"
  using LedgerHashConverter_iff [of Clio
      "sample_lib\<lparr>xl_parseHex256 := (\<lambda>s. if s = ''AB'' then Some 171 else None)\<rparr>"
      "\<lparr>fv_key = ''ledger_hash'', fv_value = Some (JString (''AB'' @ CHR 0x00 # ''zz'')), fv_writable = False\<rparr>"
      _ "''AB''" "''zz''" 171]
  by simp

text \<open>
  On a Clio build the cursor converter and the cursor validator are one test: on every text
  they agree, down to the error.
\<close>

theorem AccountMarkerStr_matches_validator:
  assumes "fv_value v = Some (JString s)"
  shows "AccountMarkerStrConverter_parse Clio xl m v =
    obind (AccountMarker_verify Clio xl v) (\<lambda>_. Ret s)"
  using assms
  by (auto simp: AccountMarkerStrConverter_parse_def AccountMarker_verify_def Let_def present_def
      isString_value split: option.split prod.split)

theorem AccountMarkerStr_matches_validator_witness:
  "AccountMarkerStrConverter_parse Clio sample_lib NamesField
     \<lparr>fv_key = ''marker'', fv_value = Some (JString ''ab''), fv_writable = False\<rparr> =
   Fail (status_msg kMalformedField ''Malformed cursor.'')"
  using AccountMarkerStr_matches_validator [of
      "\<lparr>fv_key = ''marker'', fv_value = Some (JString ''ab''), fv_writable = False\<rparr>" "''ab''"
      sample_lib NamesField]
  by (simp add: AccountMarker_verify_def present_def isString_def split_comma_def Let_def
      malformedCursorMessage_def)

text \<open>The assets a value of the object form denotes.\<close>

definition denotes_asset :: "xrpl_lib \<Rightarrow> (string \<times> json) list \<Rightarrow> asset \<Rightarrow> bool" where
  "denotes_asset xl ms a =
     ((\<exists>s c. map_of ms ''currency'' = Some (JString s) \<and> map_of ms ''mpt_issuance_id'' = None \<and>
         xl_toCurrency xl s = Some c \<and> c \<noteq> xl_badCurrency xl \<and> c \<noteq> xl_noCurrency xl \<and>
         (if xl_isXRP xl c
          then map_of ms ''issuer'' \<in> {None, Some JNull} \<and> a = AssetIssue (xl_xrpIssue xl)
          else \<exists>t i. map_of ms ''issuer'' = Some (JString t) \<and> xl_parseBase58Account xl t = Some i \<and>
            i \<noteq> xl_noAccount xl \<and> i \<noteq> xl_xrpAccount xl \<and> a = AssetIssue (Issue c i))) \<or>
      (\<exists>s i. map_of ms ''currency'' = None \<and> map_of ms ''issuer'' = None \<and>
         map_of ms ''mpt_issuance_id'' = Some (JString s) \<and> xl_parseHex192 xl s = Some i \<and>
         a = AssetMPT i))"

lemma isNull_value: "isNull v \<longleftrightarrow> fv_value v = Some JNull"
  by (simp add: isNull_def)

text \<open>
  Reading an asset never fails as a parse and never throws: an object that names XRP, an issued
  currency with a usable issuer, or an MPT issuance, and nothing of another form beside it, gives
  that asset, and every other value is carried on as malformed.
\<close>

theorem assetFromView_spec:
  "(assetFromView xl v = Ret (Inr a) \<longleftrightarrow>
     (\<exists>ms. fv_value v = Some (JObject ms) \<and> denotes_asset xl ms a)) \<and>
   assetFromView xl v \<in> {Ret (Inl Malformed)} \<union> (\<lambda>a. Ret (Inr a)) ` UNIV"
proof (cases "isObject v")
  case False
  then show ?thesis by (auto simp: assetFromView_def isObject_value Let_def)
next
  case True
  then obtain ms where ms: "fv_value v = Some (JObject ms)" by (auto simp: isObject_value)
  show ?thesis
  proof (cases "map_of ms ''currency''")
    case None
    with True ms show ?thesis
      by (cases "isString (child v ''mpt_issuance_id'')")
        (auto simp: assetFromView_def denotes_asset_def Let_def present_def isString_value
          split: option.splits)
  next
    case (Some j)
    show ?thesis
    proof (cases "isString (child v ''currency'') \<and> map_of ms ''mpt_issuance_id'' = None")
      case False
      with True ms Some show ?thesis
        by (auto simp: assetFromView_def denotes_asset_def Let_def present_def isString_value)
    next
      case str: True
      then obtain s where s: "map_of ms ''currency'' = Some (JString s)"
        using ms by (auto simp: isString_value)
      show ?thesis
      proof (cases "isString (child v ''issuer'')")
        case False
        with True ms s str show ?thesis
          by (cases "xl_toCurrency xl s")
            (auto simp: assetFromView_def denotes_asset_def Let_def present_def isString_value isNull_value)
      next
        case True
        then obtain t where "map_of ms ''issuer'' = Some (JString t)"
          using ms by (auto simp: isString_value)
        with True \<open>isObject v\<close> ms s str show ?thesis
          by (cases "xl_toCurrency xl s"; cases "xl_parseBase58Account xl t")
            (auto simp: assetFromView_def denotes_asset_def Let_def present_def isNull_value)
      qed
    qed
  qed
qed

end
