(* ===== verification/RpcLedger.thy ===== *)
theory RpcLedger
  imports RpcConverters
begin

text \<open>
  \<^verbatim>\<open>include/rpcspec/Ledger.hpp\<close>: the ledger a request names. One selector field reads
  \<open>ledger_hash\<close>, \<open>ledger_index\<close> and, on xrpld, the legacy \<open>ledger\<close>, and binds one
  \<^verbatim>\<open>LedgerSpecifier\<close>; the two servers have different rules.
\<close>

datatype LedgerShortcut = Validated | Current | Closed

definition kDefaultLedgerShortcut :: "server \<Rightarrow> LedgerShortcut" where
  "kDefaultLedgerShortcut srv = (if kIsClioBuild srv then Validated else Current)"

text \<open>The variant: \<^verbatim>\<open>monostate\<close>, a shortcut, a hash or a sequence.\<close>

datatype LedgerSpecifier =
  Unspecified | Shortcut LedgerShortcut | LedgerHash uint256 | Sequence uint32

definition isUnspecified :: "LedgerSpecifier \<Rightarrow> bool" where
  "isUnspecified l = (case l of Unspecified \<Rightarrow> True | _ \<Rightarrow> False)"

definition isShortcut :: "LedgerSpecifier \<Rightarrow> bool" where
  "isShortcut l = (case l of Shortcut _ \<Rightarrow> True | _ \<Rightarrow> False)"

definition isHash :: "LedgerSpecifier \<Rightarrow> bool" where
  "isHash l = (case l of LedgerHash _ \<Rightarrow> True | _ \<Rightarrow> False)"

definition isSequence :: "LedgerSpecifier \<Rightarrow> bool" where
  "isSequence l = (case l of Sequence _ \<Rightarrow> True | _ \<Rightarrow> False)"

definition resolved :: "server \<Rightarrow> LedgerSpecifier \<Rightarrow> LedgerSpecifier" where
  "resolved srv l = (if isUnspecified l then Shortcut (kDefaultLedgerShortcut srv) else l)"

section \<open>Clio\<close>

definition ledgerSpecifierFromIndex :: "server \<Rightarrow> LedgerSpecifier converter" where
  "ledgerSpecifierFromIndex srv v =
     (let invalid = Fail (status_msg kMalformedField (malformedLedgerIndexMessage srv))
      in if isUint32 v then omap Sequence (asUint32 v)
         else if isInt64 v then invalid
         else if \<not> isString v then invalid
         else obind (asString v) (\<lambda>sv.
           if sv = ''validated'' then Ret (Shortcut Validated)
           else (case from_chars_unsigned (2 ^ 32 - 1) sv of (sq, ec, rest) \<Rightarrow>
             if ec = NoError \<and> rest = [] then Ret (Sequence (word_of_nat sq)) else invalid)))"

definition ledgerSpecifierFromHash :: "server \<Rightarrow> xrpl_lib \<Rightarrow> LedgerSpecifier converter" where
  "ledgerSpecifierFromHash srv xl v =
     (if \<not> isString v then
        Fail (status_msg kMalformedField (notStringFieldMessage srv ''ledger_hash''))
      else obind (asString v) (\<lambda>s.
        case xl_parseHex256 xl (c_str s) of
          None \<Rightarrow> Fail (status_msg kMalformedField (malformedFieldMessage srv ''ledger_hash''))
        | Some hash \<Rightarrow> Ret (LedgerHash hash)))"

section \<open>xrpld\<close>

definition xrpldLedgerFromHash :: "xrpl_lib \<Rightarrow> LedgerSpecifier converter" where
  "xrpldLedgerFromHash xl v =
     obind (asString v) (\<lambda>s.
       case xl_parseHex256 xl (c_str s) of
         None \<Rightarrow> Fail (status_msg kMalformedField (expectedFieldMessage (fv_key v) ''hex string''))
       | Some hash \<Rightarrow> Ret (LedgerHash hash))"

definition xrpldLedgerFromIndex :: "LedgerSpecifier converter" where
  "xrpldLedgerFromIndex v =
     (let invalid = Fail (status_msg kMalformedField (expectedFieldMessage (fv_key v) ''string or number''))
      in if \<not> isString v then
           (if isUint32 v then omap Sequence (asUint32 v) else invalid)
         else obind (asString v) (\<lambda>sv.
           if sv = ''current'' \<or> sv = [] then Ret (Shortcut Current)
           else if sv = ''validated'' then Ret (Shortcut Validated)
           else if sv = ''closed'' then Ret (Shortcut Closed)
           else
             let sv' = (if starts_with CHR ''+'' sv then drop 1 sv else sv)
             in case from_chars_unsigned (2 ^ 32 - 1) sv' of (sq, ec, rest) \<Rightarrow>
                  if ec = NoError \<and> rest = [] then Ret (Sequence (word_of_nat sq)) else invalid))"

definition isStringOrInteger :: "field_view \<Rightarrow> bool" where
  "isStringOrInteger v = (isString v \<or> isInt64 v)"

definition xrpldLedgerFromRequest :: "xrpl_lib \<Rightarrow> json \<Rightarrow> LedgerSpecifier parsed" where
  "xrpldLedgerFromRequest xl doc =
     (let legacyView = root_child doc ''ledger'';
          hashView = root_child doc ''ledger_hash'';
          indexView = root_child doc ''ledger_index'';
          count = of_bool (present legacyView) + of_bool (present hashView) +
            of_bool (present indexView) :: nat
      in if 1 < count then
           (if present legacyView
            then Fail (status_msg kMalformedField
              (''Exactly one of '' @ q @ ''ledger'' @ q @ '', '' @ q @ ''ledger_hash'' @ q @
               '', or '' @ q @ ''ledger_index'' @ q @ '' can be specified.''))
            else Fail (status_msg kMalformedField
              (''Exactly one of '' @ q @ ''ledger_hash'' @ q @ '' or '' @ q @ ''ledger_index'' @ q @
               '' can be specified.'')))
         else if present legacyView then
           (if \<not> isStringOrInteger legacyView
            then Fail (status_msg kMalformedField (expectedFieldMessage ''ledger'' ''string or number''))
            else if isString legacyView
            then obind (asString legacyView) (\<lambda>s.
              if length s = 64 then xrpldLedgerFromHash xl legacyView
              else xrpldLedgerFromIndex legacyView)
            else xrpldLedgerFromIndex legacyView)
         else if present hashView then
           (if \<not> isString hashView
            then Fail (status_msg kMalformedField (expectedFieldMessage ''ledger_hash'' ''hex string''))
            else xrpldLedgerFromHash xl hashView)
         else if present indexView then
           (if \<not> isStringOrInteger indexView
            then Fail (status_msg kMalformedField
              (expectedFieldMessage ''ledger_index'' ''string or number''))
            else xrpldLedgerFromIndex indexView)
         else Ret Unspecified)"

section \<open>The selector field\<close>

definition clioLedgerFromRequest ::
    "server \<Rightarrow> xrpl_lib \<Rightarrow> json \<Rightarrow> LedgerSpecifier option parsed" where
  "clioLedgerFromRequest srv xl doc =
     (let hashView = root_child doc ''ledger_hash'';
          indexView = root_child doc ''ledger_index''
      in if present hashView then
           obind (ledgerSpecifierFromHash srv xl hashView) (\<lambda>res.
             if present indexView
             then obind (ledgerSpecifierFromIndex srv indexView) (\<lambda>idx. Ret (Some res))
             else Ret (Some res))
         else if present indexView
         then omap Some (ledgerSpecifierFromIndex srv indexView)
         else Ret None)"

text \<open>
  \<open>assign\<close> is the assignment to the bound member; on Clio the member is left alone when neither
  key is present.
\<close>

definition LedgerSelectorField_parseInto ::
    "server \<Rightarrow> xrpl_lib \<Rightarrow> (LedgerSpecifier \<Rightarrow> 'i \<Rightarrow> 'i) \<Rightarrow> json \<Rightarrow> 'i \<Rightarrow> json \<times> 'i \<times> unit parsed"
  where
  "LedgerSelectorField_parseInto srv xl assign doc out =
     (if kIsXrpldBuild srv then
        (case xrpldLedgerFromRequest xl doc of
          Ret l \<Rightarrow> (doc, assign l out, Ret ())
        | Fail e \<Rightarrow> (doc, out, Fail e)
        | Throw x \<Rightarrow> (doc, out, Throw x))
      else
        (case clioLedgerFromRequest srv xl doc of
          Ret None \<Rightarrow> (doc, out, Ret ())
        | Ret (Some l) \<Rightarrow> (doc, assign l out, Ret ())
        | Fail e \<Rightarrow> (doc, out, Fail e)
        | Throw x \<Rightarrow> (doc, out, Throw x)))"

definition ledgerSelector ::
    "server \<Rightarrow> xrpl_lib \<Rightarrow> nat \<Rightarrow> (LedgerSpecifier \<Rightarrow> 'i \<Rightarrow> 'i) \<Rightarrow> 'i tfield" where
  "ledgerSelector srv xl member assign =
     \<lparr>tf_key = ''ledger_index'', tf_member = Some member,
      tf_parse = LedgerSelectorField_parseInto srv xl assign, tf_check = (\<lambda>doc. [])\<rparr>"

section \<open>What the readers accept\<close>

text \<open>A present value as a ledger sequence, per the two kinds of JSON integer.\<close>

definition index_number :: "field_view \<Rightarrow> uint32 option" where
  "index_number v = (if isUint32 v then (case asUint32 v of Ret u \<Rightarrow> Some u | _ \<Rightarrow> None) else None)"

lemma asUint32_index: "isUint32 v \<Longrightarrow> \<exists>u. asUint32 v = Ret u \<and> index_number v = Some u"
  using asUint32_isUint32 [of v] by (auto simp: index_number_def)

lemma from_chars_sequence:
  "(case from_chars_unsigned (2 ^ 32 - 1) s of (sq, ec, rest) \<Rightarrow>
      if ec = NoError \<and> rest = [] then Ret (Sequence (word_of_nat sq)) else x) =
   (if all_digits s \<and> dec_value 0 s < 2 ^ 32 then Ret (Sequence (word_of_nat (dec_value 0 s))) else x)"
  using whole_match_unsigned [of "2 ^ 32 - 1" s]
  by (auto simp: whole_match_def split: prod.splits if_splits)

lemma string_kinds:
  "fv_value v = Some (JString s) \<Longrightarrow> \<not> isInt64 v \<and> \<not> isUint32 v \<and> isString v \<and> present v"
  by (simp add: isInt64_def isUint32_def isString_def present_def)

lemma ledgerSpecifierFromIndex_string:
  "fv_value v = Some (JString s) \<Longrightarrow> ledgerSpecifierFromIndex srv v =
     (if s = ''validated'' then Ret (Shortcut Validated)
      else if all_digits s \<and> dec_value 0 s < 2 ^ 32 then Ret (Sequence (word_of_nat (dec_value 0 s)))
      else Fail (status_msg kMalformedField (malformedLedgerIndexMessage srv)))"
  unfolding ledgerSpecifierFromIndex_def from_chars_sequence Let_def
  using string_kinds [of v s] by simp

lemma ledgerSpecifierFromIndex_other:
  "\<not> isString v \<Longrightarrow> ledgerSpecifierFromIndex srv v =
     (case index_number v of Some u \<Rightarrow> Ret (Sequence u)
      | None \<Rightarrow> Fail (status_msg kMalformedField (malformedLedgerIndexMessage srv)))"
  using asUint32_index [of v]
  by (cases "isUint32 v") (auto simp: ledgerSpecifierFromIndex_def index_number_def Let_def)

lemma xrpldLedgerFromIndex_string:
  "fv_value v = Some (JString s) \<Longrightarrow> xrpldLedgerFromIndex v =
     (if s = ''current'' \<or> s = [] then Ret (Shortcut Current)
      else if s = ''validated'' then Ret (Shortcut Validated)
      else if s = ''closed'' then Ret (Shortcut Closed)
      else case lexicalUint32 s of
          Some u \<Rightarrow> Ret (Sequence u)
        | None \<Rightarrow> Fail (status_msg kMalformedField (expectedFieldMessage (fv_key v) ''string or number'')))"
  unfolding xrpldLedgerFromIndex_def from_chars_sequence Let_def lexicalUint32_eq
  using string_kinds [of v s] by (simp add: drop_Suc)

lemma xrpldLedgerFromIndex_other:
  "\<not> isString v \<Longrightarrow> xrpldLedgerFromIndex v =
     (case index_number v of Some u \<Rightarrow> Ret (Sequence u)
      | None \<Rightarrow> Fail (status_msg kMalformedField (expectedFieldMessage (fv_key v) ''string or number'')))"
  using asUint32_index [of v]
  by (cases "isUint32 v") (auto simp: xrpldLedgerFromIndex_def index_number_def Let_def)

interpretation clio_index: converter "ledgerSpecifierFromIndex srv" "\<lambda>v. True" for srv
proof
  fix v
  show "\<not> throws (ledgerSpecifierFromIndex srv v)"
    by (cases "isString v")
      (auto simp: isString_value ledgerSpecifierFromIndex_string ledgerSpecifierFromIndex_other
        split: option.splits if_splits)
qed

interpretation clio_hash: converter "ledgerSpecifierFromHash srv xl" "\<lambda>v. True" for srv xl
  by unfold_locales (auto simp: ledgerSpecifierFromHash_def throws_asString split: option.splits)

interpretation xrpld_index: converter xrpldLedgerFromIndex "\<lambda>v. True"
proof
  fix v
  show "\<not> throws (xrpldLedgerFromIndex v)"
    by (cases "isString v")
      (auto simp: isString_value xrpldLedgerFromIndex_string xrpldLedgerFromIndex_other
        split: option.splits if_splits)
qed

text \<open>The xrpld hash reader relies on its caller having seen a string.\<close>

interpretation xrpld_hash: converter "xrpldLedgerFromHash xl" isString for xl
  by unfold_locales (auto simp: xrpldLedgerFromHash_def throws_asString split: option.splits)

lemma xrpldLedgerFromRequest_no_throw: "\<not> throws (xrpldLedgerFromRequest xl doc)"
  using xrpld_hash.no_throw xrpld_index.no_throw
  by (auto simp: xrpldLedgerFromRequest_def Let_def throws_asString isString_value split: if_splits)

lemma clioLedgerFromRequest_no_throw: "\<not> throws (clioLedgerFromRequest srv xl doc)"
  using clio_hash.no_throw clio_index.no_throw
  by (auto simp: clioLedgerFromRequest_def Let_def throws_obind split: if_splits)

lemma ledgerSelector_safe: "tfield_safe (ledgerSelector srv xl m assign)"
  using xrpldLedgerFromRequest_no_throw [of xl] clioLedgerFromRequest_no_throw [of srv xl]
  by (auto simp: tfield_safe_def ledgerSelector_def LedgerSelectorField_parseInto_def
      split: outcome.split option.split) (metis throws_simps(3))+

lemma digits_not_word:
  assumes "all_digits s"
  shows "s \<noteq> ''validated''" "s \<noteq> ''current''" "s \<noteq> ''closed''" "s \<noteq> []" "\<not> starts_with CHR ''+'' s"
  using assms by (auto simp: all_digits_def is_digit_def starts_with_def list_all_iff dest: bspec [OF _ hd_in_set])

lemma lexicalUint32_dec_digits:
  "n < 2 ^ 32 \<Longrightarrow> lexicalUint32 (dec_digits n) = Some (word_of_nat n)"
  using digits_not_word(5) [OF dec_digits_all, of n]
  by (simp add: lexicalUint32_eq dec_digits_all Let_def)

lemma index_Ret_cases:
  assumes "ledgerSpecifierFromIndex srv v = Ret l"
  shows "l = Shortcut Validated \<or> (\<exists>u. l = Sequence u)"
proof (cases "isString v")
  case True
  then obtain s where "fv_value v = Some (JString s)" by (auto simp: isString_value)
  with assms show ?thesis by (auto simp: ledgerSpecifierFromIndex_string split: if_splits)
next
  case False
  with assms show ?thesis by (auto simp: ledgerSpecifierFromIndex_other split: option.splits)
qed

lemma hash_Ret_cases: "ledgerSpecifierFromHash srv xl v = Ret l \<Longrightarrow> \<exists>h. l = LedgerHash h"
  by (auto simp: ledgerSpecifierFromHash_def obind_eq_Ret split: if_splits option.splits)

lemma xrpld_index_Ret: "xrpldLedgerFromIndex v = Ret l \<Longrightarrow> l \<noteq> Unspecified"
proof (cases "isString v")
  case True
  then obtain s where "fv_value v = Some (JString s)" by (auto simp: isString_value)
  then show "xrpldLedgerFromIndex v = Ret l \<Longrightarrow> l \<noteq> Unspecified"
    by (auto simp: xrpldLedgerFromIndex_string split: if_splits option.splits)
next
  case False
  then show "xrpldLedgerFromIndex v = Ret l \<Longrightarrow> l \<noteq> Unspecified"
    by (auto simp: xrpldLedgerFromIndex_other split: option.splits)
qed

lemma xrpld_hash_Ret: "xrpldLedgerFromHash xl v = Ret l \<Longrightarrow> l \<noteq> Unspecified"
  by (auto simp: xrpldLedgerFromHash_def obind_eq_Ret split: option.splits)

section \<open>Properties\<close>

text \<open>
  C17: on Clio a selector that parses never names the current or the closed ledger: resolved, it is
  the validated ledger, a hash or a sequence. A present hash always wins over the index, and the
  member stays unspecified exactly when neither key was sent.
\<close>

theorem clio_ledger_selector:
  assumes "LedgerSelectorField_parseInto Clio xl (\<lambda>l _. l) doc Unspecified = (doc', l, Ret ())"
  shows "(resolved Clio l = Shortcut Validated \<or> isHash l \<or> isSequence l) \<and>
    (json_get doc ''ledger_hash'' \<noteq> None \<longrightarrow> isHash l) \<and>
    (isUnspecified l \<longleftrightarrow> json_get doc ''ledger_hash'' = None \<and> json_get doc ''ledger_index'' = None)"
proof -
  consider h where "present (root_child doc ''ledger_hash'')" "l = LedgerHash h"
    | "\<not> present (root_child doc ''ledger_hash'')" "present (root_child doc ''ledger_index'')"
      "l = Shortcut Validated \<or> (\<exists>u. l = Sequence u)"
    | "\<not> present (root_child doc ''ledger_hash'')" "\<not> present (root_child doc ''ledger_index'')"
      "l = Unspecified"
    using assms
    by (auto simp: LedgerSelectorField_parseInto_def clioLedgerFromRequest_def Let_def obind_eq_Ret
        omap_eq_Ret split: outcome.splits option.splits if_splits
        dest!: hash_Ret_cases index_Ret_cases)
  then show ?thesis
    by cases (auto simp: present_def resolved_def isUnspecified_def isHash_def isSequence_def
        kDefaultLedgerShortcut_def)
qed

theorem clio_ledger_selector_witness:
  "\<exists>l. LedgerSelectorField_parseInto Clio sample_lib (\<lambda>l _. l) (JObject [(''ledger_index'', JInt64 7)])
      Unspecified = (JObject [(''ledger_index'', JInt64 7)], l, Ret ()) \<and>
    \<not> isUnspecified l \<and> (resolved Clio l = Shortcut Validated \<or> isHash l \<or> isSequence l)"
proof -
  have "LedgerSelectorField_parseInto Clio sample_lib (\<lambda>l _. l) (JObject [(''ledger_index'', JInt64 7)])
      Unspecified = (JObject [(''ledger_index'', JInt64 7)], Sequence 7, Ret ())"
    by (simp add: LedgerSelectorField_parseInto_def clioLedgerFromRequest_def Let_def root_child_def
        json_get_def present_def ledgerSpecifierFromIndex_def isUint32_def asUint32_def)
  from clio_ledger_selector [OF this] this show ?thesis by (auto simp: json_get_def)
qed

text \<open>
  C18: on xrpld a selector that parses read at most one of \<open>ledger\<close>, \<open>ledger_hash\<close> and
  \<open>ledger_index\<close>, and leaves the member unspecified exactly when it read none; it never throws and
  never changes the request.
\<close>

theorem xrpld_ledger_selector:
  assumes "LedgerSelectorField_parseInto Xrpld xl (\<lambda>l _. l) doc out = (doc', l, Ret ())"
  shows "doc' = doc \<and>
    card {k \<in> {''ledger'', ''ledger_hash'', ''ledger_index''}. json_get doc k \<noteq> None} \<le> 1 \<and>
    (isUnspecified l \<longleftrightarrow>
      {k \<in> {''ledger'', ''ledger_hash'', ''ledger_index''}. json_get doc k \<noteq> None} = {})"
proof -
  let ?P = "\<lambda>k. present (root_child doc k)"
  have r: "xrpldLedgerFromRequest xl doc = Ret l" "doc' = doc"
    using assms by (auto simp: LedgerSelectorField_parseInto_def split: outcome.splits)
  have one: "\<not> (?P ''ledger'' \<and> ?P ''ledger_hash'')" "\<not> (?P ''ledger'' \<and> ?P ''ledger_index'')"
    "\<not> (?P ''ledger_hash'' \<and> ?P ''ledger_index'')"
    using r(1) by (auto simp: xrpldLedgerFromRequest_def Let_def split: if_splits)
  have u: "l = Unspecified \<longleftrightarrow> \<not> ?P ''ledger'' \<and> \<not> ?P ''ledger_hash'' \<and> \<not> ?P ''ledger_index''"
    using r(1) xrpld_index_Ret [of _ l] xrpld_hash_Ret [of xl _ l]
    by (auto simp: xrpldLedgerFromRequest_def Let_def obind_eq_Ret split: if_splits)
  have j: "json_get doc k \<noteq> None \<longleftrightarrow> ?P k" for k by (simp add: present_def)
  have s: "{k \<in> {''ledger'', ''ledger_hash'', ''ledger_index''}. json_get doc k \<noteq> None} =
      (if ?P ''ledger'' then {''ledger''} else {}) \<union> (if ?P ''ledger_hash'' then {''ledger_hash''} else {}) \<union>
      (if ?P ''ledger_index'' then {''ledger_index''} else {})"
    unfolding j by auto
  show ?thesis
    unfolding s using one u r(2) by (auto simp: isUnspecified_def split: LedgerSpecifier.splits)
qed

theorem xrpld_ledger_selector_witness:
  "LedgerSelectorField_parseInto Xrpld sample_lib (\<lambda>l _. l)
     (JObject [(''ledger_index'', JString ''closed'')]) Unspecified =
   (JObject [(''ledger_index'', JString ''closed'')], Shortcut Closed, Ret ()) \<and>
   json_get (JObject [(''ledger_index'', JString ''closed'')]) ''ledger'' = None"
proof -
  let ?d = "JObject [(''ledger_index'', JString ''closed'')]"
  have e: "LedgerSelectorField_parseInto Xrpld sample_lib (\<lambda>l _. l) ?d Unspecified =
      (?d, Shortcut Closed, Ret ())"
    by (simp add: LedgerSelectorField_parseInto_def xrpldLedgerFromRequest_def Let_def root_child_def
        json_get_def present_def isStringOrInteger_def isString_def xrpldLedgerFromIndex_string)
  have "card {k \<in> {''ledger'', ''ledger_hash'', ''ledger_index''}. json_get ?d k \<noteq> None} \<le> 1"
    using xrpld_ledger_selector [OF e] by blast
  with e show ?thesis by (simp add: json_get_def)
qed

text \<open>
  C19: a sequence sent as decimal text comes back as that sequence on both servers, through the
  whole selector: printing a sequence and parsing the request gives the sequence again.
\<close>

theorem ledger_sequence_round_trip:
  assumes "n < 2 ^ 32"
  shows "LedgerSelectorField_parseInto srv xl (\<lambda>l _. l)
      (JObject [(''ledger_index'', JString (dec_digits n))]) out =
    (JObject [(''ledger_index'', JString (dec_digits n))], Sequence (word_of_nat n), Ret ())"
proof (cases srv)
  case Clio
  then show ?thesis
    using assms digits_not_word(1) [OF dec_digits_all, of n]
    by (simp add: LedgerSelectorField_parseInto_def clioLedgerFromRequest_def Let_def root_child_def
        json_get_def present_def ledgerSpecifierFromIndex_string dec_digits_all)
next
  case Xrpld
  then show ?thesis
    using assms digits_not_word [OF dec_digits_all, of n]
    by (simp add: LedgerSelectorField_parseInto_def xrpldLedgerFromRequest_def Let_def root_child_def
        json_get_def present_def xrpldLedgerFromIndex_string lexicalUint32_dec_digits
        isStringOrInteger_def isString_def)
qed

theorem ledger_sequence_round_trip_witness:
  "LedgerSelectorField_parseInto Xrpld sample_lib (\<lambda>l _. l)
      (JObject [(''ledger_index'', JString (dec_digits 32570))]) Unspecified =
    (JObject [(''ledger_index'', JString (dec_digits 32570))], Sequence 32570, Ret ())"
  using ledger_sequence_round_trip [of 32570 Xrpld sample_lib Unspecified] by simp

text \<open>
  C20: where the standalone \<^verbatim>\<open>ledger_index\<close> validator and the selector's reader of the same server
  disagree on a present value. On both, the validator lets integers outside the 32-bit range through
  and the reader does not; on Clio that is all. On xrpld the reader also takes the empty text, as the
  current ledger, and a number with one plus sign before its digits, which the validator rejects.
\<close>

theorem ledger_index_validator_vs_reader:
  assumes "present v"
  shows "(succeeds (ledgerSpecifierFromIndex Clio v) \<longleftrightarrow>
      succeeds (LedgerIndexValidator_verify Clio v) \<and> \<not> (isInt64 v \<and> \<not> isUint32 v)) \<and>
    (succeeds (xrpldLedgerFromIndex v) \<longleftrightarrow>
      succeeds (LedgerIndexValidator_verify Xrpld v) \<and> \<not> (isInt64 v \<and> \<not> isUint32 v) \<or>
      (\<exists>s. fv_value v = Some (JString s) \<and>
         (s = [] \<or> (\<exists>ds. s = CHR ''+'' # ds \<and> all_digits ds \<and> dec_value 0 ds < 2 ^ 32))))"
proof (cases "isString v")
  case True
  then obtain s where s: "fv_value v = Some (JString s)" by (auto simp: isString_value)
  have "LedgerIndexValidator_verify srv v = Ret () \<longleftrightarrow> ledger_index_text srv s" for srv
    using assms string_kinds [OF s] s by (auto simp: ledger_index.passes_iff ledger_index_value_def)
  then have valid: "succeeds (LedgerIndexValidator_verify srv v) \<longleftrightarrow> ledger_index_text srv s" for srv
    by (simp add: succeeds_unit)
  have clio: "succeeds (ledgerSpecifierFromIndex Clio v) \<longleftrightarrow> ledger_index_text Clio s"
    by (auto simp: ledgerSpecifierFromIndex_string [OF s] ledger_index_text_def)
  have "succeeds (xrpldLedgerFromIndex v) \<longleftrightarrow>
      s \<in> {[], ''current'', ''validated'', ''closed''} \<or> lexicalUint32 s \<noteq> None"
    by (auto simp: xrpldLedgerFromIndex_string [OF s] split: option.splits)
  also have "\<dots> \<longleftrightarrow> ledger_index_text Xrpld s \<or>
      s = [] \<or> (\<exists>ds. s = CHR ''+'' # ds \<and> all_digits ds \<and> dec_value 0 ds < 2 ^ 32)"
    unfolding lexicalUint32_text ledger_index_text_def by auto
  finally show ?thesis using clio valid string_kinds [OF s] s by auto
next
  case False
  have "LedgerIndexValidator_verify srv v = Ret () \<longleftrightarrow> isInt64 v \<or> isUint32 v" for srv
    using assms False by (auto simp: ledger_index.passes_iff ledger_index_value_def isString_value)
  moreover have "index_number v \<noteq> None \<longleftrightarrow> isUint32 v"
    using asUint32_index [of v] by (auto simp: index_number_def)
  ultimately show ?thesis
    using False
    by (auto simp: ledgerSpecifierFromIndex_other xrpldLedgerFromIndex_other succeeds_unit isString_value
        split: option.split)
qed

theorem ledger_index_validator_vs_reader_witness:
  "\<not> succeeds (ledgerSpecifierFromIndex Clio
      \<lparr>fv_key = ''ledger_index'', fv_value = Some (JInt64 (-1)), fv_writable = False\<rparr>) \<and>
   succeeds (xrpldLedgerFromIndex
      \<lparr>fv_key = ''ledger_index'', fv_value = Some (JString ''+7''), fv_writable = False\<rparr>)"
  using ledger_index_validator_vs_reader [of
      "\<lparr>fv_key = ''ledger_index'', fv_value = Some (JInt64 (-1)), fv_writable = False\<rparr>"]
    ledger_index_validator_vs_reader [of
      "\<lparr>fv_key = ''ledger_index'', fv_value = Some (JString ''+7''), fv_writable = False\<rparr>"]
  by (simp add: present_def isInt64_def isUint32_def all_digits_def is_digit_def)

end
