(* ===== verification/RpcVersioned.thy ===== *)
theory RpcVersioned
  imports RpcTyped
begin

text \<open>
  \<^verbatim>\<open>include/rpcspec/VersionedSpec.hpp\<close> and \<^verbatim>\<open>HandlerFor.hpp\<close> with \<^verbatim>\<open>HandlerForDefs.hpp\<close>: one typed spec
  per API version, and the entry points a handler has. \<open>init\<close> is the value-initialised Input.
\<close>

definition indexFor :: "nat \<Rightarrow> uint32 \<Rightarrow> nat" where
  "indexFor kCount apiVersion =
     (if 1 \<le> unat apiVersion \<and> unat apiVersion \<le> kCount then unat apiVersion - 1
      else kCount - 1)"

text \<open>The static assertion: at least one spec.\<close>

definition versioned_ok :: "'s list \<Rightarrow> bool" where
  "versioned_ok specs = (1 \<le> length specs)"

text \<open>The compile-time walk over the tuple, from index \<open>I\<close> on.\<close>

function selected :: "'s list \<Rightarrow> nat \<Rightarrow> uint32 \<Rightarrow> ('s \<Rightarrow> 'r) \<Rightarrow> 'r" where
  "selected specs I apiVersion fn =
     (if I + 1 < length specs
      then (if I = indexFor (length specs) apiVersion then fn (specs ! I)
            else selected specs (I + 1) apiVersion fn)
      else fn (specs ! I))"
  by auto

termination
  by (relation "measure (\<lambda>(specs, I, _). length specs - I)") auto

declare selected.simps [simp del]

definition VersionedSpec_parse ::
    "'i \<Rightarrow> 'i typed_spec list \<Rightarrow> json \<Rightarrow> uint32 \<Rightarrow> json \<times> 'i parsed" where
  "VersionedSpec_parse init specs doc apiVersion =
     selected specs 0 apiVersion (\<lambda>sp. TypedSpec_parse init sp doc)"

definition VersionedSpec_check :: "'i typed_spec list \<Rightarrow> json \<Rightarrow> uint32 \<Rightarrow> warnings" where
  "VersionedSpec_check specs doc apiVersion =
     selected specs 0 apiVersion (\<lambda>sp. TypedSpec_check sp doc)"

text \<open>The handler's entry point: the document is passed by value, so its rewrites are dropped.\<close>

definition HandlerFor_parseInput :: "'i \<Rightarrow> 'i typed_spec list \<Rightarrow> json \<Rightarrow> uint32 \<Rightarrow> 'i parsed" where
  "HandlerFor_parseInput init specs jv apiVersion =
     snd (VersionedSpec_parse init specs jv apiVersion)"

text \<open>
  \<^verbatim>\<open>include/rpcspec/RpcSpecView.hpp\<close>: a spec behind function pointers. The view of a typed spec
  processes nothing, since parsing already validated the request. The third pointer, to the dump,
  is \<open>dumpRpcSpec\<close> or \<open>TypedSpec_dump\<close> of \<open>RpcDump\<close>.
\<close>

record spec_view =
  processImpl :: "json \<Rightarrow> json \<times> unit parsed"
  checkImpl :: "json \<Rightarrow> warnings"

definition view_of_rpc :: "rpc_spec \<Rightarrow> spec_view" where
  "view_of_rpc sp = \<lparr>processImpl = RpcSpec_process sp, checkImpl = RpcSpec_check sp\<rparr>"

definition view_of_typed :: "'i typed_spec \<Rightarrow> spec_view" where
  "view_of_typed sp = \<lparr>processImpl = (\<lambda>doc. (doc, Ret ())), checkImpl = TypedSpec_check sp\<rparr>"

definition HandlerFor_spec :: "'i typed_spec list \<Rightarrow> uint32 \<Rightarrow> spec_view" where
  "HandlerFor_spec specs apiVersion = selected specs 0 apiVersion view_of_typed"

lemma indexFor_less: "1 \<le> kCount \<Longrightarrow> indexFor kCount v < kCount"
  by (auto simp: indexFor_def)

lemma selected_from:
  assumes "I \<le> indexFor (length specs) v" and "versioned_ok specs"
  shows "selected specs I v fn = fn (specs ! indexFor (length specs) v)"
  using assms
proof (induction "length specs - I" arbitrary: I)
  case 0
  then have "length specs \<le> I" "indexFor (length specs) v < length specs"
    using indexFor_less by (auto simp: versioned_ok_def)
  with 0 show ?case by simp
next
  case (Suc n)
  have l: "indexFor (length specs) v < length specs"
    using Suc.prems indexFor_less by (auto simp: versioned_ok_def)
  show ?case
  proof (cases "I = indexFor (length specs) v")
    case True
    then show ?thesis using Suc.prems by (subst selected.simps) simp
  next
    case False
    with Suc.prems l have "I + 1 < length specs" "I + 1 \<le> indexFor (length specs) v" by auto
    with False Suc show ?thesis by (subst selected.simps) auto
  qed
qed

lemma selected_eq:
  "versioned_ok specs \<Longrightarrow> selected specs 0 v fn = fn (specs ! indexFor (length specs) v)"
  by (rule selected_from) simp_all

lemma HandlerFor_parseInput_eq:
  "versioned_ok specs \<Longrightarrow> HandlerFor_parseInput init specs doc v =
     snd (TypedSpec_parse init (specs ! indexFor (length specs) v) doc)"
  by (simp add: HandlerFor_parseInput_def VersionedSpec_parse_def selected_eq)

section \<open>Properties\<close>

text \<open>
  A handler parses a request, and collects its warnings, with exactly one of its specs: the
  k-th for API version k when there is a k-th, and the newest for every other version, 0 included.
\<close>

theorem VersionedSpec_selects:
  assumes "specs \<noteq> []"
  shows "\<exists>sp \<in> set specs.
    HandlerFor_parseInput init specs doc v = snd (TypedSpec_parse init sp doc) \<and>
    checkImpl (HandlerFor_spec specs v) doc = TypedSpec_check sp doc \<and>
    sp = (if v \<noteq> 0 \<and> unat v \<le> length specs then specs ! (unat v - 1) else last specs)"
proof -
  have ok: "versioned_ok specs" using assms by (cases specs) (simp_all add: versioned_ok_def)
  let ?i = "indexFor (length specs) v"
  have "specs ! ?i \<in> set specs" using ok by (simp add: versioned_ok_def indexFor_less)
  moreover have "specs ! ?i =
      (if v \<noteq> 0 \<and> unat v \<le> length specs then specs ! (unat v - 1) else last specs)"
    using assms by (auto simp: indexFor_def last_conv_nth Suc_le_eq unat_gt_0)
  ultimately show ?thesis
    unfolding HandlerFor_parseInput_def VersionedSpec_parse_def HandlerFor_spec_def view_of_typed_def
      selected_eq [OF ok] by (intro bexI [of _ "specs ! ?i"]) simp_all
qed

theorem VersionedSpec_selects_witness:
  "HandlerFor_parseInput None [[], [bound sample_field]] (JObject []) 0 =
     snd (TypedSpec_parse None [bound sample_field] (JObject []))"
  using VersionedSpec_selects [of "[[], [bound sample_field]]" None "JObject []" 0] by auto

end
