(* ===== verification/RpcItems.thy ===== *)
theory RpcItems
  imports RpcWrappers RpcLedger RpcVersioned
begin

text \<open>
  \<^verbatim>\<open>include/rpcspec/Aliases.hpp\<close>, the named converters and the \<^verbatim>\<open>field\<close> factory: the vocabulary the
  handlers declare their specs in. The second half is what the handler theories reason with. The
  items of a field are good (\<open>item_ok\<close>), a converter is \<open>total\<close>, or the items \<open>give\<close> what it relies on;
  a typed field \<open>keeps\<close> an invariant of the Input or \<open>sets\<close> it.
\<close>

section \<open>Items\<close>

abbreviation required :: "server \<Rightarrow> 'm item" where
  "required srv \<equiv> requirement_item (Required_verify srv)"

abbreviation deprecated :: "server \<Rightarrow> 'm item" where
  "deprecated srv \<equiv> check_item (Deprecated_check srv)"

abbreviation type :: "json_type \<Rightarrow> 'm item" where
  "type t \<equiv> requirement_item (Type_verify t)"

abbreviation type_any :: "json_type list \<Rightarrow> 'm item" where
  "type_any ts \<equiv> requirement_item (TypeAny_verify ts)"

abbreviation min_of :: "num \<Rightarrow> 'm item" where
  "min_of b \<equiv> requirement_item (Min_verify b)"

abbreviation minArrayLength :: "nat \<Rightarrow> 'm item" where
  "minArrayLength n \<equiv> requirement_item (MinArrayLength_verify n)"

abbreviation maxArrayLength :: "nat \<Rightarrow> 'm item" where
  "maxArrayLength n \<equiv> requirement_item (MaxArrayLength_verify n)"

abbreviation between :: "num \<Rightarrow> num \<Rightarrow> 'm item" where
  "between lo hi \<equiv> requirement_item (Between_verify lo hi)"

abbreviation clamp_to :: "num \<Rightarrow> num \<Rightarrow> 'm item" where
  "clamp_to lo hi \<equiv> modifier_item (Clamp_modify lo hi)"

abbreviation clampAs :: "integral \<Rightarrow> 'm item" where
  "clampAs t \<equiv> modifier_item (ClampAs_modify t)"

abbreviation ifType :: "json_type \<Rightarrow> unit item list \<Rightarrow> 'm item" where
  "ifType t its \<equiv> modifier_item (IfType_modify t its)"

abbreviation section_of :: "field_spec list \<Rightarrow> 'm item" where
  "section_of sub \<equiv> modifier_item (Section_modify sub)"

abbreviation account :: "xrpl_lib \<Rightarrow> 'm item" where
  "account xl \<equiv> requirement_item (AccountFormat_verify xl)"

abbreviation ledgerIndex :: "server \<Rightarrow> 'm item" where
  "ledgerIndex srv \<equiv> requirement_item (LedgerIndexValidator_verify srv)"

abbreviation accountBase58 :: "server \<Rightarrow> xrpl_lib \<Rightarrow> 'm item" where
  "accountBase58 srv xl \<equiv> requirement_item (AccountBase58_verify srv xl)"

abbreviation currency :: "server \<Rightarrow> xrpl_lib \<Rightarrow> 'm item" where
  "currency srv xl \<equiv> requirement_item (Currency_verify srv xl)"

abbreviation strictCurrency :: "server \<Rightarrow> xrpl_lib \<Rightarrow> 'm item" where
  "strictCurrency srv xl \<equiv> requirement_item (StrictCurrency_verify srv xl)"

abbreviation issuer :: "xrpl_lib \<Rightarrow> 'm item" where
  "issuer xl \<equiv> requirement_item (Issuer_verify xl)"

abbreviation currencyIssue :: "server \<Rightarrow> xrpl_lib \<Rightarrow> 'm item" where
  "currencyIssue srv xl \<equiv> requirement_item (CurrencyIssue_verify srv xl)"

abbreviation credentialType :: "server \<Rightarrow> xrpl_lib \<Rightarrow> 'm item" where
  "credentialType srv xl \<equiv> requirement_item (CredentialType_verify srv xl)"

abbreviation authorizeCredential :: "server \<Rightarrow> xrpl_lib \<Rightarrow> 'm item" where
  "authorizeCredential srv xl \<equiv> requirement_item (AuthorizeCredential_verify srv xl)"

abbreviation toNumber :: "'m item" where
  "toNumber \<equiv> modifier_item ToNumber_modify"

abbreviation lexicalUint32_item :: "'m item" where
  "lexicalUint32_item \<equiv> modifier_item LexicalUint32_modify"

abbreviation uint256Hex :: "server \<Rightarrow> xrpl_lib \<Rightarrow> 'm item" where
  "uint256Hex srv xl \<equiv> requirement_item (Uint256HexString_verify srv xl)"

abbreviation uint192Hex :: "server \<Rightarrow> xrpl_lib \<Rightarrow> 'm item" where
  "uint192Hex srv xl \<equiv> requirement_item (Uint192HexString_verify srv xl)"

abbreviation uint160Hex :: "server \<Rightarrow> xrpl_lib \<Rightarrow> 'm item" where
  "uint160Hex srv xl \<equiv> requirement_item (Uint160HexString_verify srv xl)"

abbreviation notSupported :: "'m item" where
  "notSupported \<equiv> requirement_item NotSupported_verify"

abbreviation notSupportedIf :: "bool \<Rightarrow> 'm item" where
  "notSupportedIf b \<equiv> requirement_item (NotSupportedIfEqual_verify b)"

abbreviation toLower :: "'m item" where
  "toLower \<equiv> modifier_item ToLower_modify"

abbreviation hex256Array :: "xrpl_lib \<Rightarrow> 'm item" where
  "hex256Array xl \<equiv> requirement_item (Hex256Array_verify xl)"

abbreviation uint192Array :: "xrpl_lib \<Rightarrow> 'm item" where
  "uint192Array xl \<equiv> requirement_item (Uint192Array_verify xl)"

abbreviation accountIdArray :: "xrpl_lib \<Rightarrow> nat \<Rightarrow> 'm item" where
  "accountIdArray xl n \<equiv> requirement_item (AccountIdArray_verify xl n)"

abbreviation accountMarker :: "server \<Rightarrow> xrpl_lib \<Rightarrow> 'm item" where
  "accountMarker srv xl \<equiv> requirement_item (AccountMarker_verify srv xl)"

abbreviation accountType :: "'m item" where
  "accountType \<equiv> requirement_item AccountType_verify"

abbreviation ledgerType :: "'m item" where
  "ledgerType \<equiv> requirement_item LedgerEntryType_verify"

abbreviation oneOf :: "string list \<Rightarrow> 'm item" where
  "oneOf vs \<equiv> requirement_item (OneOf_verify vs)"

abbreviation defaultTo :: "'m \<Rightarrow> 'm item" where
  "defaultTo m \<equiv> default_item m"

abbreviation nullAs :: "scalar \<Rightarrow> 'm item" where
  "nullAs s \<equiv> modifier_item (NullAs_modify s)"

abbreviation customValidator :: "requirement \<Rightarrow> 'm item" where
  "customValidator fn \<equiv> requirement_item (CustomValidator_verify fn)"

abbreviation customModifier :: "modifier \<Rightarrow> 'm item" where
  "customModifier fn \<equiv> modifier_item (CustomModifier_modify fn)"

text \<open>\<^verbatim>\<open>include/rpcspec/TxTypes.hpp\<close>: the names of the linked library, in lower case.\<close>

definition txTypesInLowercase :: "xrpl_lib \<Rightarrow> string list" where
  "txTypesInLowercase xl = map lower_string (xl_txTypeNames xl)"

section \<open>Converters\<close>

abbreviation accountId :: "server \<Rightarrow> xrpl_lib \<Rightarrow> account_id converter" where
  "accountId \<equiv> AccountIdConverter_parse"

abbreviation accountIdActMalformed :: "xrpl_lib \<Rightarrow> account_id converter" where
  "accountIdActMalformed \<equiv> AccountIdActMalformedConverter_parse"

abbreviation asUint32_conv :: "uint32 converter" where
  "asUint32_conv \<equiv> Uint32Converter_parse"

abbreviation asString_conv :: "string converter" where
  "asString_conv \<equiv> StringConverter_parse"

abbreviation ledgerHashHex :: "server \<Rightarrow> xrpl_lib \<Rightarrow> string converter" where
  "ledgerHashHex \<equiv> LedgerHashConverter_parse"

abbreviation asUint256 :: "server \<Rightarrow> xrpl_lib \<Rightarrow> uint256 converter" where
  "asUint256 \<equiv> Uint256HexConverter_parse"

abbreviation asUint192 :: "server \<Rightarrow> xrpl_lib \<Rightarrow> uint192 converter" where
  "asUint192 \<equiv> Uint192HexConverter_parse"

abbreviation jsonBool :: "bool converter" where
  "jsonBool \<equiv> JsonBoolConverter_parse False"

abbreviation jsonBoolStrict :: "bool converter" where
  "jsonBoolStrict \<equiv> JsonBoolConverter_parse True"

abbreviation accountMarkerStr :: "server \<Rightarrow> xrpl_lib \<Rightarrow> string converter" where
  "accountMarkerStr srv xl \<equiv> AccountMarkerStrConverter_parse srv xl NamesField"

abbreviation accountMarkerStrInvalidParams :: "server \<Rightarrow> xrpl_lib \<Rightarrow> string converter" where
  "accountMarkerStrInvalidParams srv xl \<equiv>
     AccountMarkerStrConverter_parse srv xl InvalidParamsMarker"

definition deferredAccount ::
    "server \<Rightarrow> xrpl_lib \<Rightarrow> account_id converter \<Rightarrow> NonStringAccount \<Rightarrow> account_id deferred converter"
  where
  "deferredAccount srv xl clioConv nonString = DeferredAccountIdConverter_parse srv xl clioConv nonString"

definition deferredAccountId :: "server \<Rightarrow> xrpl_lib \<Rightarrow> account_id deferred converter" where
  "deferredAccountId srv xl = deferredAccount srv xl (accountId srv xl) Fails"

definition deferredAccountIdActMalformed :: "server \<Rightarrow> xrpl_lib \<Rightarrow> account_id deferred converter" where
  "deferredAccountIdActMalformed srv xl = deferredAccount srv xl (accountIdActMalformed xl) Deferred"

end
