(* ===== verification/RpcFields.thy ===== *)
theory RpcFields
  imports RpcItems
begin

text \<open>
  The \<^verbatim>\<open>field\<close> factory of \<^verbatim>\<open>include/rpcspec/Typed.hpp\<close>, and the rules by which a handler's spec is
  shown safe and its parsed Input to keep an invariant. The rules work on the declared items: an
  item \<open>gives\<close> a property of the view it lets through, the items after it \<open>keep\<close> it, and the converter
  relies on it.
\<close>

section \<open>The factory\<close>

definition bfield ::
    "string \<Rightarrow> nat \<Rightarrow> ('m \<Rightarrow> 'i \<Rightarrow> 'i) \<Rightarrow> 'm item list \<Rightarrow> 'm converter \<Rightarrow> ('i, 'm) bound_field" where
  "bfield key member assign items conv =
     \<lparr>bf_key = key, bf_member = member, bf_assign = assign, bf_conv = conv, bf_items = items\<rparr>"

definition tfield ::
    "string \<Rightarrow> nat \<Rightarrow> ('m \<Rightarrow> 'i \<Rightarrow> 'i) \<Rightarrow> 'm item list \<Rightarrow> 'm converter \<Rightarrow> 'i tfield" where
  "tfield key member assign items conv = bound (bfield key member assign items conv)"

definition vfield :: "string \<Rightarrow> unit item list \<Rightarrow> 'i tfield" where
  "vfield key items = unbound (field key items)"

lemma bfield_simps [simp]:
  "bf_key (bfield k m a its c) = k" "bf_member (bfield k m a its c) = m"
  "bf_assign (bfield k m a its c) = a" "bf_conv (bfield k m a its c) = c"
  "bf_items (bfield k m a its c) = its"
  by (simp_all add: bfield_def)

lemma tf_member_simps [simp]:
  "tf_member (tfield k m a its c) = Some m" "tf_member (vfield k fits) = None"
  "tf_member (ledgerSelector srv xl m asg) = Some m" "tf_member (aliased k' bf) = Some (bf_member bf)"
  by (simp_all add: tfield_def vfield_def bound_def unbound_def ledgerSelector_def aliased_def)

lemma tf_key_simps [simp]:
  "tf_key (tfield k m a its c) = k" "tf_key (vfield k fits) = k"
  "tf_key (ledgerSelector srv xl m asg) = ''ledger_index''" "tf_key (aliased k' bf) = bf_key bf"
  by (simp_all add: tfield_def vfield_def bound_def unbound_def ledgerSelector_def aliased_def
      field_def)

section \<open>Good items\<close>

lemma item_sel_simps [simp]:
  "it_verify (requirement_item f) = Some f" "it_modify (requirement_item f) = None"
  "it_default (requirement_item f) = None" "it_skips (requirement_item f) = None"
  "it_verify (modifier_item g) = None" "it_modify (modifier_item g) = Some g"
  "it_default (modifier_item g) = None" "it_skips (modifier_item g) = None"
  "it_verify (check_item h) = None" "it_modify (check_item h) = None"
  "it_default (check_item h) = None" "it_skips (check_item h) = None"
  "it_verify (default_item d) = None" "it_modify (default_item d) = None"
  "it_default (default_item d) = Some d" "it_skips (default_item d) = None"
  "it_verify (guard_item ks p) = None" "it_modify (guard_item ks p) = None"
  "it_default (guard_item ks p) = None" "it_skips (guard_item ks p) = Some p"
  by (simp_all add: requirement_item_def modifier_item_def check_item_def default_item_def
      guard_item_def no_item_def)

lemma WithCustomError_sel [simp]:
  "(it_verify (WithCustomError w c m) = None) = (it_verify w = None)"
  "(it_modify (WithCustomError w c m) = None) = (it_modify w = None)"
  "it_default (WithCustomError w c m) = None" "it_skips (WithCustomError w c m) = None"
  by (simp_all add: WithCustomError_def no_item_def)

lemma guards_item_ok [simp]: "item_ok (ifAbsent k)" "item_ok never"
  by (simp_all add: ifAbsent_def never_def)

lemma guards_sel [simp]:
  "it_verify (ifAbsent k) = None" "it_modify (ifAbsent k) = None" "it_default (ifAbsent k) = None"
  "it_verify never = None" "it_modify never = None" "it_default never = None"
  by (simp_all add: ifAbsent_def never_def)

lemma requirement_item_ok [simp]:
  "item_ok (requirement_item f) \<longleftrightarrow> (\<forall>v. fv_writable v \<longrightarrow> \<not> throws (f v))"
  by (auto simp: item_ok_def processor_def)

lemmas item_ok_modifiers [simp] = clamp.item_ok clamp_as.item_ok null_as.item_ok to_number.item_ok
  lexical_uint32.item_ok to_lower.item_ok

lemmas no_throws [simp] = required.no_throw type_of.no_throw type_any.no_throw min_of.no_throw
  min_array.no_throw max_array.no_throw not_supported.no_throw not_supported_if.no_throw
  one_of.no_throw ledger_index.no_throw account_format.no_throw hex_string.no_throw
  account_base58.no_throw currency.no_throw issuer.no_throw credential_type.no_throw
  account_type.no_throw ledger_entry_type.no_throw account_marker.no_throw
  strict_currency.no_throw currency_issue.no_throw account_id_array.no_throw hex256_array.no_throw
  uint192_array.no_throw authorize_credential.no_throw Between_verify_no_throw

lemma hex_no_throw [simp]:
  "\<not> throws (Uint256HexString_verify srv xl v)" "\<not> throws (Uint192HexString_verify srv xl v)"
  "\<not> throws (Uint160HexString_verify srv xl v)"
  by (simp_all add: Uint256HexString_verify_def Uint192HexString_verify_def
      Uint160HexString_verify_def)

lemma CustomValidator_no_throw [simp]:
  "throws (CustomValidator_verify f v) \<longleftrightarrow> present v \<and> throws (f v)"
  by (simp add: CustomValidator_verify_def)

lemmas WithCustomError_item_ok [simp] = item_ok_WithCustomError

lemma conditional_item_ok [simp]:
  "conditional_ok vs \<Longrightarrow> list_all item_ok vs \<Longrightarrow> item_ok (ifServerClio srv vs)"
  "conditional_ok vs \<Longrightarrow> list_all item_ok vs \<Longrightarrow> item_ok (ifServerXrpld srv vs)"
  by (simp_all add: ifServerClio_def ifServerXrpld_def item_ok_ServerConditional)

lemma nested_item_ok [simp]:
  "list_all item_ok its \<Longrightarrow> item_ok (modifier_item (IfType_modify t its))"
  "list_all field_ok sub \<Longrightarrow> item_ok (modifier_item (Section_modify sub))"
  using optional_modifier.item_ok [OF optional_modifier_IfType [of its t]]
    optional_modifier.item_ok [OF optional_modifier_Section [of sub]]
  by (auto simp: field_ok_def [abs_def])

lemma field_ok_field [simp]: "field_ok (field k its) = list_all item_ok its"
  by (simp add: field_ok_def field_def)

declare conditional_ok_def [simp] ledgerSelector_safe [simp]

section \<open>Total converters\<close>

definition total :: "'m converter \<Rightarrow> bool" where
  "total conv = (\<forall>v. \<not> throws (conv v))"

lemma total_conv [simp]:
  "total (AccountIdConverter_parse srv xl)" "total (HexConverter_parse srv ph)"
  "total (JsonBoolConverter_parse st)" "total Uint32Converter_parse" "total StringConverter_parse"
  "total (AccountIdActMalformedConverter_parse xl)" "total (LedgerHashConverter_parse srv xl)"
  "total (AccountMarkerStrConverter_parse srv xl mm)"
  by (simp_all add: total_def conv_account.no_throw conv_hex.no_throw conv_bool.no_throw
      conv_uint32.no_throw conv_string.no_throw conv_account_malformed.no_throw
      conv_ledger_hash.no_throw conv_marker.no_throw)

lemma total_hex [simp]:
  "total (Uint256HexConverter_parse srv xl)" "total (Uint192HexConverter_parse srv xl)"
  by (simp_all add: Uint256HexConverter_parse_def Uint192HexConverter_parse_def)

lemma total_converter: "total conv \<longleftrightarrow> converter conv (\<lambda>v. True)"
  by (simp add: total_def converter_def)

lemma total_empty [simp]:
  "total conv \<Longrightarrow> total (emptyAsAbsent srv conv)"
  "total dconv \<Longrightarrow> total (emptyAsAbsent_deferred srv dconv)"
  by (simp_all add: total_converter emptyAsAbsent_def emptyAsAbsent_deferred_def
      converter_emptyAsAbsent)

lemma total_deferred [simp]:
  "total (deferredAccountId srv xl)" "total (deferredAccountIdActMalformed srv xl)"
  "total aconv \<Longrightarrow> total (DeferredAssetConverter_parse srv xl aconv)"
  using total_conv(1) [of srv xl] total_conv(6) [of xl]
  by (simp_all add: total_converter deferredAccountId_def deferredAccountIdActMalformed_def
      deferredAccount_def converter_deferred_account converter_deferred_asset)

lemma push_all_no_throw:
  "(\<And>i. i \<in> set is \<Longrightarrow> \<not> throws (body i)) \<Longrightarrow> \<not> throws (push_all body is acc)"
  by (induction "is" arbitrary: acc) (auto simp: throws_obind)

section \<open>What the items of a field establish\<close>

definition reads_only :: "'m item \<Rightarrow> bool" where
  "reads_only it = (\<forall>v. fst (callIfProcessor it v) = v)"

definition passes :: "'m item \<Rightarrow> field_view \<Rightarrow> bool" where
  "passes it v = (snd (callIfProcessor it v) = Ret ())"

definition gives :: "(field_view \<Rightarrow> bool) \<Rightarrow> 'm item \<Rightarrow> bool" where
  "gives P it = (\<forall>v v'. callIfProcessor it v = (v', Ret ()) \<longrightarrow> present v' \<longrightarrow> P v')"

definition stable :: "(field_view \<Rightarrow> bool) \<Rightarrow> 'm item \<Rightarrow> bool" where
  "stable P it = (\<forall>v v'. callIfProcessor it v = (v', Ret ()) \<longrightarrow> (present v \<longrightarrow> P v) \<longrightarrow>
     present v' \<longrightarrow> P v')"

definition establishes :: "'m item list \<Rightarrow> (field_view \<Rightarrow> bool) \<Rightarrow> bool" where
  "establishes its P = (\<forall>v v'. runProcessors its v = (v', Ret ()) \<longrightarrow> present v' \<longrightarrow> P v')"

lemma sbind_eq_Ret:
  "sbind p k = (s', Ret y) \<longleftrightarrow> (\<exists>x s. p = (s, Ret x) \<and> k x s = (s', Ret y))"
  by (cases p; cases "snd p") auto

lemma reads_only_simps [simp]:
  "reads_only (requirement_item f)" "reads_only (check_item h)" "reads_only (default_item d)"
  "reads_only (guard_item ks p)" "reads_only (ifAbsent k)" "reads_only never"
  by (simp_all add: reads_only_def ifAbsent_def never_def)

lemma reads_only_WithCustomError [simp]:
  "reads_only w \<Longrightarrow> reads_only (WithCustomError w c m)"
  by (simp add: reads_only_def callIfProcessor_WithCustomError split_beta)

lemma passes_simps [simp]:
  "passes (requirement_item f) v \<longleftrightarrow> f v = Ret ()" "passes (check_item h) v"
  "passes (default_item d) v" "passes (guard_item ks p) v" "passes (ifAbsent k) v" "passes never v"
  by (simp_all add: passes_def ifAbsent_def never_def)

lemma passes_WithCustomError [simp]: "passes (WithCustomError w c m) v = passes w v"
  by (auto simp: passes_def callIfProcessor_WithCustomError split: prod.split outcome.split)

lemma runProcessors_reads_only:
  assumes "list_all reads_only its"
  shows "fst (runProcessors its v) = v"
    and "snd (runProcessors its v) = Ret () \<longleftrightarrow> list_all (\<lambda>it. passes it v) its"
proof -
  have "fst (runProcessors its v) = v \<and>
      (snd (runProcessors its v) = Ret () \<longleftrightarrow> list_all (\<lambda>it. passes it v) its)"
    using assms
  proof (induction its)
    case (Cons it its)
    obtain v' r where e: "callIfProcessor it v = (v', r)" by fastforce
    with Cons.prems have v': "v' = v" by (auto simp: reads_only_def dest: spec [of _ v])
    show ?case using Cons e v' by (cases r) (auto simp: passes_def)
  qed simp
  then show "fst (runProcessors its v) = v"
    "snd (runProcessors its v) = Ret () \<longleftrightarrow> list_all (\<lambda>it. passes it v) its" by simp_all
qed

lemma runProcessors_reads_only_eq:
  "list_all reads_only its \<Longrightarrow>
     runProcessors its v = (v', Ret ()) \<longleftrightarrow> v' = v \<and> list_all (\<lambda>it. passes it v) its"
  using runProcessors_reads_only [of its v] by (cases "runProcessors its v") auto

lemma callIfProcessor_conditional:
  assumes "conditional_ok vs"
  shows "callIfProcessor (ServerConditional a vs) v = (if a then runProcessors vs v else (v, Ret ()))"
  using callIfProcessor_active [OF assms, of v] callIfProcessor_inactive [of vs v] by (cases a) simp_all

lemma reads_only_conditional [simp]:
  assumes "conditional_ok vs" "list_all reads_only vs"
  shows "reads_only (ifServerClio srv vs)" "reads_only (ifServerXrpld srv vs)"
  using callIfProcessor_conditional [OF assms(1)] runProcessors_reads_only(1) [OF assms(2)]
  by (simp_all add: reads_only_def ifServerClio_def ifServerXrpld_def)

lemma passes_conditional [simp]:
  assumes "conditional_ok vs" "list_all reads_only vs"
  shows "passes (ifServerClio srv vs) v \<longleftrightarrow> (srv = Clio \<longrightarrow> list_all (\<lambda>it. passes it v) vs)"
    and "passes (ifServerXrpld srv vs) v \<longleftrightarrow> (srv = Xrpld \<longrightarrow> list_all (\<lambda>it. passes it v) vs)"
  using callIfProcessor_conditional [OF assms(1)] runProcessors_reads_only(2) [OF assms(2)]
  by (cases srv; simp add: passes_def ifServerClio_def ifServerXrpld_def)+

lemma reads_only_IfType [simp]:
  "list_all reads_only its \<Longrightarrow> reads_only (modifier_item (IfType_modify t its))"
  by (simp add: reads_only_def IfType_modify_def runProcessors_reads_only)

lemma passes_IfType [simp]:
  "list_all reads_only its \<Longrightarrow> passes (modifier_item (IfType_modify t its)) v \<longleftrightarrow>
     (present v \<longrightarrow> is_type t v \<longrightarrow> list_all (\<lambda>it. passes it v) its)"
  by (simp add: passes_def IfType_modify_def runProcessors_reads_only)

lemma item_ok_reads_only:
  "reads_only it \<Longrightarrow> item_ok it \<longleftrightarrow> (\<forall>v. fv_writable v \<longrightarrow> \<not> throws (snd (callIfProcessor it v)))"
  by (simp add: item_ok_def processor_def reads_only_def)

lemma child_put_child [simp]: "child_put v (child v k) = v"
  by (cases v; cases "fv_value v")
    (auto simp: child_put_def child_def json_put_def split: json.split option.split)

definition nested_reads_only :: "field_spec list \<Rightarrow> bool" where
  "nested_reads_only sub = list_all (\<lambda>fs. list_all reads_only (fs_items fs)) sub"

definition nested_passes :: "field_spec list \<Rightarrow> field_view \<Rightarrow> bool" where
  "nested_passes sub v =
     list_all (\<lambda>fs. list_all (\<lambda>it. passes it (child v (fs_key fs))) (fs_items fs)) sub"

lemma run_nested_reads_only:
  assumes "nested_reads_only sub"
  shows "fst (run_nested sub v) = v \<and> (snd (run_nested sub v) = Ret () \<longleftrightarrow> nested_passes sub v)"
  using assms
proof (induction sub)
  case (Cons fs sub)
  then have ro: "list_all reads_only (fs_items fs)" by (simp add: nested_reads_only_def)
  obtain w r where e: "runProcessors (fs_items fs) (child v (fs_key fs)) = (w, r)" by fastforce
  have w: "w = child v (fs_key fs)"
    and r: "r = Ret () \<longleftrightarrow> list_all (\<lambda>it. passes it (child v (fs_key fs))) (fs_items fs)"
    using runProcessors_reads_only [OF ro, of "child v (fs_key fs)"] e by simp_all
  have "processNested fs v = (v, r)" using e w by (simp add: processNested_def)
  then show ?case
    using Cons r by (cases r) (auto simp: nested_reads_only_def nested_passes_def)
qed (simp add: nested_passes_def)

lemma reads_only_Section [simp]:
  "nested_reads_only sub \<Longrightarrow> reads_only (modifier_item (Section_modify sub))"
  by (simp add: reads_only_def Section_modify_def run_nested_reads_only)

lemma passes_Section [simp]:
  "nested_reads_only sub \<Longrightarrow> passes (modifier_item (Section_modify sub)) v \<longleftrightarrow>
     (present v \<longrightarrow> isObject v \<and> nested_passes sub v)"
  by (auto simp: passes_def Section_modify_def run_nested_reads_only)

lemma nested_simps [simp]:
  "nested_reads_only []" "nested_passes [] v"
  "nested_reads_only (field k its # sub) \<longleftrightarrow> list_all reads_only its \<and> nested_reads_only sub"
  "nested_passes (field k its # sub) v \<longleftrightarrow>
     list_all (\<lambda>it. passes it (child v k)) its \<and> nested_passes sub v"
  by (simp_all add: nested_reads_only_def nested_passes_def field_def)

lemma reads_only_stable: "reads_only it \<Longrightarrow> stable P it"
  by (metis fst_conv reads_only_def stable_def)

lemma gives_passes: "reads_only it \<Longrightarrow> (\<And>v. present v \<Longrightarrow> passes it v \<Longrightarrow> P v) \<Longrightarrow> gives P it"
  by (metis fst_conv snd_conv reads_only_def gives_def passes_def)

lemma stable_all:
  "list_all (stable P) its \<Longrightarrow> runProcessors its v = (v', Ret ()) \<Longrightarrow> (present v \<longrightarrow> P v) \<Longrightarrow>
     present v' \<Longrightarrow> P v'"
proof (induction its arbitrary: v)
  case (Cons it its)
  then obtain w where w: "callIfProcessor it v = (w, Ret ())" "runProcessors its w = (v', Ret ())"
    by (auto simp: sbind_eq_Ret)
  with Cons.prems have "present w \<longrightarrow> P w" by (auto simp: stable_def)
  with Cons w show ?case by auto
qed simp

lemma establishes_here:
  "gives P it \<Longrightarrow> list_all (stable P) its \<Longrightarrow> establishes (it # its) P"
  unfolding establishes_def gives_def by (auto simp: sbind_eq_Ret dest: stable_all)

lemma establishes_later: "establishes its P \<Longrightarrow> establishes (it # its) P"
  by (auto simp: establishes_def sbind_eq_Ret)

lemma establishes_passes:
  assumes "list_all reads_only its"
    and "\<And>v. present v \<Longrightarrow> list_all (\<lambda>it. passes it v) its \<Longrightarrow> P v"
  shows "establishes its P"
  using assms by (auto simp: establishes_def runProcessors_reads_only_eq)

section \<open>Safe fields\<close>

lemma tfield_safe_total [simp]:
  "list_all item_ok its \<Longrightarrow> total conv \<Longrightarrow> tfield_safe (tfield k m a its conv)"
  by (simp add: tfield_def tfield_safe_bound bound_field_safe_def total_def)

lemma tfield_safe_establishes:
  "list_all item_ok its \<Longrightarrow> establishes its P \<Longrightarrow> (\<And>v. present v \<Longrightarrow> P v \<Longrightarrow> \<not> throws (conv v)) \<Longrightarrow>
     tfield_safe (tfield k m a its conv)"
  by (auto simp: tfield_def bound_field_safe_def establishes_def intro!: tfield_safe_bound)

lemma tfield_safe_aliased_total [simp]:
  "list_all item_ok its \<Longrightarrow> total conv \<Longrightarrow> tfield_safe (aliased k' (bfield k m a its conv))"
  by (simp add: tfield_safe_aliased bound_field_safe_def total_def)

lemma tfield_safe_vfield [simp]: "list_all item_ok its \<Longrightarrow> tfield_safe (vfield k its)"
  by (simp add: vfield_def tfield_safe_unbound field_ok_def field_def)

section \<open>Invariants of the parsed Input\<close>

definition tf_keeps :: "('i \<Rightarrow> bool) \<Rightarrow> 'i tfield \<Rightarrow> bool" where
  "tf_keeps Q f = (\<forall>doc out doc' out'. tf_parse f doc out = (doc', out', Ret ()) \<longrightarrow> Q out \<longrightarrow> Q out')"

definition tf_sets :: "('i \<Rightarrow> bool) \<Rightarrow> 'i tfield \<Rightarrow> bool" where
  "tf_sets Q f = (\<forall>doc out doc' out'. tf_parse f doc out = (doc', out', Ret ()) \<longrightarrow> Q out')"

text \<open>The member values a field can produce: its converter's on what its items let through.\<close>

definition yields :: "'m item list \<Rightarrow> 'm converter \<Rightarrow> ('m \<Rightarrow> bool) \<Rightarrow> bool" where
  "yields its conv R = (\<forall>v v' m. runProcessors its v = (v', Ret ()) \<longrightarrow> present v' \<longrightarrow>
     conv v' = Ret m \<longrightarrow> R m)"

definition defaults :: "'m item list \<Rightarrow> ('m \<Rightarrow> bool) \<Rightarrow> bool" where
  "defaults its R = list_all (\<lambda>it. \<forall>d. it_default it = Some d \<longrightarrow> R d) its"

lemma yields_establishes:
  "establishes its P \<Longrightarrow> (\<And>v m. P v \<Longrightarrow> conv v = Ret m \<Longrightarrow> R m) \<Longrightarrow> yields its conv R"
  by (auto simp: yields_def establishes_def)

lemma yields_True [simp]: "yields its conv (\<lambda>m. True)"
  by (simp add: yields_def)

lemma defaults_simps [simp]:
  "defaults [] R" "defaults (it # its) R \<longleftrightarrow> (\<forall>d. it_default it = Some d \<longrightarrow> R d) \<and> defaults its R"
  by (simp_all add: defaults_def)

lemma defaults_True [simp]: "defaults its (\<lambda>m. True)"
  by (simp add: defaults_def list_all_iff)

lemma fold_defaults:
  assumes "defaults its R" and "\<And>m out. R m \<Longrightarrow> Q out \<Longrightarrow> Q (bf_assign f m out)" and "Q out"
  shows "Q (fold (applyIfDefault f) its out)"
  using assms(1,3)
proof (induction its arbitrary: out)
  case (Cons it its)
  then show ?case using assms(2) by (cases "it_default it") (auto simp: applyIfDefault_def)
qed simp

lemma fold_defaults_set:
  assumes "defaults its R" and "\<And>m out. R m \<Longrightarrow> Q (bf_assign f m out)"
    and "list_ex (\<lambda>it. it_default it \<noteq> None) its"
  shows "Q (fold (applyIfDefault f) its out)"
  using assms(1,3)
proof (induction its arbitrary: out)
  case (Cons it its)
  show ?case
  proof (cases "it_default it")
    case None
    with Cons show ?thesis by (simp add: applyIfDefault_def)
  next
    case (Some d)
    with Cons.prems have "Q (bf_assign f d out)" "defaults its R" using assms(2) by auto
    then have "Q (fold (applyIfDefault f) its (bf_assign f d out))"
      using fold_defaults [of its R Q f] assms(2) by blast
    moreover have "applyIfDefault f it out = bf_assign f d out" using Some by (simp add: applyIfDefault_def)
    ultimately show ?thesis by simp
  qed
qed simp

lemma BoundField_Ret_cases:
  assumes "BoundField_parseInto f doc out = (doc', out', Ret ())"
  obtains "skipsField (bf_items f) doc" "out' = out"
  | "out' = fold (applyIfDefault f) (bf_items f) out"
  | v m where "runProcessors (bf_items f) (root_child doc (bf_key f)) = (v, Ret ())" "present v"
      "bf_conv f v = Ret m" "out' = bf_assign f m out"
  using assms
  by (auto simp: BoundField_parseInto_def Let_def split: if_splits prod.splits outcome.splits)

lemma keeps_bound:
  assumes "defaults (bf_items f) R" and "yields (bf_items f) (bf_conv f) R"
    and "\<And>m out. R m \<Longrightarrow> Q out \<Longrightarrow> Q (bf_assign f m out)"
    and "BoundField_parseInto f doc out = (doc', out', Ret ())" and "Q out"
  shows "Q out'"
  using assms(4)
proof (cases rule: BoundField_Ret_cases)
  case 2
  then show ?thesis using fold_defaults [OF assms(1), of Q f out] assms(3,5) by blast
next
  case (3 v m)
  then have "R m" using assms(2) by (auto simp: yields_def)
  then show ?thesis using 3 assms(3,5) by blast
qed (use assms(5) in simp)

lemma tf_keeps_values:
  assumes "defaults its R" and "yields its conv R" and "\<And>m out. R m \<Longrightarrow> Q out \<Longrightarrow> Q (a m out)"
  shows "tf_keeps Q (tfield k mb a its conv)"
proof -
  have "BoundField_parseInto (bfield k mb a its conv) doc out = (doc', out', Ret ()) \<Longrightarrow> Q out \<Longrightarrow> Q out'"
    for doc out doc' out'
    using keeps_bound [of "bfield k mb a its conv" R Q doc out doc' out'] assms by auto
  then show ?thesis by (simp add: tf_keeps_def tfield_def bound_def)
qed

lemma tf_keeps_simps [simp]:
  "(\<And>m out. Q out \<Longrightarrow> Q (a m out)) \<Longrightarrow> tf_keeps Q (tfield k mb a its conv)"
  "tf_keeps Q (vfield k fits)"
  by (auto simp: tf_keeps_def vfield_def unbound_def intro: tf_keeps_values [of _ "\<lambda>m. True"]
      split: prod.splits)
    (use tf_keeps_values [of its "\<lambda>m. True" conv Q a k mb] in \<open>auto simp: tf_keeps_def\<close>)

lemma tf_keeps_aliased [simp]:
  assumes "\<And>m out. Q out \<Longrightarrow> Q (a m out)"
  shows "tf_keeps Q (aliased k' (bfield k mb a its conv))"
proof -
  have "BoundField_parseInto f doc out = (doc', out', Ret ()) \<Longrightarrow> Q out \<Longrightarrow> Q out'"
    if "bf_assign f = a" for f doc out doc' out'
    using keeps_bound [of f "\<lambda>m. True" Q doc out doc' out'] assms that by simp
  from this [of "bfield k mb a its conv"] this [of "bfield k mb a its conv\<lparr>bf_key := k'\<rparr>"]
  show ?thesis
    by (auto simp: tf_keeps_def aliased_def AliasedField_parseInto_def split: if_splits)
qed

lemma tf_keeps_selector [simp]:
  "(\<And>l out. Q out \<Longrightarrow> Q (asg l out)) \<Longrightarrow> tf_keeps Q (ledgerSelector srv xl mb asg)"
  by (auto simp: tf_keeps_def ledgerSelector_def LedgerSelectorField_parseInto_def
      split: if_splits outcome.splits option.splits)

lemma tf_sets_values:
  assumes "list_all (\<lambda>it. it_skips it = None) its" and "list_ex (\<lambda>it. it_default it \<noteq> None) its"
    and "defaults its R" and "yields its conv R" and "\<And>m out. R m \<Longrightarrow> Q (a m out)"
  shows "tf_sets Q (tfield k mb a its conv)"
proof -
  have "Q out'" if "BoundField_parseInto (bfield k mb a its conv) doc out = (doc', out', Ret ())"
    for doc out doc' out'
    using that
  proof (cases rule: BoundField_Ret_cases)
    case 1
    then show ?thesis using assms(1) by (auto simp: skipsField_iff list_all_iff)
  next
    case 2
    then show ?thesis
      using fold_defaults_set [OF assms(3), of Q "bfield k mb a its conv" out] assms(2,5) by simp
  next
    case (3 v m)
    then have "R m" using assms(4) by (auto simp: yields_def)
    then show ?thesis using 3 assms(5) by simp
  qed
  then show ?thesis by (simp add: tf_sets_def tfield_def bound_def)
qed

lemma parse_fields_keeps:
  "list_all (tf_keeps Q) fs \<Longrightarrow> parse_fields fs doc out = (doc', out', Ret ()) \<Longrightarrow> Q out \<Longrightarrow> Q out'"
proof (induction fs arbitrary: doc out)
  case (Cons f fs)
  obtain d o' r where e: "tf_parse f doc out = (d, o', r)" by (cases "tf_parse f doc out") auto
  with Cons.prems have r: "r = Ret ()" "parse_fields fs d o' = (doc', out', Ret ())"
    by (auto split: if_splits)
  with e Cons.prems have "Q o'" by (auto simp: tf_keeps_def)
  with Cons r show ?case by auto
qed simp

lemma parse_fields_sets:
  "list_all (tf_keeps Q) fs \<Longrightarrow> f \<in> set fs \<Longrightarrow> tf_sets Q f \<Longrightarrow>
     parse_fields fs doc out = (doc', out', Ret ()) \<Longrightarrow> Q out'"
proof (induction fs arbitrary: doc out)
  case (Cons g fs)
  obtain d o' r where e: "tf_parse g doc out = (d, o', r)" by (cases "tf_parse g doc out") auto
  with Cons.prems have r: "r = Ret ()" "parse_fields fs d o' = (doc', out', Ret ())"
    by (auto split: if_splits)
  show ?case
  proof (cases "f = g")
    case True
    then have "Q o'" using e r Cons.prems by (auto simp: tf_sets_def)
    then show ?thesis using parse_fields_keeps [of Q fs d o' doc' out'] Cons.prems r by simp
  next
    case False
    then show ?thesis using Cons r by auto
  qed
qed simp

lemma TypedSpec_Ret:
  "snd (TypedSpec_parse init sp doc) = Ret inp \<Longrightarrow>
     \<exists>doc'. parse_fields (effective tf_key sp) doc init = (doc', inp, Ret ())"
  by (auto simp: TypedSpec_parse_fields omap_eq_Ret split: prod.splits)

text \<open>An invariant every field keeps holds of the parsed Input, if it holds of the initial one \<dots>\<close>

lemma TypedSpec_keeps:
  assumes "list_all (tf_keeps Q) sp" and "Q init" and "snd (TypedSpec_parse init sp doc) = Ret inp"
  shows "Q inp"
  using TypedSpec_Ret [OF assms(3)] parse_fields_keeps [OF list_all_effective [OF assms(1)]] assms(2)
  by blast

text \<open>\<dots> or if every field of one key, that the spec declares, sets it.\<close>

lemma TypedSpec_sets:
  assumes "list_all (tf_keeps Q) sp" and "k \<in> tf_key ` set sp"
    and "\<forall>f \<in> set sp. tf_key f = k \<longrightarrow> tf_sets Q f"
    and "snd (TypedSpec_parse init sp doc) = Ret inp"
  shows "Q inp"
proof -
  obtain f where f: "f \<in> set (effective tf_key sp)" "tf_key f = k"
  proof -
    have "k \<in> tf_key ` set (effective tf_key sp)"
      using assms(2) keys_effective [of tf_key sp] set_first_keys [of tf_key sp] by (metis set_map)
    then show ?thesis using that by blast
  qed
  then have "tf_sets Q f" using set_effective [of tf_key sp] assms(3) by blast
  then show ?thesis
    using TypedSpec_Ret [OF assms(4)] parse_fields_sets [OF list_all_effective [OF assms(1)] f(1)]
    by blast
qed

section \<open>Handlers\<close>

lemma HandlerFor_select:
  assumes "specs \<noteq> []"
  shows "\<exists>sp \<in> set specs. HandlerFor_parseInput init specs doc v = snd (TypedSpec_parse init sp doc)"
proof -
  have ok: "versioned_ok specs" using assms by (cases specs) (simp_all add: versioned_ok_def)
  then have "specs ! indexFor (length specs) v \<in> set specs" by (simp add: versioned_ok_def indexFor_less)
  then show ?thesis using HandlerFor_parseInput_eq [OF ok] by blast
qed

lemma TypedSpec_no_throw:
  "list_all tfield_safe sp \<Longrightarrow> \<not> throws (snd (TypedSpec_parse init sp doc))"
  using typed_walk_inv [of sp doc init]
  unfolding TypedSpec_parse_def forEachEffectiveField_list
  by (auto simp: parse_inv_def split: prod.split)

lemma HandlerFor_no_throw:
  assumes "specs \<noteq> []" and "list_all (list_all tfield_safe) specs"
  shows "\<not> throws (HandlerFor_parseInput init specs doc v)"
proof -
  obtain sp where "sp \<in> set specs"
    "HandlerFor_parseInput init specs doc v = snd (TypedSpec_parse init sp doc)"
    using HandlerFor_select [OF assms(1), of init doc v] by blast
  with assms(2) TypedSpec_no_throw [of sp init doc] show ?thesis by (simp add: list_all_iff)
qed

lemma typed_spec_ok_members:
  "typed_spec_ok n sp \<longleftrightarrow> card (set (List.map_filter tf_member sp)) = n"
proof -
  have "{m. Some m \<in> tf_member ` set sp} = set (List.map_filter tf_member sp)"
    by (auto simp: List.map_filter_def image_iff) (metis option.sel)+
  then show ?thesis by (simp add: typed_spec_ok_def distinctBoundMemberCount_card)
qed

end
