(* ===== verification/HandlersAccount.thy ===== *)
theory HandlersAccount
  imports RpcFields
begin

text \<open>
  The account handlers: \<^verbatim>\<open>include/rpcspec/handlers/account_*/Types.hpp\<close> (the Input aggregate and the
  paging constants) and \<^verbatim>\<open>Spec.hpp\<close> (the declared specs). Each handler has its Input as a record,
  the value-initialised Input, its specs and its \<^verbatim>\<open>kSpec\<close>, named after the handler. A member
  index is the position of the member in the aggregate.
\<close>

section \<open>The limit of a page\<close>

text \<open>
  Most paging handlers declare the same items for \<open>limit\<close>, in one of two orders of the default and
  the Clio clamp. \<open>uniformLimit\<close> is the form without a server condition.
\<close>

definition xrpldLimit :: "server \<Rightarrow> uint32 \<Rightarrow> uint32 item list" where
  "xrpldLimit srv kDefault =
     [ifServerXrpld srv [nullAs (SUint32 kDefault)],
      ifServerXrpld srv
        [WithCustomError (type TUint32) (XrpldErr RpcInvalidParams)
           (''Invalid field '' @ q @ ''limit'' @ q @ '', not unsigned integer.''),
         WithCustomError (min_of (NUint32 1)) (XrpldErr RpcInvalidParams)
           (''Invalid field '' @ q @ ''limit'' @ q @ ''.'')]]"

definition pagedLimit :: "server \<Rightarrow> uint32 \<Rightarrow> uint32 \<Rightarrow> uint32 \<Rightarrow> uint32 item list" where
  "pagedLimit srv kMin kMax kDefault =
     xrpldLimit srv kDefault @
     [ifServerClio srv [type TUint32, min_of (NUint32 1)],
      ifServerClio srv [clamp_to (NUint32 kMin) (NUint32 kMax)],
      defaultTo kDefault]"

definition defaultedLimit :: "server \<Rightarrow> uint32 \<Rightarrow> uint32 \<Rightarrow> uint32 \<Rightarrow> uint32 item list" where
  "defaultedLimit srv kMin kMax kDefault =
     xrpldLimit srv kDefault @
     [ifServerClio srv [type TUint32, min_of (NUint32 1)],
      defaultTo kDefault,
      ifServerClio srv [clamp_to (NUint32 kMin) (NUint32 kMax)]]"

definition uniformLimit :: "uint32 \<Rightarrow> uint32 \<Rightarrow> uint32 \<Rightarrow> uint32 item list" where
  "uniformLimit kMin kMax kDefault =
     [type TUint32, min_of (NUint32 1), clamp_to (NUint32 kMin) (NUint32 kMax), defaultTo kDefault]"

section \<open>account_info\<close>

record account_info_Input =
  ai_ledger :: LedgerSpecifier
  ai_account :: "account_id deferred"
  ai_signerLists :: bool
  ai_queue :: bool

definition account_info_init :: account_info_Input where
  "account_info_init = \<lparr>ai_ledger = Unspecified, ai_account = Inl Missing, ai_signerLists = False,
     ai_queue = False\<rparr>"

definition ident_items :: "server \<Rightarrow> 'm item" where
  "ident_items srv =
     ifServerXrpld srv
       [ifAbsent ''account'',
        WithCustomError (required srv) (XrpldErr RpcInvalidParams)
          (''Missing field '' @ q @ ''account'' @ q @ ''.'')]"

definition account_info_kInputSpecV1 :: "server \<Rightarrow> xrpl_lib \<Rightarrow> account_info_Input typed_spec" where
  "account_info_kInputSpecV1 srv xl =
     [ledgerSelector srv xl 0 (\<lambda>m i. i\<lparr>ai_ledger := m\<rparr>),
      tfield ''ident'' 1 (\<lambda>m i. i\<lparr>ai_account := m\<rparr>)
        [ident_items srv, ifServerClio srv [deprecated srv]] (deferredAccountId srv xl),
      tfield ''account'' 1 (\<lambda>m i. i\<lparr>ai_account := m\<rparr>) [] (deferredAccountId srv xl),
      tfield ''signer_lists'' 2 (\<lambda>m i. i\<lparr>ai_signerLists := m\<rparr>) [] jsonBool,
      tfield ''queue'' 3 (\<lambda>m i. i\<lparr>ai_queue := m\<rparr>) [] jsonBool,
      vfield ''ledger'' [ifServerClio srv [deprecated srv]],
      vfield ''strict'' [ifServerClio srv [deprecated srv]]]"

definition account_info_kInputSpecV2 :: "server \<Rightarrow> xrpl_lib \<Rightarrow> account_info_Input typed_spec" where
  "account_info_kInputSpecV2 srv xl =
     textend (account_info_kInputSpecV1 srv xl)
       [tfield ''signer_lists'' 2 (\<lambda>m i. i\<lparr>ai_signerLists := m\<rparr>) []
          (JsonBoolConverter_parse (kIsClioBuild srv))]"

definition account_info_kSpec :: "server \<Rightarrow> xrpl_lib \<Rightarrow> account_info_Input typed_spec list" where
  "account_info_kSpec srv xl = [account_info_kInputSpecV1 srv xl, account_info_kInputSpecV2 srv xl]"

section \<open>account_channels\<close>

record account_channels_Input =
  ac_ledger :: LedgerSpecifier
  ac_account :: account_id
  ac_destinationAccount :: "account_id option"
  ac_limit :: uint32
  ac_marker :: "string option"

definition account_channels_init :: account_channels_Input where
  "account_channels_init = \<lparr>ac_ledger = Unspecified, ac_account = 0, ac_destinationAccount = None,
     ac_limit = 0, ac_marker = None\<rparr>"

definition account_channels_kInputSpec :: "server \<Rightarrow> xrpl_lib \<Rightarrow> account_channels_Input typed_spec" where
  "account_channels_kInputSpec srv xl =
     [ledgerSelector srv xl 0 (\<lambda>m i. i\<lparr>ac_ledger := m\<rparr>),
      tfield ''account'' 1 (\<lambda>m i. i\<lparr>ac_account := m\<rparr>) [required srv] (accountId srv xl),
      tfield ''destination_account'' 2 (\<lambda>m i. i\<lparr>ac_destinationAccount := m\<rparr>)
        [ifServerClio srv [type TString]] (emptyAsAbsent srv (accountId srv xl)),
      tfield ''limit'' 3 (\<lambda>m i. i\<lparr>ac_limit := m\<rparr>) (defaultedLimit srv 10 400 200) asUint32_conv,
      tfield ''marker'' 4 (\<lambda>m i. i\<lparr>ac_marker := Some m\<rparr>) [] (accountMarkerStrInvalidParams srv xl)]"

definition account_channels_kSpec :: "server \<Rightarrow> xrpl_lib \<Rightarrow> account_channels_Input typed_spec list" where
  "account_channels_kSpec srv xl = [account_channels_kInputSpec srv xl]"

section \<open>account_currencies\<close>

record account_currencies_Input =
  acu_ledger :: LedgerSpecifier
  acu_account :: "account_id deferred"
  acu_limit :: uint32
  acu_marker :: "string option"

definition account_currencies_init :: account_currencies_Input where
  "account_currencies_init = \<lparr>acu_ledger = Unspecified, acu_account = Inr 0, acu_limit = 0,
     acu_marker = None\<rparr>"

definition account_currencies_kInputSpec ::
    "server \<Rightarrow> xrpl_lib \<Rightarrow> account_currencies_Input typed_spec" where
  "account_currencies_kInputSpec srv xl =
     [ledgerSelector srv xl 0 (\<lambda>m i. i\<lparr>acu_ledger := m\<rparr>),
      tfield ''ident'' 1 (\<lambda>m i. i\<lparr>acu_account := m\<rparr>)
        [ident_items srv, ifServerClio srv [never]] (deferredAccountId srv xl),
      tfield ''account'' 1 (\<lambda>m i. i\<lparr>acu_account := m\<rparr>) [ifServerClio srv [required srv]]
        (deferredAccountId srv xl),
      tfield ''limit'' 2 (\<lambda>m i. i\<lparr>acu_limit := m\<rparr>) (pagedLimit srv 10 400 200) asUint32_conv,
      tfield ''marker'' 3 (\<lambda>m i. i\<lparr>acu_marker := Some m\<rparr>) [] (accountMarkerStrInvalidParams srv xl),
      vfield ''account_index'' [ifServerClio srv [deprecated srv]],
      vfield ''strict'' [ifServerClio srv [deprecated srv]]]"

definition account_currencies_kSpec ::
    "server \<Rightarrow> xrpl_lib \<Rightarrow> account_currencies_Input typed_spec list" where
  "account_currencies_kSpec srv xl = [account_currencies_kInputSpec srv xl]"

section \<open>account_lines\<close>

record account_lines_Input =
  al_ledger :: LedgerSpecifier
  al_account :: "account_id deferred"
  al_peer :: "account_id deferred"
  al_ignoreDefault :: bool
  al_limit :: uint32
  al_marker :: "string option"

definition account_lines_init :: account_lines_Input where
  "account_lines_init = \<lparr>al_ledger = Unspecified, al_account = Inr 0, al_peer = Inl Missing,
     al_ignoreDefault = False, al_limit = 0, al_marker = None\<rparr>"

definition LinesAccountConverter_parse :: "server \<Rightarrow> xrpl_lib \<Rightarrow> account_id deferred converter" where
  "LinesAccountConverter_parse srv xl v =
     (if kIsXrpldBuild srv then deferredAccountId srv xl v
      else omap Inr (accountIdActMalformed xl v))"

definition AsBoolConverter_parse :: "server \<Rightarrow> bool converter" where
  "AsBoolConverter_parse srv v =
     (if kIsXrpldBuild srv then
        (case jsonBool v of Ret coerced \<Rightarrow> Ret coerced | Fail e \<Rightarrow> Ret False | Throw x \<Rightarrow> Throw x)
      else if \<not> isBool v then Fail invalidParams
      else asBool v)"

definition account_lines_kInputSpecV1 :: "server \<Rightarrow> xrpl_lib \<Rightarrow> account_lines_Input typed_spec" where
  "account_lines_kInputSpecV1 srv xl =
     [ledgerSelector srv xl 0 (\<lambda>m i. i\<lparr>al_ledger := m\<rparr>),
      tfield ''account'' 1 (\<lambda>m i. i\<lparr>al_account := m\<rparr>) [required srv]
        (LinesAccountConverter_parse srv xl),
      tfield ''peer'' 2 (\<lambda>m i. i\<lparr>al_peer := m\<rparr>) []
        (emptyAsAbsent_deferred srv (LinesAccountConverter_parse srv xl)),
      tfield ''ignore_default'' 3 (\<lambda>m i. i\<lparr>al_ignoreDefault := m\<rparr>)
        [ifServerClio srv [type TBool]] (AsBoolConverter_parse srv),
      tfield ''limit'' 4 (\<lambda>m i. i\<lparr>al_limit := m\<rparr>) (pagedLimit srv 10 400 200) asUint32_conv,
      tfield ''marker'' 5 (\<lambda>m i. i\<lparr>al_marker := Some m\<rparr>) [] (accountMarkerStrInvalidParams srv xl),
      vfield ''ledger'' [ifServerClio srv [deprecated srv]],
      vfield ''peer_index'' [ifServerClio srv [deprecated srv]]]"

definition account_lines_kSpec :: "server \<Rightarrow> xrpl_lib \<Rightarrow> account_lines_Input typed_spec list" where
  "account_lines_kSpec srv xl = [account_lines_kInputSpecV1 srv xl]"

section \<open>account_mptoken_issuances\<close>

record account_mptoken_issuances_Input =
  ami_ledger :: LedgerSpecifier
  ami_account :: account_id
  ami_limit :: uint32
  ami_marker :: "string option"

definition account_mptoken_issuances_init :: account_mptoken_issuances_Input where
  "account_mptoken_issuances_init = \<lparr>ami_ledger = Unspecified, ami_account = 0, ami_limit = 0, ami_marker = None\<rparr>"

definition account_mptoken_issuances_kInputSpec ::
    "server \<Rightarrow> xrpl_lib \<Rightarrow> account_mptoken_issuances_Input typed_spec" where
  "account_mptoken_issuances_kInputSpec srv xl =
     [ledgerSelector srv xl 0 (\<lambda>m i. i\<lparr>ami_ledger := m\<rparr>),
      tfield ''account'' 1 (\<lambda>m i. i\<lparr>ami_account := m\<rparr>) [required srv] (accountIdActMalformed xl),
      tfield ''limit'' 2 (\<lambda>m i. i\<lparr>ami_limit := m\<rparr>) (uniformLimit 10 400 200) asUint32_conv,
      tfield ''marker'' 3 (\<lambda>m i. i\<lparr>ami_marker := Some m\<rparr>) [accountMarker srv xl] asString_conv,
      vfield ''ledger'' [deprecated srv]]"

definition account_mptoken_issuances_kSpec :: "server \<Rightarrow> xrpl_lib \<Rightarrow> account_mptoken_issuances_Input typed_spec list" where
  "account_mptoken_issuances_kSpec srv xl = [account_mptoken_issuances_kInputSpec srv xl]"

section \<open>account_mptokens\<close>

record account_mptokens_Input =
  amt_ledger :: LedgerSpecifier
  amt_account :: account_id
  amt_limit :: uint32
  amt_marker :: "string option"

definition account_mptokens_init :: account_mptokens_Input where
  "account_mptokens_init = \<lparr>amt_ledger = Unspecified, amt_account = 0, amt_limit = 0, amt_marker = None\<rparr>"

definition account_mptokens_kInputSpec ::
    "server \<Rightarrow> xrpl_lib \<Rightarrow> account_mptokens_Input typed_spec" where
  "account_mptokens_kInputSpec srv xl =
     [ledgerSelector srv xl 0 (\<lambda>m i. i\<lparr>amt_ledger := m\<rparr>),
      tfield ''account'' 1 (\<lambda>m i. i\<lparr>amt_account := m\<rparr>) [required srv] (accountIdActMalformed xl),
      tfield ''limit'' 2 (\<lambda>m i. i\<lparr>amt_limit := m\<rparr>) (uniformLimit 10 400 200) asUint32_conv,
      tfield ''marker'' 3 (\<lambda>m i. i\<lparr>amt_marker := Some m\<rparr>) [accountMarker srv xl] asString_conv,
      vfield ''ledger'' [deprecated srv]]"

definition account_mptokens_kSpec :: "server \<Rightarrow> xrpl_lib \<Rightarrow> account_mptokens_Input typed_spec list" where
  "account_mptokens_kSpec srv xl = [account_mptokens_kInputSpec srv xl]"

section \<open>account_nfts\<close>

record account_nfts_Input =
  an_ledger :: LedgerSpecifier
  an_account :: account_id
  an_limit :: uint32
  an_marker :: "uint256 option"

definition account_nfts_init :: account_nfts_Input where
  "account_nfts_init = \<lparr>an_ledger = Unspecified, an_account = 0, an_limit = 0, an_marker = None\<rparr>"

definition account_nfts_kInputSpec :: "server \<Rightarrow> xrpl_lib \<Rightarrow> account_nfts_Input typed_spec" where
  "account_nfts_kInputSpec srv xl =
     [ledgerSelector srv xl 0 (\<lambda>m i. i\<lparr>an_ledger := m\<rparr>),
      tfield ''account'' 1 (\<lambda>m i. i\<lparr>an_account := m\<rparr>) [required srv] (accountId srv xl),
      tfield ''limit'' 2 (\<lambda>m i. i\<lparr>an_limit := m\<rparr>) (pagedLimit srv 20 400 100) asUint32_conv,
      tfield ''marker'' 3 (\<lambda>m i. i\<lparr>an_marker := Some m\<rparr>)
        [ifServerXrpld srv [WithCustomError (type TString) (XrpldErr RpcInvalidParams)
           (''Invalid field '' @ q @ ''marker'' @ q @ '', not string.'')]] (asUint256 srv xl)]"

definition account_nfts_kSpec :: "server \<Rightarrow> xrpl_lib \<Rightarrow> account_nfts_Input typed_spec list" where
  "account_nfts_kSpec srv xl = [account_nfts_kInputSpec srv xl]"

section \<open>account_offers\<close>

record account_offers_Input =
  af_ledger :: LedgerSpecifier
  af_account :: "account_id deferred"
  af_limit :: uint32
  af_marker :: "string option"

definition account_offers_init :: account_offers_Input where
  "account_offers_init = \<lparr>af_ledger = Unspecified, af_account = Inr 0, af_limit = 0, af_marker = None\<rparr>"

definition account_offers_kInputSpecV1 :: "server \<Rightarrow> xrpl_lib \<Rightarrow> account_offers_Input typed_spec" where
  "account_offers_kInputSpecV1 srv xl =
     [ledgerSelector srv xl 0 (\<lambda>m i. i\<lparr>af_ledger := m\<rparr>),
      tfield ''account'' 1 (\<lambda>m i. i\<lparr>af_account := m\<rparr>) [required srv] (deferredAccountId srv xl),
      tfield ''limit'' 2 (\<lambda>m i. i\<lparr>af_limit := m\<rparr>) (pagedLimit srv 10 400 200) asUint32_conv,
      tfield ''marker'' 3 (\<lambda>m i. i\<lparr>af_marker := Some m\<rparr>) [] (accountMarkerStr srv xl),
      vfield ''ledger'' [ifServerClio srv [deprecated srv]],
      vfield ''strict'' [ifServerClio srv [deprecated srv]]]"

definition account_offers_kSpec :: "server \<Rightarrow> xrpl_lib \<Rightarrow> account_offers_Input typed_spec list" where
  "account_offers_kSpec srv xl = [account_offers_kInputSpecV1 srv xl, account_offers_kInputSpecV1 srv xl]"

section \<open>account_objects\<close>

record account_objects_Input =
  ao_ledger :: LedgerSpecifier
  ao_account :: account_id
  ao_limit :: uint32
  ao_marker :: "string option"
  ao_type :: "LedgerEntryType option"
  ao_deletionBlockersOnly :: bool
  ao_sponsored :: "bool option"

definition account_objects_init :: account_objects_Input where
  "account_objects_init = \<lparr>ao_ledger = Unspecified, ao_account = 0, ao_limit = 0, ao_marker = None,
     ao_type = None, ao_deletionBlockersOnly = False, ao_sponsored = None\<rparr>"

definition AccountOwnedTypeConverter_parse :: "LedgerEntryType converter" where
  "AccountOwnedTypeConverter_parse v =
     (if \<not> isString v then Fail (status_msg kMalformedField (expectedFieldMessage (fv_key v) ''string''))
      else obind (asString v) (\<lambda>s.
        let entryType = accountOwnedLedgerTypeFromStr s
        in if entryType = ltANY then Fail (status_msg kMalformedField (invalidFieldMessage (fv_key v)))
           else Ret entryType))"

definition MarkerStringConverter_parse :: "string converter" where
  "MarkerStringConverter_parse v = asString v"

definition account_objects_kInputSpecV1 :: "server \<Rightarrow> xrpl_lib \<Rightarrow> account_objects_Input typed_spec" where
  "account_objects_kInputSpecV1 srv xl =
     [ledgerSelector srv xl 0 (\<lambda>m i. i\<lparr>ao_ledger := m\<rparr>),
      tfield ''account'' 1 (\<lambda>m i. i\<lparr>ao_account := m\<rparr>) [required srv] (accountId srv xl),
      tfield ''limit'' 2 (\<lambda>m i. i\<lparr>ao_limit := m\<rparr>) (uniformLimit 10 400 200) asUint32_conv,
      tfield ''type'' 4 (\<lambda>m i. i\<lparr>ao_type := Some m\<rparr>) [] AccountOwnedTypeConverter_parse,
      tfield ''marker'' 3 (\<lambda>m i. i\<lparr>ao_marker := Some m\<rparr>) [accountMarker srv xl]
        MarkerStringConverter_parse,
      tfield ''deletion_blockers_only'' 5 (\<lambda>m i. i\<lparr>ao_deletionBlockersOnly := m\<rparr>) [] jsonBoolStrict,
      tfield ''sponsored'' 6 (\<lambda>m i. i\<lparr>ao_sponsored := Some m\<rparr>) [] jsonBoolStrict]"

definition account_objects_kSpec :: "server \<Rightarrow> xrpl_lib \<Rightarrow> account_objects_Input typed_spec list" where
  "account_objects_kSpec srv xl = [account_objects_kInputSpecV1 srv xl]"

section \<open>account_tx\<close>

type_synonym int32 = "32 word"

record Marker =
  mk_ledger :: uint32
  mk_seq :: uint32

datatype Role = Actor | Authorizer

record DelegateFilter =
  df_delegateType :: Role
  df_counterParty :: "string option"

record account_tx_Input =
  atx_ledger :: LedgerSpecifier
  atx_account :: account_id
  atx_ledgerIndexMin :: "int32 option"
  atx_ledgerIndexMax :: "int32 option"
  atx_binary :: bool
  atx_forward :: bool
  atx_limit :: "uint32 option"
  atx_marker :: "Marker option"
  atx_transactionTypeInLowercase :: "string option"
  atx_mptIssuanceId :: "uint192 option"
  atx_delegateFilter :: "DelegateFilter option"

definition account_tx_init :: account_tx_Input where
  "account_tx_init = \<lparr>atx_ledger = Unspecified, atx_account = 0, atx_ledgerIndexMin = None,
     atx_ledgerIndexMax = None, atx_binary = False, atx_forward = False, atx_limit = None,
     atx_marker = None, atx_transactionTypeInLowercase = None, atx_mptIssuanceId = None,
     atx_delegateFilter = None\<rparr>"

definition kTxTypeValidator :: "xrpl_lib \<Rightarrow> 'm item" where
  "kTxTypeValidator xl = customValidator (\<lambda>v.
     if \<not> isString v then Fail invalidParams
     else obind (asString v) (\<lambda>sv.
       if sv \<notin> set (txTypesInLowercase xl)
       then Fail (status_msg (XrpldErr RpcInvalidParams) (''Invalid field '' @ q @ fv_key v @ q @ ''.''))
       else Ret ()))"

text \<open>The narrowing cast keeps the low 32 bits; -1 stands for no bound.\<close>

definition Int32BoundConverter_parse :: "int32 option converter" where
  "Int32BoundConverter_parse v =
     obind (asInt64 v) (\<lambda>x.
       let value = ucast x :: int32 in if sint value = - 1 then Ret None else Ret (Some value))"

definition MarkerConverter_parse :: "Marker converter" where
  "MarkerConverter_parse v =
     obind (asUint32 (child v ''ledger'')) (\<lambda>l.
       obind (asUint32 (child v ''seq'')) (\<lambda>s. Ret \<lparr>mk_ledger = l, mk_seq = s\<rparr>))"

definition delegate_verify :: "xrpl_lib \<Rightarrow> requirement" where
  "delegate_verify xl v =
     (let filterView = child v ''delegate_filter'';
          counterPartyView = child v ''counter_party''
      in if \<not> isObject v then
           Fail (status_msg (XrpldErr RpcInvalidParams) (fv_key v @ ''NotObject''))
         else if \<not> present filterView then
           Fail (status_msg (XrpldErr RpcInvalidParams)
             (''Field '' @ q @ ''delegate_filter'' @ q @ '' is required but missing.''))
         else
           let invalid = Fail (status_msg (XrpldErr RpcInvalidParams)
                 (''Field '' @ q @ ''delegate_filter'' @ q @ '' value must be '' @ q @ ''actor'' @ q @
                  '' or '' @ q @ ''authorizer'' @ q @ ''.''))
           in if \<not> isString filterView then invalid
              else obind (asString filterView) (\<lambda>s.
                if s \<noteq> ''actor'' \<and> s \<noteq> ''authorizer'' then invalid
                else if present counterPartyView then
                  (case AccountFormat_verify xl counterPartyView of
                    Fail _ \<Rightarrow> Fail (status_msg (XrpldErr RpcActMalformed)
                      (''Field '' @ q @ ''counter_party'' @ q @ '' value must be a valid account.''))
                  | r \<Rightarrow> r)
                else Ret ()))"

definition kDelegateValidator :: "xrpl_lib \<Rightarrow> 'm item" where
  "kDelegateValidator xl = customValidator (delegate_verify xl)"

definition DelegateConverter_parse :: "DelegateFilter converter" where
  "DelegateConverter_parse v =
     obind (asString (child v ''delegate_filter'')) (\<lambda>s.
       let out = \<lparr>df_delegateType = (if s = ''actor'' then Actor else Authorizer), df_counterParty = None\<rparr>;
           counterPartyView = child v ''counter_party''
       in if present counterPartyView
          then obind (asString counterPartyView) (\<lambda>c. Ret (out\<lparr>df_counterParty := Some c\<rparr>))
          else Ret out)"

definition markerObject_items :: "server \<Rightarrow> 'm item list" where
  "markerObject_items srv =
     [WithCustomError (type TObject) (XrpldErr RpcInvalidParams) ''invalidMarker'',
      ifType TObject [section_of
        [field ''ledger'' [required srv, type TUint32],
         field ''seq'' [required srv, type TUint32]]]]"

definition account_tx_kInputSpecV1 :: "server \<Rightarrow> xrpl_lib \<Rightarrow> account_tx_Input typed_spec" where
  "account_tx_kInputSpecV1 srv xl =
     [ledgerSelector srv xl 0 (\<lambda>m i. i\<lparr>atx_ledger := m\<rparr>),
      tfield ''account'' 1 (\<lambda>m i. i\<lparr>atx_account := m\<rparr>) [required srv] (accountId srv xl),
      tfield ''ledger_index_min'' 2 (\<lambda>m i. i\<lparr>atx_ledgerIndexMin := m\<rparr>) [type TInt64, clampAs I32]
        Int32BoundConverter_parse,
      tfield ''ledger_index_max'' 3 (\<lambda>m i. i\<lparr>atx_ledgerIndexMax := m\<rparr>) [type TInt64, clampAs I32]
        Int32BoundConverter_parse,
      vfield ''ctid'' [type TString],
      tfield ''limit'' 6 (\<lambda>m i. i\<lparr>atx_limit := Some m\<rparr>)
        [type TUint32, min_of (NUint32 1), clamp_to (NUint32 1) (NUint32 1000)] asUint32_conv,
      tfield ''marker'' 7 (\<lambda>m i. i\<lparr>atx_marker := Some m\<rparr>) (markerObject_items srv)
        MarkerConverter_parse,
      tfield ''binary'' 4 (\<lambda>m i. i\<lparr>atx_binary := m\<rparr>) [] jsonBool,
      tfield ''forward'' 5 (\<lambda>m i. i\<lparr>atx_forward := m\<rparr>) [] jsonBool,
      tfield ''tx_type'' 8 (\<lambda>m i. i\<lparr>atx_transactionTypeInLowercase := Some m\<rparr>)
        [toLower, kTxTypeValidator xl] asString_conv,
      tfield ''mpt_issuance_id'' 9 (\<lambda>m i. i\<lparr>atx_mptIssuanceId := Some m\<rparr>) [] (asUint192 srv xl),
      tfield ''delegate'' 10 (\<lambda>m i. i\<lparr>atx_delegateFilter := Some m\<rparr>) [kDelegateValidator xl]
        DelegateConverter_parse]"

definition account_tx_kInputSpecV2 :: "server \<Rightarrow> xrpl_lib \<Rightarrow> account_tx_Input typed_spec" where
  "account_tx_kInputSpecV2 srv xl =
     textend (account_tx_kInputSpecV1 srv xl)
       [tfield ''binary'' 4 (\<lambda>m i. i\<lparr>atx_binary := m\<rparr>) [] jsonBoolStrict,
        tfield ''forward'' 5 (\<lambda>m i. i\<lparr>atx_forward := m\<rparr>) [] jsonBoolStrict]"

definition account_tx_kSpec :: "server \<Rightarrow> xrpl_lib \<Rightarrow> account_tx_Input typed_spec list" where
  "account_tx_kSpec srv xl = [account_tx_kInputSpecV1 srv xl, account_tx_kInputSpecV2 srv xl]"

section \<open>The specs are safe\<close>

lemmas limit_defs = xrpldLimit_def pagedLimit_def defaultedLimit_def uniformLimit_def

lemma limits_item_ok [simp]:
  "list_all item_ok (pagedLimit srv a b c)" "list_all item_ok (defaultedLimit srv a b c)"
  "list_all item_ok (uniformLimit a b c)"
  by (simp_all add: limit_defs)

lemma ident_item_ok [simp]: "item_ok (ident_items srv)"
  by (simp add: ident_items_def)

lemmas account_info_specs = account_info_kSpec_def account_info_kInputSpecV1_def
  account_info_kInputSpecV2_def textend_def
lemmas account_channels_specs = account_channels_kSpec_def account_channels_kInputSpec_def
lemmas account_currencies_specs = account_currencies_kSpec_def account_currencies_kInputSpec_def
lemmas account_lines_specs = account_lines_kSpec_def account_lines_kInputSpecV1_def
lemmas account_mptoken_issuances_specs =
  account_mptoken_issuances_kSpec_def account_mptoken_issuances_kInputSpec_def
lemmas account_mptokens_specs = account_mptokens_kSpec_def account_mptokens_kInputSpec_def
lemmas account_nfts_specs = account_nfts_kSpec_def account_nfts_kInputSpec_def
lemmas account_offers_specs = account_offers_kSpec_def account_offers_kInputSpecV1_def
lemmas account_objects_specs = account_objects_kSpec_def account_objects_kInputSpecV1_def
lemmas account_tx_specs = account_tx_kSpec_def account_tx_kInputSpecV1_def account_tx_kInputSpecV2_def
  textend_def

lemma total_lines [simp]:
  "total (LinesAccountConverter_parse srv xl)" "total (AsBoolConverter_parse srv)"
  "total AccountOwnedTypeConverter_parse"
  using total_deferred(1) [of srv xl] conv_bool.no_throw [of False] total_conv(6) [of xl]
  by (auto simp: total_def LinesAccountConverter_parse_def AsBoolConverter_parse_def
      AccountOwnedTypeConverter_parse_def Let_def throws_asString dest: asBool_isBool
      split: outcome.split) (metis throws_simps(3))+

lemma account_info_safe [simp]: "list_all (list_all tfield_safe) (account_info_kSpec srv xl)"
  by (simp add: account_info_specs)

lemma account_channels_safe [simp]: "list_all (list_all tfield_safe) (account_channels_kSpec srv xl)"
  by (simp add: account_channels_specs)

lemma account_currencies_safe [simp]:
  "list_all (list_all tfield_safe) (account_currencies_kSpec srv xl)"
  by (simp add: account_currencies_specs)

lemma account_lines_safe [simp]: "list_all (list_all tfield_safe) (account_lines_kSpec srv xl)"
  by (simp add: account_lines_specs)

lemma account_mptoken_issuances_safe [simp]:
  "list_all (list_all tfield_safe) (account_mptoken_issuances_kSpec srv xl)"
  by (simp add: account_mptoken_issuances_specs)

lemma account_mptokens_safe [simp]: "list_all (list_all tfield_safe) (account_mptokens_kSpec srv xl)"
  by (simp add: account_mptokens_specs)

lemma account_nfts_safe [simp]: "list_all (list_all tfield_safe) (account_nfts_kSpec srv xl)"
  by (simp add: account_nfts_specs)

lemma account_offers_safe [simp]: "list_all (list_all tfield_safe) (account_offers_kSpec srv xl)"
  by (simp add: account_offers_specs)

lemma string_after_marker:
  "establishes [accountMarker srv xl] isString"
  by (rule establishes_passes) (auto simp: account_marker.passes_iff string_field_def isString_value)

lemma account_objects_safe [simp]: "list_all (list_all tfield_safe) (account_objects_kSpec srv xl)"
proof -
  have "tfield_safe (tfield ''marker'' 3 a [accountMarker srv xl] MarkerStringConverter_parse)"
    for a :: "string \<Rightarrow> account_objects_Input \<Rightarrow> account_objects_Input"
    by (rule tfield_safe_establishes [OF _ string_after_marker])
      (auto simp: MarkerStringConverter_parse_def dest: asString_isString)
  then show ?thesis by (simp add: account_objects_specs)
qed

text \<open>What the items of the object-valued fields of \<open>account_tx\<close> leave to their converters.\<close>

lemma marker_after_items:
  "establishes (markerObject_items srv)
     (\<lambda>v. isObject v \<and> isUint32 (child v ''ledger'') \<and> isUint32 (child v ''seq''))"
  by (rule establishes_passes)
    (auto simp: markerObject_items_def type_of.passes_iff required.passes_iff)

lemma int64_after_items: "establishes [type TInt64, clampAs I32] isInt64"
proof (rule establishes_here)
  show "gives isInt64 (type TInt64)"
    by (rule gives_passes) (auto simp: type_of.passes_iff)
  have "isInt64 v'" if "ClampAs_modify I32 v = (v', Ret ())" "present v" "isInt64 v" for v v'
    using that asInt64_isInt64 [of v]
    by (auto simp: ClampAs_modify_def Let_def set_int64_def set_value_def isInt64_def split: if_splits)
  moreover have "isInt64 v'" if "ClampAs_modify I32 v = (v', Ret ())" "\<not> present v" "present v'" for v v'
    using that by (simp add: ClampAs_modify_def)
  ultimately show "list_all (stable isInt64) [clampAs I32]" by (auto simp: stable_def)
qed

lemma delegate_after_items:
  "establishes [kDelegateValidator xl]
     (\<lambda>v. isString (child v ''delegate_filter'') \<and>
       (present (child v ''counter_party'') \<longrightarrow> isString (child v ''counter_party'')))"
  by (rule establishes_passes)
    (auto simp: kDelegateValidator_def CustomValidator_verify_def delegate_verify_def Let_def
      obind_eq_Ret account_format.passes_iff string_field_def isString_value
      split: if_splits outcome.splits)
lemma total_asUint32_conv: "isUint32 v \<Longrightarrow> \<not> throws (asUint32 v)"
  using asUint32_isUint32 [of v] by auto

lemma int32_field_safe [simp]:
  "tfield_safe (tfield k n a [type TInt64, clampAs I32] Int32BoundConverter_parse)"
  by (rule tfield_safe_establishes [OF _ int64_after_items])
    (auto simp: Int32BoundConverter_parse_def Let_def throws_obind dest: asInt64_isInt64)

lemma marker_field_safe [simp]:
  "tfield_safe (tfield k n a (markerObject_items srv) MarkerConverter_parse)"
  by (rule tfield_safe_establishes [OF _ marker_after_items])
    (auto simp: MarkerConverter_parse_def throws_obind markerObject_items_def total_asUint32_conv)

lemma kTxTypeValidator_ok [simp]: "item_ok (kTxTypeValidator xl)"
  by (auto simp: kTxTypeValidator_def throws_asString)

lemma AccountFormat_not_Throw [simp]: "AccountFormat_verify xl v \<noteq> Throw x"
  by (metis account_format.no_throw throws_simps(3))

lemma delegate_field_safe:
  "tfield_safe (tfield k n a [kDelegateValidator xl] DelegateConverter_parse)"
  by (rule tfield_safe_establishes [OF _ delegate_after_items])
    (auto simp: DelegateConverter_parse_def kDelegateValidator_def delegate_verify_def Let_def
      throws_obind throws_asString split: outcome.split dest: asString_isString)

lemma account_tx_safe [simp]: "list_all (list_all tfield_safe) (account_tx_kSpec srv xl)"
  by (simp add: account_tx_specs delegate_field_safe)

end
