(* ===== verification/HandlersNft.thy ===== *)
theory HandlersNft
  imports HandlersAccount
begin

text \<open>
  The token handlers: \<^verbatim>\<open>nft_info\<close>, \<^verbatim>\<open>nft_history\<close>, \<^verbatim>\<open>nft_offers_common\<close>, \<^verbatim>\<open>nfts_by_issuer\<close>,
  \<^verbatim>\<open>mpt_holders\<close> and \<^verbatim>\<open>mptoken_issuance_history\<close> under \<^verbatim>\<open>include/rpcspec/handlers\<close>. The history
  handlers declare their own copies of the marker, bound and type-name items of \<open>account_tx\<close>; they
  are the same code, so the model shares the definitions.
\<close>

section \<open>nft_info\<close>

record nft_info_Input =
  ni_ledger :: LedgerSpecifier
  ni_nftID :: uint256

definition nft_info_init :: nft_info_Input where
  "nft_info_init = \<lparr>ni_ledger = Unspecified, ni_nftID = 0\<rparr>"

definition nft_info_kInputSpec :: "server \<Rightarrow> xrpl_lib \<Rightarrow> nft_info_Input typed_spec" where
  "nft_info_kInputSpec srv xl =
     [ledgerSelector srv xl 0 (\<lambda>m i. i\<lparr>ni_ledger := m\<rparr>),
      tfield ''nft_id'' 1 (\<lambda>m i. i\<lparr>ni_nftID := m\<rparr>) [required srv] (asUint256 srv xl)]"

definition nft_info_kSpec :: "server \<Rightarrow> xrpl_lib \<Rightarrow> nft_info_Input typed_spec list" where
  "nft_info_kSpec srv xl = [nft_info_kInputSpec srv xl]"

section \<open>nft_history\<close>

text \<open>The handler declares these again, with the bodies of \<^verbatim>\<open>account_tx\<close>.\<close>

type_synonym nft_history_Marker = Marker

abbreviation nft_history_Int32BoundConverter_parse :: "int32 option converter" where
  "nft_history_Int32BoundConverter_parse \<equiv> Int32BoundConverter_parse"

abbreviation nft_history_MarkerConverter_parse :: "nft_history_Marker converter" where
  "nft_history_MarkerConverter_parse \<equiv> MarkerConverter_parse"

record nft_history_Input =
  nh_ledger :: LedgerSpecifier
  nh_nftID :: uint256
  nh_ledgerIndexMin :: "int32 option"
  nh_ledgerIndexMax :: "int32 option"
  nh_binary :: bool
  nh_forward :: bool
  nh_limit :: "uint32 option"
  nh_marker :: "nft_history_Marker option"

definition nft_history_init :: nft_history_Input where
  "nft_history_init = \<lparr>nh_ledger = Unspecified, nh_nftID = 0, nh_ledgerIndexMin = None,
     nh_ledgerIndexMax = None, nh_binary = False, nh_forward = False, nh_limit = None,
     nh_marker = None\<rparr>"

definition nft_history_kInputSpecV1 :: "server \<Rightarrow> xrpl_lib \<Rightarrow> nft_history_Input typed_spec" where
  "nft_history_kInputSpecV1 srv xl =
     [ledgerSelector srv xl 0 (\<lambda>m i. i\<lparr>nh_ledger := m\<rparr>),
      tfield ''nft_id'' 1 (\<lambda>m i. i\<lparr>nh_nftID := m\<rparr>) [required srv] (asUint256 srv xl),
      tfield ''ledger_index_min'' 2 (\<lambda>m i. i\<lparr>nh_ledgerIndexMin := m\<rparr>) [type TInt64, clampAs I32]
        nft_history_Int32BoundConverter_parse,
      tfield ''ledger_index_max'' 3 (\<lambda>m i. i\<lparr>nh_ledgerIndexMax := m\<rparr>) [type TInt64, clampAs I32]
        nft_history_Int32BoundConverter_parse,
      tfield ''limit'' 6 (\<lambda>m i. i\<lparr>nh_limit := Some m\<rparr>)
        [type TUint32, min_of (NUint32 1), clamp_to (NUint32 1) (NUint32 100)] asUint32_conv,
      tfield ''marker'' 7 (\<lambda>m i. i\<lparr>nh_marker := Some m\<rparr>) (markerObject_items srv)
        nft_history_MarkerConverter_parse,
      tfield ''binary'' 4 (\<lambda>m i. i\<lparr>nh_binary := m\<rparr>) [] jsonBoolStrict,
      tfield ''forward'' 5 (\<lambda>m i. i\<lparr>nh_forward := m\<rparr>) [] jsonBoolStrict]"

text \<open>\<^verbatim>\<open>kInputSpecV2\<close> is \<^verbatim>\<open>kInputSpecV1\<close>.\<close>

abbreviation nft_history_kInputSpecV2 :: "server \<Rightarrow> xrpl_lib \<Rightarrow> nft_history_Input typed_spec" where
  "nft_history_kInputSpecV2 \<equiv> nft_history_kInputSpecV1"

definition nft_history_kSpec :: "server \<Rightarrow> xrpl_lib \<Rightarrow> nft_history_Input typed_spec list" where
  "nft_history_kSpec srv xl = [nft_history_kInputSpecV1 srv xl, nft_history_kInputSpecV2 srv xl]"

section \<open>nft_buy_offers and nft_sell_offers\<close>

record nft_offers_Input =
  no_ledger :: LedgerSpecifier
  no_nftID :: uint256
  no_limit :: uint32
  no_marker :: "uint256 option"

definition nft_offers_init :: nft_offers_Input where
  "nft_offers_init = \<lparr>no_ledger = Unspecified, no_nftID = 0, no_limit = 0, no_marker = None\<rparr>"

definition nft_offers_kInputSpec :: "server \<Rightarrow> xrpl_lib \<Rightarrow> nft_offers_Input typed_spec" where
  "nft_offers_kInputSpec srv xl =
     [ledgerSelector srv xl 0 (\<lambda>m i. i\<lparr>no_ledger := m\<rparr>),
      tfield ''nft_id'' 1 (\<lambda>m i. i\<lparr>no_nftID := m\<rparr>) [required srv] (asUint256 srv xl),
      tfield ''limit'' 2 (\<lambda>m i. i\<lparr>no_limit := m\<rparr>) (defaultedLimit srv 50 500 250) asUint32_conv,
      tfield ''marker'' 3 (\<lambda>m i. i\<lparr>no_marker := Some m\<rparr>)
        [ifServerXrpld srv
           [WithCustomError (type TString) (XrpldErr RpcInvalidParams)
              (''Invalid field '' @ q @ ''marker'' @ q @ '', not string.''),
            WithCustomError (uint256Hex srv xl) (XrpldErr RpcInvalidParams) []]]
        (asUint256 srv xl)]"

definition nft_offers_kSpec :: "server \<Rightarrow> xrpl_lib \<Rightarrow> nft_offers_Input typed_spec list" where
  "nft_offers_kSpec srv xl = [nft_offers_kInputSpec srv xl]"

section \<open>nfts_by_issuer\<close>

record nfts_by_issuer_Input =
  nbi_ledger :: LedgerSpecifier
  nbi_issuer :: account_id
  nbi_nftTaxon :: "uint32 option"
  nbi_marker :: "uint256 option"
  nbi_limit :: uint32

definition nfts_by_issuer_init :: nfts_by_issuer_Input where
  "nfts_by_issuer_init = \<lparr>nbi_ledger = Unspecified, nbi_issuer = 0, nbi_nftTaxon = None,
     nbi_marker = None, nbi_limit = 0\<rparr>"

definition nfts_by_issuer_kInputSpec :: "server \<Rightarrow> xrpl_lib \<Rightarrow> nfts_by_issuer_Input typed_spec" where
  "nfts_by_issuer_kInputSpec srv xl =
     [ledgerSelector srv xl 0 (\<lambda>m i. i\<lparr>nbi_ledger := m\<rparr>),
      tfield ''issuer'' 1 (\<lambda>m i. i\<lparr>nbi_issuer := m\<rparr>) [required srv] (accountId srv xl),
      tfield ''nft_taxon'' 2 (\<lambda>m i. i\<lparr>nbi_nftTaxon := Some m\<rparr>) [type TUint32] asUint32_conv,
      tfield ''limit'' 4 (\<lambda>m i. i\<lparr>nbi_limit := m\<rparr>) (uniformLimit 1 100 50) asUint32_conv,
      tfield ''marker'' 3 (\<lambda>m i. i\<lparr>nbi_marker := Some m\<rparr>) [] (asUint256 srv xl)]"

definition nfts_by_issuer_kSpec :: "server \<Rightarrow> xrpl_lib \<Rightarrow> nfts_by_issuer_Input typed_spec list" where
  "nfts_by_issuer_kSpec srv xl = [nfts_by_issuer_kInputSpec srv xl]"

section \<open>mpt_holders\<close>

record mpt_holders_Input =
  mh_ledger :: LedgerSpecifier
  mh_mptID :: uint192
  mh_marker :: "account_id option"
  mh_limit :: "uint32 option"
  mh_accounts :: "account_id list option"

definition mpt_holders_init :: mpt_holders_Input where
  "mpt_holders_init = \<lparr>mh_ledger = Unspecified, mh_mptID = 0, mh_marker = None, mh_limit = None,
     mh_accounts = None\<rparr>"

definition AccountIdHexConverter_parse :: "server \<Rightarrow> xrpl_lib \<Rightarrow> account_id converter" where
  "AccountIdHexConverter_parse srv xl v =
     (if \<not> isString v then Fail (status_msg kMalformedField (notStringFieldMessage srv (fv_key v)))
      else obind (asString v) (\<lambda>s.
        case xl_parseHex160 xl (c_str s) of
          None \<Rightarrow> Fail (status_msg kMalformedField (malformedFieldMessage srv (fv_key v)))
        | Some out \<Rightarrow> Ret out))"

definition mpt_holders_kInputSpec :: "server \<Rightarrow> xrpl_lib \<Rightarrow> mpt_holders_Input typed_spec" where
  "mpt_holders_kInputSpec srv xl =
     [ledgerSelector srv xl 0 (\<lambda>m i. i\<lparr>mh_ledger := m\<rparr>),
      tfield ''mpt_issuance_id'' 1 (\<lambda>m i. i\<lparr>mh_mptID := m\<rparr>) [required srv] (asUint192 srv xl),
      tfield ''marker'' 2 (\<lambda>m i. i\<lparr>mh_marker := Some m\<rparr>) [] (AccountIdHexConverter_parse srv xl),
      tfield ''accounts'' 4 (\<lambda>m i. i\<lparr>mh_accounts := m\<rparr>) [accountIdArray xl 100]
        (AccountIdVecConverter_parse xl),
      tfield ''limit'' 3 (\<lambda>m i. i\<lparr>mh_limit := Some m\<rparr>)
        [type TUint32, min_of (NUint32 1), clamp_to (NUint32 1) (NUint32 100)] asUint32_conv]"

definition mpt_holders_kSpec :: "server \<Rightarrow> xrpl_lib \<Rightarrow> mpt_holders_Input typed_spec list" where
  "mpt_holders_kSpec srv xl = [mpt_holders_kInputSpec srv xl]"

section \<open>mptoken_issuance_history\<close>

text \<open>Again with the bodies of \<^verbatim>\<open>account_tx\<close>.\<close>

type_synonym mptoken_issuance_history_Marker = Marker

abbreviation mptoken_issuance_history_kTxTypeValidator :: "xrpl_lib \<Rightarrow> 'm item" where
  "mptoken_issuance_history_kTxTypeValidator \<equiv> kTxTypeValidator"

abbreviation mptoken_issuance_history_Int32BoundConverter_parse :: "int32 option converter" where
  "mptoken_issuance_history_Int32BoundConverter_parse \<equiv> Int32BoundConverter_parse"

abbreviation mptoken_issuance_history_MarkerConverter_parse ::
    "mptoken_issuance_history_Marker converter" where
  "mptoken_issuance_history_MarkerConverter_parse \<equiv> MarkerConverter_parse"

record mptoken_issuance_history_Input =
  mih_ledger :: LedgerSpecifier
  mih_mptIssuanceId :: uint192
  mih_account :: "account_id option"
  mih_ledgerIndexMin :: "int32 option"
  mih_ledgerIndexMax :: "int32 option"
  mih_binary :: bool
  mih_forward :: bool
  mih_limit :: "uint32 option"
  mih_marker :: "mptoken_issuance_history_Marker option"
  mih_transactionTypeInLowercase :: "string option"

definition mptoken_issuance_history_init :: mptoken_issuance_history_Input where
  "mptoken_issuance_history_init = \<lparr>mih_ledger = Unspecified, mih_mptIssuanceId = 0,
     mih_account = None, mih_ledgerIndexMin = None, mih_ledgerIndexMax = None, mih_binary = False,
     mih_forward = False, mih_limit = None, mih_marker = None,
     mih_transactionTypeInLowercase = None\<rparr>"

definition mptoken_issuance_history_kInputSpec ::
    "server \<Rightarrow> xrpl_lib \<Rightarrow> mptoken_issuance_history_Input typed_spec" where
  "mptoken_issuance_history_kInputSpec srv xl =
     [ledgerSelector srv xl 0 (\<lambda>m i. i\<lparr>mih_ledger := m\<rparr>),
      tfield ''mpt_issuance_id'' 1 (\<lambda>m i. i\<lparr>mih_mptIssuanceId := m\<rparr>)
        [required srv, uint192Hex srv xl] (asUint192 srv xl),
      tfield ''account'' 2 (\<lambda>m i. i\<lparr>mih_account := Some m\<rparr>) [] (accountId srv xl),
      tfield ''tx_type'' 9 (\<lambda>m i. i\<lparr>mih_transactionTypeInLowercase := Some m\<rparr>)
        [toLower, mptoken_issuance_history_kTxTypeValidator xl] asString_conv,
      tfield ''ledger_index_min'' 3 (\<lambda>m i. i\<lparr>mih_ledgerIndexMin := m\<rparr>) [type TInt64, clampAs I32]
        mptoken_issuance_history_Int32BoundConverter_parse,
      tfield ''ledger_index_max'' 4 (\<lambda>m i. i\<lparr>mih_ledgerIndexMax := m\<rparr>) [type TInt64, clampAs I32]
        mptoken_issuance_history_Int32BoundConverter_parse,
      tfield ''binary'' 5 (\<lambda>m i. i\<lparr>mih_binary := m\<rparr>) [] jsonBoolStrict,
      tfield ''forward'' 6 (\<lambda>m i. i\<lparr>mih_forward := m\<rparr>) [] jsonBoolStrict,
      tfield ''limit'' 7 (\<lambda>m i. i\<lparr>mih_limit := Some m\<rparr>)
        [type TUint32, min_of (NUint32 1), clamp_to (NUint32 1) (NUint32 100)] asUint32_conv,
      tfield ''marker'' 8 (\<lambda>m i. i\<lparr>mih_marker := Some m\<rparr>) (markerObject_items srv)
        mptoken_issuance_history_MarkerConverter_parse]"

definition mptoken_issuance_history_kSpec ::
    "server \<Rightarrow> xrpl_lib \<Rightarrow> mptoken_issuance_history_Input typed_spec list" where
  "mptoken_issuance_history_kSpec srv xl = [mptoken_issuance_history_kInputSpec srv xl]"

section \<open>The specs are safe\<close>

lemmas nft_info_specs = nft_info_kSpec_def nft_info_kInputSpec_def
lemmas nft_history_specs = nft_history_kSpec_def nft_history_kInputSpecV1_def
lemmas nft_offers_specs = nft_offers_kSpec_def nft_offers_kInputSpec_def
lemmas nfts_by_issuer_specs = nfts_by_issuer_kSpec_def nfts_by_issuer_kInputSpec_def
lemmas mpt_holders_specs = mpt_holders_kSpec_def mpt_holders_kInputSpec_def
lemmas mptoken_issuance_history_specs =
  mptoken_issuance_history_kSpec_def mptoken_issuance_history_kInputSpec_def

lemma total_account_hex [simp]: "total (AccountIdHexConverter_parse srv xl)"
  by (auto simp: total_def AccountIdHexConverter_parse_def throws_asString split: option.split)

lemma account_vec_field_safe' [simp]:
  "tfield_safe (tfield k n a [accountIdArray xl m] (AccountIdVecConverter_parse xl))"
proof (rule tfield_safe_establishes)
  show "establishes [accountIdArray xl m] (array_all (string_json (is_account xl)))"
    by (rule establishes_passes) (auto simp: account_id_array.passes_iff)
qed (simp_all add: conv_account_vec.no_throw)

lemma nft_info_safe [simp]: "list_all (list_all tfield_safe) (nft_info_kSpec srv xl)"
  by (simp add: nft_info_specs)

lemma nft_history_safe [simp]: "list_all (list_all tfield_safe) (nft_history_kSpec srv xl)"
  by (simp add: nft_history_specs)

lemma nft_offers_safe [simp]: "list_all (list_all tfield_safe) (nft_offers_kSpec srv xl)"
  by (simp add: nft_offers_specs)

lemma nfts_by_issuer_safe [simp]: "list_all (list_all tfield_safe) (nfts_by_issuer_kSpec srv xl)"
  by (simp add: nfts_by_issuer_specs)

lemma mpt_holders_safe [simp]: "list_all (list_all tfield_safe) (mpt_holders_kSpec srv xl)"
  by (simp add: mpt_holders_specs)

lemma mptoken_issuance_history_safe [simp]:
  "list_all (list_all tfield_safe) (mptoken_issuance_history_kSpec srv xl)"
  by (simp add: mptoken_issuance_history_specs)

end
