(* ===== verification/HandlersLedger.thy ===== *)
theory HandlersLedger
  imports HandlersAccount
begin

text \<open>
  The ledger, transaction and server handlers: \<^verbatim>\<open>ledger\<close>, \<^verbatim>\<open>ledger_data\<close>, \<^verbatim>\<open>ledger_index\<close>,
  \<^verbatim>\<open>transaction_entry\<close>, \<^verbatim>\<open>tx\<close>, \<^verbatim>\<open>server_info\<close>, \<^verbatim>\<open>feature\<close> and \<^verbatim>\<open>book_changes\<close> under
  \<^verbatim>\<open>include/rpcspec/handlers\<close>, with the time format validator of \<^verbatim>\<open>Validators.hpp\<close> that only
  \<^verbatim>\<open>ledger_index\<close> uses.
\<close>

section \<open>ledger\<close>

record ledger_Input =
  ld_ledger :: LedgerSpecifier
  ld_binary :: bool
  ld_expand :: bool
  ld_ownerFunds :: bool
  ld_transactions :: bool
  ld_diff :: bool
  ld_full :: bool
  ld_accounts :: bool
  ld_queue :: bool

definition ledger_init :: ledger_Input where
  "ledger_init = \<lparr>ld_ledger = Unspecified, ld_binary = False, ld_expand = False,
     ld_ownerFunds = False, ld_transactions = False, ld_diff = False, ld_full = False,
     ld_accounts = False, ld_queue = False\<rparr>"

definition ledger_kInputSpecV1 :: "server \<Rightarrow> xrpl_lib \<Rightarrow> ledger_Input typed_spec" where
  "ledger_kInputSpecV1 srv xl =
     [ledgerSelector srv xl 0 (\<lambda>m i. i\<lparr>ld_ledger := m\<rparr>),
      tfield ''full'' 6 (\<lambda>m i. i\<lparr>ld_full := m\<rparr>)
        [type TBool, ifServerClio srv [notSupportedIf True, deprecated srv]] jsonBool,
      tfield ''accounts'' 7 (\<lambda>m i. i\<lparr>ld_accounts := m\<rparr>)
        [type TBool, ifServerClio srv [notSupportedIf True, deprecated srv]] jsonBool,
      tfield ''owner_funds'' 3 (\<lambda>m i. i\<lparr>ld_ownerFunds := m\<rparr>) [type TBool] jsonBool,
      tfield ''queue'' 8 (\<lambda>m i. i\<lparr>ld_queue := m\<rparr>)
        [type TBool, ifServerClio srv [notSupportedIf True]] jsonBool,
      tfield ''transactions'' 4 (\<lambda>m i. i\<lparr>ld_transactions := m\<rparr>) [type TBool] jsonBool,
      tfield ''expand'' 2 (\<lambda>m i. i\<lparr>ld_expand := m\<rparr>) [type TBool] jsonBool,
      tfield ''binary'' 1 (\<lambda>m i. i\<lparr>ld_binary := m\<rparr>) [type TBool] jsonBool,
      tfield ''diff'' 5 (\<lambda>m i. i\<lparr>ld_diff := m\<rparr>) [ifServerClio srv [type TBool]] jsonBool,
      vfield ''ledger'' [ifServerClio srv [deprecated srv]],
      vfield ''type'' [deprecated srv]]"

definition ledger_kInputSpecV2 :: "server \<Rightarrow> xrpl_lib \<Rightarrow> ledger_Input typed_spec" where
  "ledger_kInputSpecV2 srv xl =
     textend (ledger_kInputSpecV1 srv xl)
       [tfield ''transactions'' 4 (\<lambda>m i. i\<lparr>ld_transactions := m\<rparr>) [] jsonBoolStrict,
        tfield ''expand'' 2 (\<lambda>m i. i\<lparr>ld_expand := m\<rparr>) [] jsonBoolStrict,
        tfield ''binary'' 1 (\<lambda>m i. i\<lparr>ld_binary := m\<rparr>) [] jsonBoolStrict,
        tfield ''owner_funds'' 3 (\<lambda>m i. i\<lparr>ld_ownerFunds := m\<rparr>) [] jsonBoolStrict]"

definition ledger_kSpec :: "server \<Rightarrow> xrpl_lib \<Rightarrow> ledger_Input typed_spec list" where
  "ledger_kSpec srv xl = [ledger_kInputSpecV1 srv xl, ledger_kInputSpecV2 srv xl]"

section \<open>ledger_data\<close>

datatype MarkerValue = HashMarker uint256 | DiffMarker uint32

record ledger_data_Input =
  ldd_ledger :: LedgerSpecifier
  ldd_binary :: bool
  ldd_limit :: "uint32 option"
  ldd_marker :: "MarkerValue option"
  ldd_outOfOrder :: bool
  ldd_type :: LedgerEntryType

definition ledger_data_init :: ledger_data_Input where
  "ledger_data_init = \<lparr>ldd_ledger = Unspecified, ldd_binary = False, ldd_limit = None,
     ldd_marker = None, ldd_outOfOrder = False, ldd_type = ltANY\<rparr>"

definition ledger_data_MarkerConverter_parse ::
    "server \<Rightarrow> xrpl_lib \<Rightarrow> MarkerValue option converter" where
  "ledger_data_MarkerConverter_parse srv xl v =
     (if isString v then
        obind (asString v) (\<lambda>sv.
          case xl_parseHex256 xl (c_str sv) of
            None \<Rightarrow> Fail (status_msg kMalformedField (malformedFieldMessage srv ''marker''))
          | Some parsed \<Rightarrow> Ret (Some (HashMarker parsed)))
      else if isUint32 v then omap (\<lambda>u. Some (DiffMarker u)) (asUint32 v)
      else if kIsClioBuild srv then Fail (status_of kMalformedField)
      else Fail (status_msg kMalformedField ''markerNotString''))"

definition LedgerEntryTypeConverter_parse :: "LedgerEntryType converter" where
  "LedgerEntryTypeConverter_parse v =
     (if \<not> isString v then Fail (status_msg kMalformedField (expectedFieldMessage (fv_key v) ''string''))
      else obind (asString v) (\<lambda>s.
        let entryType = ledgerEntryTypeFromStr s
        in if entryType = ltANY then Fail (status_msg kMalformedField (invalidFieldMessage (fv_key v)))
           else Ret entryType))"

definition ledger_data_kInputSpec :: "server \<Rightarrow> xrpl_lib \<Rightarrow> ledger_data_Input typed_spec" where
  "ledger_data_kInputSpec srv xl =
     [ledgerSelector srv xl 0 (\<lambda>m i. i\<lparr>ldd_ledger := m\<rparr>),
      tfield ''binary'' 1 (\<lambda>m i. i\<lparr>ldd_binary := m\<rparr>) [] jsonBoolStrict,
      tfield ''limit'' 2 (\<lambda>m i. i\<lparr>ldd_limit := Some m\<rparr>) [type TUint32, min_of (NUint32 1)]
        asUint32_conv,
      tfield ''marker'' 3 (\<lambda>m i. i\<lparr>ldd_marker := m\<rparr>) [] (ledger_data_MarkerConverter_parse srv xl),
      tfield ''out_of_order'' 4 (\<lambda>m i. i\<lparr>ldd_outOfOrder := m\<rparr>) [] jsonBoolStrict,
      tfield ''type'' 5 (\<lambda>m i. i\<lparr>ldd_type := m\<rparr>) [] LedgerEntryTypeConverter_parse,
      vfield ''ledger'' [deprecated srv]]"

definition ledger_data_kSpec :: "server \<Rightarrow> xrpl_lib \<Rightarrow> ledger_data_Input typed_spec list" where
  "ledger_data_kSpec srv xl = [ledger_data_kInputSpec srv xl]"

section \<open>ledger_index\<close>

text \<open>
  \<^verbatim>\<open>std::get_time\<close> on a stream of the text, by format: the broken-down time it stores, \<open>None\<close> when
  the stream fails. Its rules are the implementation's, so it is a parameter \<open>get_time\<close>. The calendar
  arithmetic is that of \<^verbatim>\<open>std::chrono\<close>; a time point is its seconds since the epoch.
\<close>

record tm =
  tm_year :: int
  tm_mon :: int
  tm_mday :: int
  tm_hour :: int
  tm_min :: int
  tm_sec :: int

type_synonym get_time = "string \<Rightarrow> string \<Rightarrow> tm option"

definition days_from_civil :: "int \<Rightarrow> int \<Rightarrow> int" where
  "days_from_civil year month =
     (let y = (if month \<le> 2 then year - 1 else year);
          yoe = y mod 400;
          doy = (153 * (if 2 < month then month - 3 else month + 9) + 2) div 5
      in (y div 400) * 146097 + yoe * 365 + yoe div 4 - yoe div 100 + doy - 719468)"

definition systemTpFromUtcStr :: "get_time \<Rightarrow> string \<Rightarrow> string \<Rightarrow> int option" where
  "systemTpFromUtcStr get_time dateStr format =
     map_option (\<lambda>ts. (days_from_civil (tm_year ts + 1900) (tm_mon ts + 1) + tm_mday ts - 1) * 86400 +
         tm_hour ts * 3600 + tm_min ts * 60 + tm_sec ts)
       (get_time format (dateStr @ [CHR 0x01]))"

definition TimeFormat_verify :: "get_time \<Rightarrow> string \<Rightarrow> requirement" where
  "TimeFormat_verify get_time format v =
     (if \<not> present v then Ret ()
      else if \<not> isString v then Fail invalidParams
      else obind (asString v) (\<lambda>s.
        if systemTpFromUtcStr get_time s format = None then Fail invalidParams else Ret ()))"

abbreviation timeFormat :: "get_time \<Rightarrow> string \<Rightarrow> 'm item" where
  "timeFormat get_time format \<equiv> requirement_item (TimeFormat_verify get_time format)"

definition kDateFormat :: string where
  "kDateFormat = ''%Y-%m-%dT%TZ''"

record ledger_index_Input =
  li_date :: "int option"

definition ledger_index_init :: ledger_index_Input where
  "ledger_index_init = \<lparr>li_date = None\<rparr>"

text \<open>Dereferencing an empty optional is undefined.\<close>

definition DateConverter_parse :: "get_time \<Rightarrow> int converter" where
  "DateConverter_parse get_time v =
     obind (asString v) (\<lambda>s.
       case systemTpFromUtcStr get_time s kDateFormat of Some tp \<Rightarrow> Ret tp | None \<Rightarrow> Throw NullAccess)"

definition ledger_index_kInputSpec :: "get_time \<Rightarrow> ledger_index_Input typed_spec" where
  "ledger_index_kInputSpec get_time =
     [tfield ''date'' 0 (\<lambda>m i. i\<lparr>li_date := Some m\<rparr>) [timeFormat get_time kDateFormat]
        (DateConverter_parse get_time)]"

definition ledger_index_kSpec :: "get_time \<Rightarrow> ledger_index_Input typed_spec list" where
  "ledger_index_kSpec get_time = [ledger_index_kInputSpec get_time]"

section \<open>transaction_entry\<close>

datatype TxHashError = MissingHash | MalformedHash

record transaction_entry_Input =
  te_ledger :: LedgerSpecifier
  te_txHash :: "TxHashError + uint256"

definition transaction_entry_init :: transaction_entry_Input where
  "transaction_entry_init = \<lparr>te_ledger = Unspecified, te_txHash = Inl MissingHash\<rparr>"

definition TxHashConverter_parse :: "xrpl_lib \<Rightarrow> (TxHashError + uint256) converter" where
  "TxHashConverter_parse xl v =
     (if isString v then
        obind (asString v) (\<lambda>s.
          case xl_parseHex256 xl (c_str s) of
            Some hash \<Rightarrow> Ret (Inr hash)
          | None \<Rightarrow> Ret (Inl MalformedHash))
      else Ret (Inl MalformedHash))"

definition transaction_entry_kInputSpec ::
    "server \<Rightarrow> xrpl_lib \<Rightarrow> transaction_entry_Input typed_spec" where
  "transaction_entry_kInputSpec srv xl =
     [ledgerSelector srv xl 0 (\<lambda>m i. i\<lparr>te_ledger := m\<rparr>),
      tfield ''tx_hash'' 1 (\<lambda>m i. i\<lparr>te_txHash := m\<rparr>)
        [ifServerClio srv
           [WithCustomError (required srv) (kFieldNotFoundTransaction srv) [], uint256Hex srv xl]]
        (TxHashConverter_parse xl)]"

definition transaction_entry_kSpec ::
    "server \<Rightarrow> xrpl_lib \<Rightarrow> transaction_entry_Input typed_spec list" where
  "transaction_entry_kSpec srv xl = [transaction_entry_kInputSpec srv xl]"

section \<open>tx\<close>

record tx_Input =
  tx_transaction :: "uint256 option"
  tx_ctid :: "string option"
  tx_binary :: bool
  tx_minLedger :: "uint32 option"
  tx_maxLedger :: "uint32 option"

definition tx_init :: tx_Input where
  "tx_init = \<lparr>tx_transaction = None, tx_ctid = None, tx_binary = False, tx_minLedger = None,
     tx_maxLedger = None\<rparr>"

definition toupper :: "char \<Rightarrow> char" where
  "toupper c = (if is_lower c then char_of ((of_char c :: nat) - 32) else c)"

definition ToUpperModifier_modify :: modifier where
  "ToUpperModifier_modify v =
     (if \<not> present v \<or> \<not> isString v then (v, Ret ())
      else sbind (v, asString v) (\<lambda>sv v. set_string (map toupper sv) v))"

definition tx_kInputSpecV1 :: "server \<Rightarrow> xrpl_lib \<Rightarrow> tx_Input typed_spec" where
  "tx_kInputSpecV1 srv xl =
     [tfield ''transaction'' 0 (\<lambda>m i. i\<lparr>tx_transaction := Some m\<rparr>) [] (asUint256 srv xl),
      tfield ''ctid'' 1 (\<lambda>m i. i\<lparr>tx_ctid := Some m\<rparr>) [modifier_item ToUpperModifier_modify]
        asString_conv,
      tfield ''binary'' 2 (\<lambda>m i. i\<lparr>tx_binary := m\<rparr>) [] jsonBool,
      tfield ''min_ledger'' 3 (\<lambda>m i. i\<lparr>tx_minLedger := Some m\<rparr>) [] asUint32_conv,
      tfield ''max_ledger'' 4 (\<lambda>m i. i\<lparr>tx_maxLedger := Some m\<rparr>) [] asUint32_conv]"

definition tx_kInputSpecV2 :: "server \<Rightarrow> xrpl_lib \<Rightarrow> tx_Input typed_spec" where
  "tx_kInputSpecV2 srv xl =
     textend (tx_kInputSpecV1 srv xl)
       [tfield ''binary'' 2 (\<lambda>m i. i\<lparr>tx_binary := m\<rparr>) [] jsonBoolStrict]"

definition tx_kSpec :: "server \<Rightarrow> xrpl_lib \<Rightarrow> tx_Input typed_spec list" where
  "tx_kSpec srv xl = [tx_kInputSpecV1 srv xl, tx_kInputSpecV2 srv xl]"

section \<open>server_info, feature and book_changes\<close>

record server_info_Input =
  si_backendCounters :: bool

definition server_info_init :: server_info_Input where
  "server_info_init = \<lparr>si_backendCounters = False\<rparr>"

definition server_info_kInputSpec :: "server_info_Input typed_spec" where
  "server_info_kInputSpec =
     [tfield ''backend_counters'' 0 (\<lambda>m i. i\<lparr>si_backendCounters := m\<rparr>) [] jsonBool]"

definition server_info_kSpec :: "server_info_Input typed_spec list" where
  "server_info_kSpec = [server_info_kInputSpec]"

record feature_Input =
  ft_ledger :: LedgerSpecifier
  ft_feature :: "string option"

definition feature_init :: feature_Input where
  "feature_init = \<lparr>ft_ledger = Unspecified, ft_feature = None\<rparr>"

definition feature_kInputSpec :: "server \<Rightarrow> xrpl_lib \<Rightarrow> feature_Input typed_spec" where
  "feature_kInputSpec srv xl =
     [ledgerSelector srv xl 0 (\<lambda>m i. i\<lparr>ft_ledger := m\<rparr>),
      tfield ''feature'' 1 (\<lambda>m i. i\<lparr>ft_feature := Some m\<rparr>) [] asString_conv,
      vfield ''vetoed'' [WithCustomError notSupported (XrpldErr RpcNoPermission)
        ''The admin portion of feature API is not available through Clio.'']]"

definition feature_kSpec :: "server \<Rightarrow> xrpl_lib \<Rightarrow> feature_Input typed_spec list" where
  "feature_kSpec srv xl = [feature_kInputSpec srv xl]"

record book_changes_Input =
  bc_ledger :: LedgerSpecifier

definition book_changes_init :: book_changes_Input where
  "book_changes_init = \<lparr>bc_ledger = Unspecified\<rparr>"

definition book_changes_kInputSpec :: "server \<Rightarrow> xrpl_lib \<Rightarrow> book_changes_Input typed_spec" where
  "book_changes_kInputSpec srv xl = [ledgerSelector srv xl 0 (\<lambda>m i. i\<lparr>bc_ledger := m\<rparr>)]"

definition book_changes_kSpec :: "server \<Rightarrow> xrpl_lib \<Rightarrow> book_changes_Input typed_spec list" where
  "book_changes_kSpec srv xl = [book_changes_kInputSpec srv xl]"

section \<open>The specs are safe\<close>

lemmas ledger_specs = ledger_kSpec_def ledger_kInputSpecV1_def ledger_kInputSpecV2_def textend_def
lemmas ledger_data_specs = ledger_data_kSpec_def ledger_data_kInputSpec_def
lemmas ledger_index_specs = ledger_index_kSpec_def ledger_index_kInputSpec_def
lemmas transaction_entry_specs = transaction_entry_kSpec_def transaction_entry_kInputSpec_def
lemmas tx_specs = tx_kSpec_def tx_kInputSpecV1_def tx_kInputSpecV2_def textend_def
lemmas server_info_specs = server_info_kSpec_def server_info_kInputSpec_def
lemmas feature_specs = feature_kSpec_def feature_kInputSpec_def
lemmas book_changes_specs = book_changes_kSpec_def book_changes_kInputSpec_def

lemma total_ledger_data [simp]:
  "total (ledger_data_MarkerConverter_parse srv xl)" "total LedgerEntryTypeConverter_parse"
  "total (TxHashConverter_parse xl)"
  by (auto simp: total_def ledger_data_MarkerConverter_parse_def LedgerEntryTypeConverter_parse_def
      TxHashConverter_parse_def Let_def throws_asString total_asUint32_conv split: option.split)

lemma ToUpper_rewrite:
  "ToUpperModifier_modify = string_rewrite (\<lambda>s. Some (JString (map toupper s)))"
  by (auto simp: fun_eq_iff ToUpperModifier_modify_def string_rewrite_def set_string_def isString_value
      split: option.split json.split)

interpretation to_upper: optional_modifier ToUpperModifier_modify
  unfolding ToUpper_rewrite by (rule optional_modifier_string_rewrite)

declare to_upper.item_ok [simp]

interpretation time_format: optional_validator "TimeFormat_verify gt fmt"
  "string_field (\<lambda>s. systemTpFromUtcStr gt s fmt \<noteq> None)" "\<lambda>v. invalidParams" for gt fmt
proof
  fix v
  show "TimeFormat_verify gt fmt v =
      (if string_field (\<lambda>s. systemTpFromUtcStr gt s fmt \<noteq> None) v then Ret () else Fail invalidParams)"
    by (cases "isString v")
      (auto simp: TimeFormat_verify_def string_field_def isString_value)
qed (simp add: string_field_def)

lemma date_field_safe:
  "tfield_safe (tfield k n a [timeFormat gt kDateFormat] (DateConverter_parse gt))"
proof (rule tfield_safe_establishes)
  show "establishes [timeFormat gt kDateFormat]
      (\<lambda>v. \<exists>s. fv_value v = Some (JString s) \<and> systemTpFromUtcStr gt s kDateFormat \<noteq> None)"
    by (rule establishes_passes) (auto simp: time_format.passes_iff string_field_def)
qed (auto simp: time_format.no_throw DateConverter_parse_def)

lemma ledger_safe [simp]: "list_all (list_all tfield_safe) (ledger_kSpec srv xl)"
  by (simp add: ledger_specs)

lemma ledger_data_safe [simp]: "list_all (list_all tfield_safe) (ledger_data_kSpec srv xl)"
  by (simp add: ledger_data_specs)

lemma ledger_index_safe [simp]: "list_all (list_all tfield_safe) (ledger_index_kSpec gt)"
  by (simp add: ledger_index_specs date_field_safe)

lemma transaction_entry_safe [simp]:
  "list_all (list_all tfield_safe) (transaction_entry_kSpec srv xl)"
  by (simp add: transaction_entry_specs)

lemma tx_safe [simp]: "list_all (list_all tfield_safe) (tx_kSpec srv xl)"
  by (simp add: tx_specs)

lemma server_info_safe [simp]: "list_all (list_all tfield_safe) server_info_kSpec"
  by (simp add: server_info_specs)

lemma feature_safe [simp]: "list_all (list_all tfield_safe) (feature_kSpec srv xl)"
  by (simp add: feature_specs)

lemma book_changes_safe [simp]: "list_all (list_all tfield_safe) (book_changes_kSpec srv xl)"
  by (simp add: book_changes_specs)

end
