(* ===== verification/HandlersMarket.thy ===== *)
theory HandlersMarket
  imports HandlersAccount
begin

text \<open>
  The market and trust-line handlers: \<^verbatim>\<open>amm_info\<close>, \<^verbatim>\<open>book_offers\<close>, \<^verbatim>\<open>deposit_authorized\<close>,
  \<^verbatim>\<open>gateway_balances\<close>, \<^verbatim>\<open>get_aggregate_price\<close>, \<^verbatim>\<open>noripple_check\<close> and \<^verbatim>\<open>vault_info\<close> under
  \<^verbatim>\<open>include/rpcspec/handlers\<close>, with the validators and converters they define for themselves.
\<close>

section \<open>amm_info\<close>

record amm_info_Input =
  amm_ledger :: LedgerSpecifier
  amm_accountID :: "account_id deferred"
  amm_ammAccount :: "account_id deferred"
  amm_asset1 :: "asset deferred"
  amm_asset2 :: "asset deferred"

definition amm_info_init :: amm_info_Input where
  "amm_info_init = \<lparr>amm_ledger = Unspecified, amm_accountID = Inl Missing,
     amm_ammAccount = Inl Missing, amm_asset1 = Inl Missing, amm_asset2 = Inl Missing\<rparr>"

definition kStringIssueValidator :: "xrpl_lib \<Rightarrow> 'm item" where
  "kStringIssueValidator xl = customValidator (\<lambda>v.
     obind (asString v) (\<lambda>s.
       if xl_issueFromJson xl s = None then Fail (status_of (XrpldErr RpcIssueMalformed)) else Ret ()))"

text \<open>\<^verbatim>\<open>catch (...)\<close> catches exceptions; an undefined access is not one.\<close>

definition catch_all :: "status \<Rightarrow> 'a parsed \<Rightarrow> 'a parsed" where
  "catch_all e r =
     (case r of
        Throw BadKind \<Rightarrow> Fail e
      | Throw (LogicError _) \<Rightarrow> Fail e
      | Throw (OutOfRange _) \<Rightarrow> Fail e
      | _ \<Rightarrow> r)"

definition IssueConverter_parse :: "xrpl_lib \<Rightarrow> issue converter" where
  "IssueConverter_parse xl v =
     (let malformed = status_of (XrpldErr RpcIssueMalformed)
      in if isString v then
           obind (asString v) (\<lambda>s.
             case xl_issueFromJson xl s of Some i \<Rightarrow> Ret i | None \<Rightarrow> Fail malformed)
         else if isObject v then
           catch_all malformed
             (obind (asString (child v ''currency'')) (\<lambda>currSv.
               case xl_toCurrency xl currSv of
                 None \<Rightarrow> Fail malformed
               | Some cur \<Rightarrow>
                   if xl_isXRP xl cur then Ret (xl_xrpIssue xl)
                   else obind (asString (child v ''issuer'')) (\<lambda>issuerSv.
                     case xl_toIssuer xl issuerSv of
                       None \<Rightarrow> Fail malformed
                     | Some iss \<Rightarrow> Ret (Issue cur iss))))
         else Fail malformed)"

definition asset_items :: "server \<Rightarrow> xrpl_lib \<Rightarrow> 'm item list" where
  "asset_items srv xl =
     [ifServerClio srv [WithCustomError (type_any [TString, TObject]) (XrpldErr RpcIssueMalformed) []],
      ifType TString [ifServerClio srv [kStringIssueValidator xl]],
      ifType TObject
        [ifServerClio srv [WithCustomError (currencyIssue srv xl) (XrpldErr RpcIssueMalformed) []]]]"

definition deferredAsset :: "server \<Rightarrow> xrpl_lib \<Rightarrow> issue converter \<Rightarrow> asset deferred converter" where
  "deferredAsset srv xl conv = DeferredAssetConverter_parse srv xl (\<lambda>v. omap AssetIssue (conv v))"

definition amm_info_kInputSpec :: "server \<Rightarrow> xrpl_lib \<Rightarrow> amm_info_Input typed_spec" where
  "amm_info_kInputSpec srv xl =
     [ledgerSelector srv xl 0 (\<lambda>m i. i\<lparr>amm_ledger := m\<rparr>),
      tfield ''asset'' 3 (\<lambda>m i. i\<lparr>amm_asset1 := m\<rparr>) (asset_items srv xl)
        (deferredAsset srv xl (IssueConverter_parse xl)),
      tfield ''asset2'' 4 (\<lambda>m i. i\<lparr>amm_asset2 := m\<rparr>) (asset_items srv xl)
        (deferredAsset srv xl (IssueConverter_parse xl)),
      tfield ''amm_account'' 2 (\<lambda>m i. i\<lparr>amm_ammAccount := m\<rparr>) []
        (deferredAccountIdActMalformed srv xl),
      tfield ''account'' 1 (\<lambda>m i. i\<lparr>amm_accountID := m\<rparr>) [] (deferredAccountIdActMalformed srv xl)]"

definition amm_info_kSpec :: "server \<Rightarrow> xrpl_lib \<Rightarrow> amm_info_Input typed_spec list" where
  "amm_info_kSpec srv xl = [amm_info_kInputSpec srv xl]"

section \<open>book_offers\<close>

record book_offers_Input =
  bo_ledger :: LedgerSpecifier
  bo_limit :: uint32
  bo_taker :: "account_id option"
  bo_takerPays :: asset
  bo_takerGets :: asset
  bo_domain :: "string option"

definition book_offers_init :: "xrpl_lib \<Rightarrow> book_offers_Input" where
  "book_offers_init xl = \<lparr>bo_ledger = Unspecified, bo_limit = 0, bo_taker = None,
     bo_takerPays = AssetIssue (xl_xrpIssue xl), bo_takerGets = AssetIssue (xl_xrpIssue xl),
     bo_domain = None\<rparr>"

definition invalid_member :: "field_view \<Rightarrow> string \<Rightarrow> string \<Rightarrow> string" where
  "invalid_member v m reason = ''Invalid field '' @ q @ fv_key v @ m @ q @ reason"

definition TakerAsset_parseXrpld :: "xrpl_lib \<Rightarrow> xrpld_error \<Rightarrow> xrpld_error \<Rightarrow> asset converter" where
  "TakerAsset_parseXrpld xl AmtErr IsrErr v =
     (let issuerView = child v ''issuer''
      in obind (asString (child v ''currency'')) (\<lambda>curr.
        case xl_toCurrency xl curr of
          None \<Rightarrow> Fail (status_msg (XrpldErr AmtErr) (invalid_member v ''.currency'' '', bad currency.''))
        | Some cur \<Rightarrow>
            obind
              (if \<not> present issuerView then Ret (xl_xrpAccount xl)
               else if \<not> isString issuerView then
                 Fail (status_msg (XrpldErr RpcInvalidParams) (invalid_member v ''.issuer'' '', not string.''))
               else obind (asString issuerView) (\<lambda>s.
                 case xl_toIssuer xl s of
                   None \<Rightarrow>
                     Fail (status_msg (XrpldErr IsrErr) (invalid_member v ''.issuer'' '', bad issuer.''))
                 | Some acc \<Rightarrow>
                     if acc = xl_noAccount xl
                     then Fail (status_msg (XrpldErr IsrErr)
                       (invalid_member v ''.issuer'' '', bad issuer account one.''))
                     else Ret acc))
              (\<lambda>acc.
                if xl_isXRP xl cur \<and> \<not> xl_isXRPAccount xl acc then
                  Fail (status_msg (XrpldErr IsrErr)
                    (''Unneeded field '' @ q @ fv_key v @ ''.issuer'' @ q @ '' for XRP currency specification.''))
                else if \<not> xl_isXRP xl cur \<and> xl_isXRPAccount xl acc then
                  Fail (status_msg (XrpldErr IsrErr)
                    (invalid_member v ''.issuer'' '', expected non-XRP issuer.''))
                else Ret (AssetIssue (Issue cur acc)))))"

definition TakerAsset_parseClio :: "xrpl_lib \<Rightarrow> xrpld_error \<Rightarrow> asset converter" where
  "TakerAsset_parseClio xl IsrErr v =
     obind (asString (child v ''currency'')) (\<lambda>currSv.
       case xl_toCurrency xl currSv of
         None \<Rightarrow> Fail (status_of (XrpldErr IsrErr))
       | Some cur \<Rightarrow>
           let hasIssuer = present (child v ''issuer'')
           in if xl_isXRP xl cur then
                (if hasIssuer
                 then Fail (status_msg (XrpldErr IsrErr)
                   (''Unneeded field '' @ q @ fv_key v @ ''.issuer'' @ q @ '' for XRP currency specification.''))
                 else Ret (AssetIssue (xl_xrpIssue xl)))
              else if \<not> hasIssuer then Ret (AssetIssue (Issue cur (xl_xrpAccount xl)))
              else obind (asString (child v ''issuer'')) (\<lambda>issuerSv.
                case xl_toIssuer xl issuerSv of
                  None \<Rightarrow> Fail (status_of (XrpldErr IsrErr))
                | Some iss \<Rightarrow> Ret (AssetIssue (Issue cur iss))))"

definition TakerAssetConverter_parse ::
    "server \<Rightarrow> xrpl_lib \<Rightarrow> xrpld_error \<Rightarrow> xrpld_error \<Rightarrow> asset converter" where
  "TakerAssetConverter_parse srv xl AmtErr IsrErr v =
     (let mptView = child v ''mpt_issuance_id''
      in if present mptView then
           obind (asString mptView) (\<lambda>s.
             case xl_parseHex192 xl s of
               None \<Rightarrow> Fail (status_of (XrpldErr IsrErr))
             | Some mptId \<Rightarrow> Ret (AssetMPT mptId))
         else if kIsXrpldBuild srv then TakerAsset_parseXrpld xl AmtErr IsrErr v
         else TakerAsset_parseClio xl IsrErr v)"

definition TakerConverter_parse :: "server \<Rightarrow> xrpl_lib \<Rightarrow> account_id converter" where
  "TakerConverter_parse srv xl v =
     (let err = Fail (status_msg (XrpldErr RpcInvalidParams) (''Invalid field '' @ q @ ''taker'' @ q @ ''.''))
      in if \<not> isString v then err
         else obind (asString v) (\<lambda>str.
           case (if kIsXrpldBuild srv then xl_parseBase58Account xl str
                 else accountFromStringStrict xl str) of
             None \<Rightarrow> err
           | Some i \<Rightarrow> Ret i))"

definition taker_verify :: "server \<Rightarrow> requirement" where
  "taker_verify srv v =
     (let invalid = (\<lambda>m reason. Fail (status_msg (XrpldErr RpcInvalidParams) (invalid_member v m reason)));
          currencyView = child v ''currency'';
          mptView = child v ''mpt_issuance_id'';
          hasCurrency = present currencyView;
          hasMptId = present mptView
      in if \<not> present v then Ret ()
         else if kIsXrpldBuild srv \<and> \<not> isNull v \<and> \<not> isObject v then invalid [] '', not object.''
         else if kIsClioBuild srv \<and> \<not> isObject v then Ret ()
         else if \<not> hasCurrency \<and> \<not> hasMptId then
           Fail (status_msg (XrpldErr RpcInvalidParams)
             (''Missing field '' @ q @ fv_key v @ ''.currency'' @ q @ ''.''))
         else if hasMptId \<and> (hasCurrency \<or> present (child v ''issuer'')) then invalid [] ''.''
         else if hasCurrency \<and> \<not> isString currencyView then invalid ''.currency'' '', not string.''
         else if hasMptId \<and> \<not> isString mptView then
           invalid (if kIsXrpldBuild srv then ''.currency'' else ''.mpt_issuance_id'') '', not string.''
         else Ret ())"

definition kTakerValidator :: "server \<Rightarrow> 'm item" where
  "kTakerValidator srv = customValidator (taker_verify srv)"

text \<open>The items of \<open>taker_pays\<close> and \<open>taker_gets\<close>, which differ in their key and two error codes.\<close>

definition taker_items :: "server \<Rightarrow> xrpl_lib \<Rightarrow> string \<Rightarrow> xrpld_error \<Rightarrow> xrpld_error \<Rightarrow> 'm item list" where
  "taker_items srv xl key CurErr IsrErr =
     [required srv,
      ifServerClio srv [type TObject],
      kTakerValidator srv,
      section_of
        [field ''currency'' [ifServerClio srv [WithCustomError (currency srv xl) (XrpldErr CurErr) []]],
         field ''mpt_issuance_id''
           [ifServerXrpld srv [WithCustomError (uint192Hex srv xl) (XrpldErr CurErr)
              (''Invalid field '' @ q @ key @ ''.mpt_issuance_id'' @ q)],
            ifServerClio srv [WithCustomError (uint192Hex srv xl) (XrpldErr CurErr) []]],
         field ''issuer'' [ifServerClio srv [WithCustomError (issuer xl) (XrpldErr IsrErr) []]]]]"

definition book_offers_kInputSpec :: "server \<Rightarrow> xrpl_lib \<Rightarrow> book_offers_Input typed_spec" where
  "book_offers_kInputSpec srv xl =
     [ledgerSelector srv xl 0 (\<lambda>m i. i\<lparr>bo_ledger := m\<rparr>),
      tfield ''taker_pays'' 3 (\<lambda>m i. i\<lparr>bo_takerPays := m\<rparr>)
        (taker_items srv xl ''taker_pays'' RpcSrcCurMalformed RpcSrcIsrMalformed)
        (TakerAssetConverter_parse srv xl RpcSrcCurMalformed RpcSrcIsrMalformed),
      tfield ''taker_gets'' 4 (\<lambda>m i. i\<lparr>bo_takerGets := m\<rparr>)
        (taker_items srv xl ''taker_gets'' RpcDstAmtMalformed RpcDstIsrMalformed)
        (TakerAssetConverter_parse srv xl RpcDstAmtMalformed RpcDstIsrMalformed),
      tfield ''taker'' 2 (\<lambda>m i. i\<lparr>bo_taker := Some m\<rparr>)
        [ifServerXrpld srv [WithCustomError (type TString) (XrpldErr RpcInvalidParams)
           (''Invalid field '' @ q @ ''taker'' @ q @ '', not string.'')],
         ifServerClio srv [WithCustomError (account xl) (XrpldErr RpcInvalidParams)
           (''Invalid field '' @ q @ ''taker'' @ q @ ''.'')]]
        (TakerConverter_parse srv xl),
      tfield ''domain'' 5 (\<lambda>m i. i\<lparr>bo_domain := Some m\<rparr>)
        [WithCustomError (type TString) (XrpldErr RpcDomainMalformed) ''Unable to parse domain.'',
         WithCustomError (uint256Hex srv xl) (XrpldErr RpcDomainMalformed) ''Unable to parse domain.'']
        asString_conv,
      tfield ''limit'' 1 (\<lambda>m i. i\<lparr>bo_limit := m\<rparr>) (defaultedLimit srv 1 100 60) asUint32_conv]"

definition book_offers_kSpec :: "server \<Rightarrow> xrpl_lib \<Rightarrow> book_offers_Input typed_spec list" where
  "book_offers_kSpec srv xl = [book_offers_kInputSpec srv xl]"

section \<open>deposit_authorized\<close>

record deposit_authorized_Input =
  da_ledger :: LedgerSpecifier
  da_sourceAccount :: account_id
  da_destinationAccount :: account_id
  da_credentials :: "uint256 list option"

definition deposit_authorized_init :: deposit_authorized_Input where
  "deposit_authorized_init = \<lparr>da_ledger = Unspecified, da_sourceAccount = 0,
     da_destinationAccount = 0, da_credentials = None\<rparr>"

definition CredentialsArrayConverter_parse :: "xrpl_lib \<Rightarrow> uint256 list option converter" where
  "CredentialsArrayConverter_parse xl v =
     (if \<not> present v then Ret None
      else omap Some (push_all (\<lambda>i. obind (asString (element v i)) (uint256FromValidated xl))
        [0..<arraySize v] []))"

definition kCredentialsNotNonEmptyArray :: string where
  "kCredentialsNotNonEmptyArray =
     ''Invalid field '' @ q @ ''credentials'' @ q @ '', not is non-empty array of CredentialID(hash256).''"

definition string_account_items :: "server \<Rightarrow> string \<Rightarrow> 'm item list" where
  "string_account_items srv key =
     [required srv,
      ifServerXrpld srv [WithCustomError (type TString) (XrpldErr RpcInvalidParams)
        (''Invalid field '' @ q @ key @ q @ '', not a string.'')]]"

definition deposit_authorized_kInputSpec ::
    "server \<Rightarrow> xrpl_lib \<Rightarrow> deposit_authorized_Input typed_spec" where
  "deposit_authorized_kInputSpec srv xl =
     [ledgerSelector srv xl 0 (\<lambda>m i. i\<lparr>da_ledger := m\<rparr>),
      tfield ''source_account'' 1 (\<lambda>m i. i\<lparr>da_sourceAccount := m\<rparr>)
        (string_account_items srv ''source_account'') (accountId srv xl),
      tfield ''destination_account'' 2 (\<lambda>m i. i\<lparr>da_destinationAccount := m\<rparr>)
        (string_account_items srv ''destination_account'') (accountId srv xl),
      tfield ''credentials'' 3 (\<lambda>m i. i\<lparr>da_credentials := m\<rparr>)
        [ifServerXrpld srv
           [WithCustomError (type TArray) (XrpldErr RpcInvalidParams) kCredentialsNotNonEmptyArray,
            WithCustomError (minArrayLength 1) (XrpldErr RpcInvalidParams) kCredentialsNotNonEmptyArray,
            WithCustomError (maxArrayLength (xl_kMaxCredentialsArraySize xl)) (XrpldErr RpcInvalidParams)
              (''Invalid field '' @ q @ ''credentials'' @ q @ '', not array too long.''),
            WithCustomError (hex256Array xl) (XrpldErr RpcInvalidParams)
              (''Invalid field '' @ q @ ''credentials'' @ q @ '', not an array of CredentialID(hash256).'')],
         ifServerClio srv [hex256Array xl]]
        (CredentialsArrayConverter_parse xl)]"

definition deposit_authorized_kSpec ::
    "server \<Rightarrow> xrpl_lib \<Rightarrow> deposit_authorized_Input typed_spec list" where
  "deposit_authorized_kSpec srv xl = [deposit_authorized_kInputSpec srv xl]"

section \<open>gateway_balances\<close>

record gateway_balances_Input =
  gb_ledger :: LedgerSpecifier
  gb_account :: account_id
  gb_hotWallets :: "account_id set"

definition gateway_balances_init :: gateway_balances_Input where
  "gateway_balances_init = \<lparr>gb_ledger = Unspecified, gb_account = 0, gb_hotWallets = {}\<rparr>"

text \<open>\<open>code\<close> is the only difference of the two versions' validators.\<close>

definition is_hot_wallet :: "xrpl_lib \<Rightarrow> field_view \<Rightarrow> bool parsed" where
  "is_hot_wallet xl elem =
     (if \<not> isString elem then Ret False
      else omap (\<lambda>str. parseBase58Wrapper (xl_parseBase58Public xl) str \<noteq> None \<or>
          parseBase58Wrapper (xl_parseBase58Account xl) str \<noteq> None) (asString elem))"

definition hot_wallet_verify :: "xrpld_error \<Rightarrow> xrpl_lib \<Rightarrow> requirement" where
  "hot_wallet_verify code xl v =
     (let malformed = Fail (status_msg (XrpldErr code) (fv_key v @ ''Malformed''));
          check = (\<lambda>elem. obind (is_hot_wallet xl elem) (\<lambda>ok. if ok then Ret () else malformed))
      in if \<not> isString v \<and> \<not> isArray v
         then Fail (status_msg (XrpldErr code) (fv_key v @ ''NotStringOrArray''))
         else if isArray v then for_each (\<lambda>i. check (element v i)) [0..<arraySize v]
         else check v)"

definition kHotWalletV1 :: "xrpl_lib \<Rightarrow> 'm item" where
  "kHotWalletV1 xl = customValidator (hot_wallet_verify RpcInvalidHotwallet xl)"

definition kHotWalletV2 :: "xrpl_lib \<Rightarrow> 'm item" where
  "kHotWalletV2 xl = customValidator (hot_wallet_verify RpcInvalidParams xl)"

definition HotWalletConverter_parse :: "xrpl_lib \<Rightarrow> account_id set converter" where
  "HotWalletConverter_parse xl v =
     (let parseOne = (\<lambda>elem.
            if \<not> isString elem then Fail invalidParams
            else obind (asString elem) (\<lambda>s.
              case accountFromStringStrict xl s of None \<Rightarrow> Fail invalidParams | Some i \<Rightarrow> Ret i))
      in if isString v then omap (\<lambda>i. {i}) (parseOne v)
         else omap set (push_all (\<lambda>i. parseOne (element v i)) [0..<arraySize v] []))"

definition gateway_balances_kInputSpecV1 ::
    "server \<Rightarrow> xrpl_lib \<Rightarrow> gateway_balances_Input typed_spec" where
  "gateway_balances_kInputSpecV1 srv xl =
     [ledgerSelector srv xl 0 (\<lambda>m i. i\<lparr>gb_ledger := m\<rparr>),
      tfield ''account'' 1 (\<lambda>m i. i\<lparr>gb_account := m\<rparr>) [required srv] (accountId srv xl),
      tfield ''hotwallet'' 2 (\<lambda>m i. i\<lparr>gb_hotWallets := m\<rparr>) [kHotWalletV1 xl]
        (HotWalletConverter_parse xl)]"

definition gateway_balances_kInputSpecV2 ::
    "server \<Rightarrow> xrpl_lib \<Rightarrow> gateway_balances_Input typed_spec" where
  "gateway_balances_kInputSpecV2 srv xl =
     textend (gateway_balances_kInputSpecV1 srv xl)
       [tfield ''hotwallet'' 2 (\<lambda>m i. i\<lparr>gb_hotWallets := m\<rparr>) [kHotWalletV2 xl]
          (HotWalletConverter_parse xl)]"

definition gateway_balances_kSpec ::
    "server \<Rightarrow> xrpl_lib \<Rightarrow> gateway_balances_Input typed_spec list" where
  "gateway_balances_kSpec srv xl =
     [gateway_balances_kInputSpecV1 srv xl, gateway_balances_kInputSpecV2 srv xl]"

section \<open>get_aggregate_price\<close>

record Oracle =
  or_documentId :: uint32
  or_account :: account_id

record get_aggregate_price_Input =
  gap_ledger :: LedgerSpecifier
  gap_oracles :: "Oracle list deferred"
  gap_baseAsset :: currency
  gap_quoteAsset :: currency
  gap_timeThreshold :: "uint32 option"
  gap_trim :: "8 word option"

definition get_aggregate_price_init :: get_aggregate_price_Input where
  "get_aggregate_price_init = \<lparr>gap_ledger = Unspecified, gap_oracles = Inl Missing,
     gap_baseAsset = 0, gap_quoteAsset = 0, gap_timeThreshold = None, gap_trim = None\<rparr>"

text \<open>The effect on an array of writing through the pointer of one of its elements.\<close>

definition element_put :: "field_view \<Rightarrow> nat \<Rightarrow> field_view \<Rightarrow> field_view" where
  "element_put v i elem =
     (case (fv_value v, fv_value elem) of
        (Some (JArray xs), Some j) \<Rightarrow> v\<lparr>fv_value := Some (JArray (xs[i := j]))\<rparr>
      | _ \<Rightarrow> v)"

text \<open>The body of the loop of \<^verbatim>\<open>kOraclesValidator\<close>, which rewrites the element's document id.\<close>

definition oracle_element_modify :: "server \<Rightarrow> xrpl_lib \<Rightarrow> nat \<Rightarrow> modifier" where
  "oracle_element_modify srv xl i v =
     (let malformed = Fail (status_of (XrpldErr RpcOracleMalformed));
          elem = element v i;
          docIdView = child elem ''oracle_document_id'';
          accountView = child elem ''account''
      in if \<not> isObject elem then (v, malformed)
         else if \<not> present docIdView \<or> \<not> present accountView then (v, malformed)
         else sbind (v, TypeAny_verify [TUint32, TString] docIdView) (\<lambda>_ v.
           case ToNumber_modify docIdView of (docIdView', r) \<Rightarrow>
             sbind (element_put v i (child_put elem docIdView'), r) (\<lambda>_ v'.
               (v', case AccountBase58_verify srv xl accountView of
                      Fail _ \<Rightarrow> Fail invalidParams
                    | r' \<Rightarrow> r'))))"

fun oracle_elements_modify :: "server \<Rightarrow> xrpl_lib \<Rightarrow> nat list \<Rightarrow> modifier" where
  "oracle_elements_modify srv xl [] v = (v, Ret ())"
| "oracle_elements_modify srv xl (i # is) v =
     sbind (oracle_element_modify srv xl i v) (\<lambda>_ v'. oracle_elements_modify srv xl is v')"

definition oracles_modify :: "server \<Rightarrow> xrpl_lib \<Rightarrow> modifier" where
  "oracles_modify srv xl v =
     (if \<not> isArray v \<or> arraySize v = 0 \<or> 200 < arraySize v
      then (v, Fail (status_of (XrpldErr RpcOracleMalformed)))
      else oracle_elements_modify srv xl [0..<arraySize v] v)"

definition kOraclesValidator :: "server \<Rightarrow> xrpl_lib \<Rightarrow> 'm item" where
  "kOraclesValidator srv xl = customModifier (oracles_modify srv xl)"

text \<open>One element: the oracle, or the deferred error that ends the loop.\<close>

definition oracle_of :: "server \<Rightarrow> xrpl_lib \<Rightarrow> field_view \<Rightarrow> Oracle deferred parsed" where
  "oracle_of srv xl elem =
     (let docId = child elem ''oracle_document_id'';
          acc = child elem ''account''
      in if kIsXrpldBuild srv then
           (if \<not> present docId \<or> \<not> present acc then Ret (Inl Malformed)
            else
              obind (if isUint32 docId then omap Some (asUint32 docId)
                     else if isString docId then omap lexicalUint32 (asString docId)
                     else Ret None) (\<lambda>documentId.
              obind (if isString acc then omap (xl_parseBase58Account xl) (asString acc)
                     else Ret None) (\<lambda>i.
                case (documentId, i) of
                  (Some d, Some a) \<Rightarrow>
                    if a = 0 then Ret (Inl Invalid)
                    else Ret (Inr \<lparr>or_documentId = d, or_account = a\<rparr>)
                | _ \<Rightarrow> Ret (Inl Invalid))))
         else
           obind (asString acc) (\<lambda>s.
             case accountFromStringStrict xl s of
               None \<Rightarrow> Fail invalidParams
             | Some a \<Rightarrow>
                 obind (asUint32 docId) (\<lambda>d. Ret (Inr \<lparr>or_documentId = d, or_account = a\<rparr>))))"

fun collect_oracles :: "(nat \<Rightarrow> 'a deferred parsed) \<Rightarrow> nat list \<Rightarrow> 'a list \<Rightarrow> 'a list deferred parsed" where
  "collect_oracles body [] result = Ret (Inr result)"
| "collect_oracles body (i # is) result =
     obind (body i) (\<lambda>r. case r of
       Inl e \<Rightarrow> Ret (Inl e)
     | Inr x \<Rightarrow> collect_oracles body is (result @ [x]))"

definition OraclesConverter_parse :: "server \<Rightarrow> xrpl_lib \<Rightarrow> Oracle list deferred converter" where
  "OraclesConverter_parse srv xl v =
     collect_oracles (\<lambda>i. oracle_of srv xl (element v i)) [0..<arraySize v] []"

definition Uint8Converter_parse :: "8 word converter" where
  "Uint8Converter_parse v =
     (if \<not> isUint32 v then Fail invalidParams else omap ucast (asUint32 v))"

definition CurrencyConverter_parse :: "xrpl_lib \<Rightarrow> currency converter" where
  "CurrencyConverter_parse xl v =
     (if \<not> isString v then Fail invalidParams
      else obind (asString v) (\<lambda>s.
        case xl_toCurrency xl s of None \<Rightarrow> Fail invalidParams | Some cur \<Rightarrow> Ret cur))"

definition pair_asset_items :: "server \<Rightarrow> xrpl_lib \<Rightarrow> 'm item list" where
  "pair_asset_items srv xl =
     [required srv,
      ifServerXrpld srv [WithCustomError (strictCurrency srv xl) (XrpldErr RpcInvalidParams) []],
      ifServerClio srv [WithCustomError (currency srv xl) (XrpldErr RpcInvalidParams) []]]"

definition number_items :: "server \<Rightarrow> 'm item list" where
  "number_items srv =
     [ifServerXrpld srv [type_any [TUint32, TString]],
      ifServerClio srv [type TUint32],
      ifServerXrpld srv [lexicalUint32_item]]"

definition get_aggregate_price_kInputSpec ::
    "server \<Rightarrow> xrpl_lib \<Rightarrow> get_aggregate_price_Input typed_spec" where
  "get_aggregate_price_kInputSpec srv xl =
     [ledgerSelector srv xl 0 (\<lambda>m i. i\<lparr>gap_ledger := m\<rparr>),
      tfield ''oracles'' 1 (\<lambda>m i. i\<lparr>gap_oracles := m\<rparr>)
        [required srv,
         ifServerXrpld srv
           [WithCustomError (type TArray) (XrpldErr RpcOracleMalformed) [],
            WithCustomError (minArrayLength 1) (XrpldErr RpcOracleMalformed) [],
            WithCustomError (maxArrayLength 200) (XrpldErr RpcOracleMalformed) []],
         ifServerClio srv [kOraclesValidator srv xl]]
        (OraclesConverter_parse srv xl),
      tfield ''base_asset'' 2 (\<lambda>m i. i\<lparr>gap_baseAsset := m\<rparr>) (pair_asset_items srv xl)
        (CurrencyConverter_parse xl),
      tfield ''quote_asset'' 3 (\<lambda>m i. i\<lparr>gap_quoteAsset := m\<rparr>) (pair_asset_items srv xl)
        (CurrencyConverter_parse xl),
      tfield ''trim'' 5 (\<lambda>m i. i\<lparr>gap_trim := Some m\<rparr>)
        (number_items srv @ [between (NUint32 1) (NUint32 25)]) Uint8Converter_parse,
      tfield ''time_threshold'' 4 (\<lambda>m i. i\<lparr>gap_timeThreshold := Some m\<rparr>) (number_items srv)
        asUint32_conv]"

definition get_aggregate_price_kSpec ::
    "server \<Rightarrow> xrpl_lib \<Rightarrow> get_aggregate_price_Input typed_spec list" where
  "get_aggregate_price_kSpec srv xl = [get_aggregate_price_kInputSpec srv xl]"

section \<open>noripple_check\<close>

record noripple_check_Input =
  nc_ledger :: LedgerSpecifier
  nc_account :: account_id
  nc_roleGateway :: bool
  nc_limit :: uint32
  nc_transactions :: bool

definition noripple_check_init :: noripple_check_Input where
  "noripple_check_init = \<lparr>nc_ledger = Unspecified, nc_account = 0, nc_roleGateway = False,
     nc_limit = 0, nc_transactions = False\<rparr>"

definition RoleGatewayConverter_parse :: "bool converter" where
  "RoleGatewayConverter_parse v = omap (\<lambda>s. s = ''gateway'') (asString v)"

definition noripple_check_kInputSpecV1 :: "server \<Rightarrow> xrpl_lib \<Rightarrow> noripple_check_Input typed_spec" where
  "noripple_check_kInputSpecV1 srv xl =
     [ledgerSelector srv xl 0 (\<lambda>m i. i\<lparr>nc_ledger := m\<rparr>),
      tfield ''account'' 1 (\<lambda>m i. i\<lparr>nc_account := m\<rparr>) [required srv] (accountId srv xl),
      tfield ''role'' 2 (\<lambda>m i. i\<lparr>nc_roleGateway := m\<rparr>)
        [required srv,
         WithCustomError (oneOf [''gateway'', ''user'']) (XrpldErr RpcInvalidParams)
           ''role field is invalid'']
        RoleGatewayConverter_parse,
      tfield ''limit'' 3 (\<lambda>m i. i\<lparr>nc_limit := m\<rparr>) (uniformLimit 1 500 300) asUint32_conv,
      tfield ''transactions'' 4 (\<lambda>m i. i\<lparr>nc_transactions := m\<rparr>) [] jsonBool]"

definition noripple_check_kInputSpecV2 :: "server \<Rightarrow> xrpl_lib \<Rightarrow> noripple_check_Input typed_spec" where
  "noripple_check_kInputSpecV2 srv xl =
     textend (noripple_check_kInputSpecV1 srv xl)
       [tfield ''transactions'' 4 (\<lambda>m i. i\<lparr>nc_transactions := m\<rparr>) [] jsonBoolStrict]"

definition noripple_check_kSpec :: "server \<Rightarrow> xrpl_lib \<Rightarrow> noripple_check_Input typed_spec list" where
  "noripple_check_kSpec srv xl = [noripple_check_kInputSpecV1 srv xl, noripple_check_kInputSpecV2 srv xl]"

section \<open>vault_info\<close>

record vault_info_Input =
  vi_ledger :: LedgerSpecifier
  vi_vaultID :: "uint256 option"
  vi_owner :: "account_id option"
  vi_tnxSequence :: "uint32 option"

definition vault_info_init :: vault_info_Input where
  "vault_info_init = \<lparr>vi_ledger = Unspecified, vi_vaultID = None, vi_owner = None,
     vi_tnxSequence = None\<rparr>"

definition kVaultFieldError :: "server \<Rightarrow> combined_error" where
  "kVaultFieldError srv =
     (if kIsClioBuild srv then kMalformedRequest srv else XrpldErr RpcInvalidParams)"

definition kVaultIdMessage :: "server \<Rightarrow> string" where
  "kVaultIdMessage srv =
     (if kIsClioBuild srv then []
      else ''Invalid field '' @ q @ ''vault_id'' @ q @ '', not hex string.'')"

definition kOwnerError :: "server \<Rightarrow> combined_error" where
  "kOwnerError srv =
     (if kIsClioBuild srv then kMalformedRequest srv else XrpldErr RpcActMalformed)"

definition kOwnerMessage :: "server \<Rightarrow> string" where
  "kOwnerMessage srv =
     (if kIsClioBuild srv then ''OwnerNotHexString''
      else ''Invalid field '' @ q @ ''owner'' @ q @ '', not AccountID.'')"

definition kSeqMessage :: "server \<Rightarrow> string" where
  "kSeqMessage srv =
     (if kIsClioBuild srv then []
      else ''Invalid field '' @ q @ ''seq'' @ q @ '', not a positive 32-bit integer.'')"

definition OwnerConverter_parse :: "server \<Rightarrow> xrpl_lib \<Rightarrow> account_id converter" where
  "OwnerConverter_parse srv xl v =
     (let err = (if kOwnerMessage srv = [] then Fail (status_of (kOwnerError srv))
                 else Fail (status_msg (kOwnerError srv) (kOwnerMessage srv)))
      in if isString v then
           obind (asString v) (\<lambda>s.
             case accountFromStringStrict xl s of Some i \<Rightarrow> Ret i | None \<Rightarrow> err)
         else err)"

definition vault_info_kInputSpec :: "server \<Rightarrow> xrpl_lib \<Rightarrow> vault_info_Input typed_spec" where
  "vault_info_kInputSpec srv xl =
     [ledgerSelector srv xl 0 (\<lambda>m i. i\<lparr>vi_ledger := m\<rparr>),
      tfield ''vault_id'' 1 (\<lambda>m i. i\<lparr>vi_vaultID := Some m\<rparr>)
        [WithCustomError (uint256Hex srv xl) (kVaultFieldError srv) (kVaultIdMessage srv)]
        (asUint256 srv xl),
      tfield ''owner'' 2 (\<lambda>m i. i\<lparr>vi_owner := Some m\<rparr>)
        [ifServerClio srv
           [WithCustomError (accountBase58 srv xl) (kOwnerError srv) (kOwnerMessage srv)]]
        (OwnerConverter_parse srv xl),
      tfield ''seq'' 3 (\<lambda>m i. i\<lparr>vi_tnxSequence := Some m\<rparr>)
        [WithCustomError (type TUint32) (kVaultFieldError srv) (kSeqMessage srv)] asUint32_conv]"

definition vault_info_kSpec :: "server \<Rightarrow> xrpl_lib \<Rightarrow> vault_info_Input typed_spec list" where
  "vault_info_kSpec srv xl = [vault_info_kInputSpec srv xl]"

section \<open>The specs are safe\<close>

lemmas amm_info_specs = amm_info_kSpec_def amm_info_kInputSpec_def
lemmas book_offers_specs = book_offers_kSpec_def book_offers_kInputSpec_def
lemmas deposit_authorized_specs = deposit_authorized_kSpec_def deposit_authorized_kInputSpec_def
lemmas gateway_balances_specs = gateway_balances_kSpec_def gateway_balances_kInputSpecV1_def
  gateway_balances_kInputSpecV2_def textend_def
lemmas get_aggregate_price_specs = get_aggregate_price_kSpec_def get_aggregate_price_kInputSpec_def
lemmas noripple_check_specs = noripple_check_kSpec_def noripple_check_kInputSpecV1_def
  noripple_check_kInputSpecV2_def textend_def
lemmas vault_info_specs = vault_info_kSpec_def vault_info_kInputSpec_def

lemma throws_sbind_nil [simp]:
  "throws (snd (sbind p (\<lambda>_. runProcessors []))) \<longleftrightarrow> throws (snd p)"
  by (cases p; cases "snd p") auto

lemma string_issue_ok: "item_ok (ifType TString [ifServerClio srv [kStringIssueValidator xl]])"
proof -
  have "reads_only (ifType TString [ifServerClio srv [kStringIssueValidator xl]])"
    by (simp add: kStringIssueValidator_def)
  then show ?thesis
    by (subst item_ok_reads_only)
      (auto simp: IfType_modify_def ifServerClio_def callIfProcessor_conditional kStringIssueValidator_def
        throws_asString)
qed

lemma asset_items_ok: "list_all item_ok (asset_items srv xl)"
  using string_issue_ok by (simp add: asset_items_def)

lemma asset_after_items:
  "establishes (asset_items srv xl) (\<lambda>v. srv = Clio \<longrightarrow> isObject v \<longrightarrow> is_currency_issue xl v)"
  by (rule establishes_passes)
    (auto simp: asset_items_def kStringIssueValidator_def currency_issue.passes_iff)

lemma catch_all_throws: "throws (catch_all e r) \<Longrightarrow> throws r"
  by (auto simp: catch_all_def split: outcome.splits exn.splits)

lemma IssueConverter_no_throw:
  "(isObject v \<Longrightarrow> is_currency_issue xl v) \<Longrightarrow> \<not> throws (IssueConverter_parse xl v)"
  by (auto simp: IssueConverter_parse_def Let_def throws_asString is_currency_issue_def
      dest!: catch_all_throws split: option.splits if_splits)

lemma asset_field_safe [simp]:
  "tfield_safe (tfield k n a (asset_items srv xl) (deferredAsset srv xl (IssueConverter_parse xl)))"
  by (rule tfield_safe_establishes [OF asset_items_ok asset_after_items])
    (auto simp: deferredAsset_def DeferredAssetConverter_parse_def conv_asset.no_throw
      IssueConverter_no_throw)

lemma taker_items_ok: "list_all item_ok (taker_items srv xl k e e')"
  by (auto simp: taker_items_def kTakerValidator_def taker_verify_def Let_def)

lemma taker_after_items:
  "establishes (taker_items srv xl k e e')
     (\<lambda>v. (present (child v ''mpt_issuance_id'') \<longrightarrow> isString (child v ''mpt_issuance_id'')) \<and>
          (\<not> present (child v ''mpt_issuance_id'') \<longrightarrow> isString (child v ''currency'')) \<and>
          (srv = Clio \<longrightarrow> present (child v ''issuer'') \<longrightarrow> isString (child v ''issuer'')))"
  by (rule establishes_passes)
    (auto simp: taker_items_def kTakerValidator_def CustomValidator_verify_def taker_verify_def Let_def
      issuer.passes_iff string_field_def isString_value type_of.passes_iff split: if_splits)

lemma taker_field_safe [simp]:
  "tfield_safe (tfield k n a (taker_items srv xl k' e e') (TakerAssetConverter_parse srv xl e e'))"
proof (rule tfield_safe_establishes [OF taker_items_ok taker_after_items])
  fix v assume p: "present v" and
    h: "(present (child v ''mpt_issuance_id'') \<longrightarrow> isString (child v ''mpt_issuance_id'')) \<and>
        (\<not> present (child v ''mpt_issuance_id'') \<longrightarrow> isString (child v ''currency'')) \<and>
        (srv = Clio \<longrightarrow> present (child v ''issuer'') \<longrightarrow> isString (child v ''issuer''))"
  have "\<not> throws (TakerAsset_parseXrpld xl e e' v)" if "isString (child v ''currency'')"
    using that by (auto simp: TakerAsset_parseXrpld_def Let_def throws_asString throws_obind
        split: option.splits if_splits dest: asString_isString)
  moreover have "\<not> throws (TakerAsset_parseClio xl e' v)"
    if "isString (child v ''currency'')" "present (child v ''issuer'') \<longrightarrow> isString (child v ''issuer'')"
    using that by (auto simp: TakerAsset_parseClio_def Let_def throws_asString
        split: option.splits if_splits)
  ultimately show "\<not> throws (TakerAssetConverter_parse srv xl e e' v)"
    using h by (cases srv) (auto simp: TakerAssetConverter_parse_def Let_def throws_asString
        split: option.splits)
qed

lemma total_market [simp]:
  "total (TakerConverter_parse srv xl)" "total (HotWalletConverter_parse xl)"
  "total Uint8Converter_parse" "total (CurrencyConverter_parse xl)"
  "total (OwnerConverter_parse srv xl)"
  by (auto simp: total_def TakerConverter_parse_def HotWalletConverter_parse_def Let_def
      Uint8Converter_parse_def CurrencyConverter_parse_def OwnerConverter_parse_def throws_asString
      total_asUint32_conv push_all_no_throw split: option.split)

lemma Uint256Vec_after_array:
  assumes "array_all (string_json (is_hex (xl_parseHex256 xl))) v"
  shows "\<not> throws (CredentialsArrayConverter_parse xl v)"
proof -
  obtain xs where xs: "fv_value v = Some (JArray xs)"
    "list_all (string_json (is_hex (xl_parseHex256 xl))) xs"
    using assms by (auto simp: array_all_def)
  have "push_all (\<lambda>i. obind (asString (element v i)) (uint256FromValidated xl)) [0..<arraySize v] [] =
      Ret (map (\<lambda>x. case x of JString s \<Rightarrow> the (xl_parseHex256 xl (c_str s))) xs)"
    using xs by (intro push_all_array)
      (auto simp: list_all_iff string_json_iff is_hex_def uint256FromValidated_def)
  then show ?thesis by (simp add: CredentialsArrayConverter_parse_def)
qed

lemma credentials_field_safe [simp]:
  "tfield_safe (tfield k n a
     [ifServerXrpld srv
        [WithCustomError (type TArray) c1 m1, WithCustomError (minArrayLength l) c2 m2,
         WithCustomError (maxArrayLength l') c3 m3, WithCustomError (hex256Array xl) c4 m4],
      ifServerClio srv [hex256Array xl]] (CredentialsArrayConverter_parse xl))" (is "tfield_safe (tfield k n a ?its _)")
proof (rule tfield_safe_establishes)
  show "establishes ?its (array_all (string_json (is_hex (xl_parseHex256 xl))))"
    by (rule establishes_passes; cases srv; auto simp: hex256_array.passes_iff)
qed (simp_all add: Uint256Vec_after_array)

lemma hot_wallet_no_throw: "\<not> throws (hot_wallet_verify c xl v)"
proof -
  have w: "\<not> throws (is_hot_wallet xl e)" for e
    by (auto simp: is_hot_wallet_def dest: asString_isString)
  have "\<not> throws (for_each body is)" if "\<And>i. \<not> throws (body i)" for body :: "nat \<Rightarrow> unit parsed" and "is"
    using that by (induction "is") (auto simp: throws_obind)
  with w show ?thesis by (auto simp: hot_wallet_verify_def Let_def throws_obind)
qed

lemma hot_wallet_ok [simp]: "item_ok (kHotWalletV1 xl)" "item_ok (kHotWalletV2 xl)"
  by (simp_all add: kHotWalletV1_def kHotWalletV2_def hot_wallet_no_throw)

lemma role_field_safe [simp]:
  "tfield_safe (tfield k n a
     [required srv, WithCustomError (oneOf vs) c m] RoleGatewayConverter_parse)" (is "tfield_safe (tfield k n a ?its _)")
proof (rule tfield_safe_establishes)
  show "establishes ?its isString"
    by (rule establishes_passes) (auto simp: one_of.passes_iff isString_value)
qed (auto simp: RoleGatewayConverter_parse_def dest: asString_isString)

lemma amm_info_safe [simp]: "list_all (list_all tfield_safe) (amm_info_kSpec srv xl)"
  by (simp add: amm_info_specs)

lemma book_offers_safe [simp]: "list_all (list_all tfield_safe) (book_offers_kSpec srv xl)"
  by (simp add: book_offers_specs)

lemma deposit_authorized_safe [simp]:
  "list_all (list_all tfield_safe) (deposit_authorized_kSpec srv xl)"
  by (simp add: deposit_authorized_specs string_account_items_def)

lemma gateway_balances_safe [simp]: "list_all (list_all tfield_safe) (gateway_balances_kSpec srv xl)"
  by (simp add: gateway_balances_specs)

lemma noripple_check_safe [simp]: "list_all (list_all tfield_safe) (noripple_check_kSpec srv xl)"
  by (simp add: noripple_check_specs)

lemma vault_info_safe [simp]: "list_all (list_all tfield_safe) (vault_info_kSpec srv xl)"
  by (simp add: vault_info_specs)

section \<open>Oracles behind their validator\<close>

text \<open>What the Clio validator leaves of an element: a 32-bit document id and an account text.\<close>

definition oracle_json :: "json \<Rightarrow> bool" where
  "oracle_json j =
     (let e = \<lparr>fv_key = [], fv_value = Some j, fv_writable = False\<rparr>
      in isObject e \<and> isUint32 (child e ''oracle_document_id'') \<and> isString (child e ''account''))"

lemma oracle_json_view:
  "fv_value e = Some j \<Longrightarrow> oracle_json j \<longleftrightarrow>
     isObject e \<and> isUint32 (child e ''oracle_document_id'') \<and> isString (child e ''account'')"
  by (simp add: oracle_json_def Let_def isObject_def isUint32_def isString_def child_def)

lemma fv_value_child: "fv_value (child v k) = (case fv_value v of Some j \<Rightarrow> json_get j k | None \<Rightarrow> None)"
  by (simp add: child_def json_get_def split: option.split json.split)

lemma child_put_other [simp]:
  "k \<noteq> fv_key c \<Longrightarrow> fv_value (child (child_put v c) k) = fv_value (child v k)"
  by (simp add: fv_value_child child_put_def split: option.split)

lemma child_put_same:
  "present (child v (fv_key c)) \<Longrightarrow> present c \<Longrightarrow>
     fv_value (child (child_put v c) (fv_key c)) = fv_value c"
  by (auto simp: fv_value_child child_put_def present_def json_get_put_same split: option.splits)

lemma isObject_child_put [simp]: "isObject (child_put v c) = isObject v"
  by (simp add: isObject_def child_put_def json_put_def split: option.split json.split)

lemma ToNumber_uint32:
  assumes "isUint32 v \<or> isString v" and "ToNumber_modify v = (v', Ret ())"
  shows "isUint32 v' \<and> fv_key v' = fv_key v"
proof (cases "isString v")
  case True
  then obtain s j where "fv_value v = Some (JString s)" "to_number_json s = Some j"
    "v' = v\<lparr>fv_value := Some j\<rparr>"
    using assms(2)
    by (auto simp: ToNumber_rewrite string_rewrite_def isString_value set_value_def
        split: option.splits if_splits)
  moreover from this to_number_json_readable [of s j] asUint32_JInt64_nat(1) [of v']
  have "isUint32 v'" by auto
  ultimately show ?thesis by simp
next
  case False
  with assms show ?thesis
    by (auto simp: ToNumber_modify_def)
qed

lemma oracle_element_Ret:
  assumes "oracle_element_modify srv xl i v = (v', Ret ())"
  shows "\<exists>xs j. fv_value v = Some (JArray xs) \<and> i < length xs \<and>
    v' = v\<lparr>fv_value := Some (JArray (xs[i := j]))\<rparr> \<and> oracle_json j"
proof -
  let ?e = "element v i"
  let ?d = "child ?e ''oracle_document_id''"
  have o: "isObject ?e" "present ?d" "present (child ?e ''account'')"
    using assms by (auto simp: oracle_element_modify_def Let_def split: if_splits)
  then obtain xs where xs: "fv_value v = Some (JArray xs)" "i < length xs"
    by (auto simp: isObject_def element_def split: option.splits json.splits if_splits)
  obtain d' where d: "TypeAny_verify [TUint32, TString] ?d = Ret ()" "ToNumber_modify ?d = (d', Ret ())"
    "AccountBase58_verify srv xl (child ?e ''account'') = Ret ()"
    "v' = element_put v i (child_put ?e d')"
    using assms o
    by (auto simp: oracle_element_modify_def Let_def sbind_eq_Ret split: prod.splits outcome.splits)
  then have u: "isUint32 d'" "fv_key d' = ''oracle_document_id''"
    using o(2) ToNumber_uint32 [of ?d d'] by (auto simp: type_any.passes_iff)
  let ?c = "child_put ?e d'"
  have fv: "fv_value (child ?c ''oracle_document_id'') = fv_value d'"
    using child_put_same [of ?e d'] u o(2) by auto
  obtain j where j: "fv_value ?c = Some j"
    using o(1) by (auto simp: child_put_def isObject_def split: option.splits)
  have "isUint32 (child ?c ''oracle_document_id'')" using u(1) fv by (simp add: isUint32_def)
  moreover have "isString (child ?c ''account'')"
    using d(3) o(3) u(2) by (auto simp: account_base58.passes_iff string_field_def isString_value)
  ultimately have "oracle_json j" using oracle_json_view [OF j] o(1) by simp
  then show ?thesis using xs j d(4) by (auto simp: element_put_def)
qed

lemma oracle_elements_Ret:
  assumes "oracle_elements_modify srv xl is v = (v', Ret ())" and "fv_value v = Some (JArray xs)"
  shows "\<exists>ys. fv_value v' = Some (JArray ys) \<and> length ys = length xs \<and>
    (\<forall>k < length xs. (k \<in> set is \<longrightarrow> oracle_json (ys ! k)) \<and> (oracle_json (xs ! k) \<longrightarrow> oracle_json (ys ! k)))"
  using assms
proof (induction "is" arbitrary: v xs)
  case (Cons i "is")
  then obtain w where w: "oracle_element_modify srv xl i v = (w, Ret ())"
    "oracle_elements_modify srv xl is w = (v', Ret ())"
    by (auto simp: sbind_eq_Ret)
  obtain j where j: "i < length xs" "w = v\<lparr>fv_value := Some (JArray (xs[i := j]))\<rparr>" "oracle_json j"
    using oracle_element_Ret [OF w(1)] Cons.prems(2) by auto
  then have "fv_value w = Some (JArray (xs[i := j]))" by simp
  from Cons.IH [OF w(2) this] obtain ys where ys: "fv_value v' = Some (JArray ys)"
    "length ys = length xs"
    "\<forall>k < length xs. (k \<in> set is \<longrightarrow> oracle_json (ys ! k)) \<and>
       (oracle_json (xs[i := j] ! k) \<longrightarrow> oracle_json (ys ! k))"
    by auto
  have "(k \<in> set (i # is) \<longrightarrow> oracle_json (ys ! k)) \<and> (oracle_json (xs ! k) \<longrightarrow> oracle_json (ys ! k))"
    if "k < length xs" for k
    using ys(3) that j by (cases "k = i") auto
  with ys(1,2) show ?case by blast
qed simp

lemma oracles_Ret:
  assumes "oracles_modify srv xl v = (v', Ret ())"
  shows "array_all oracle_json v'"
proof -
  have "isArray v" using assms by (auto simp: oracles_modify_def split: if_splits)
  then obtain xs where xs: "fv_value v = Some (JArray xs)" by (auto simp: isArray_value)
  have "oracle_elements_modify srv xl [0..<length xs] v = (v', Ret ())"
    using assms xs by (auto simp: oracles_modify_def split: if_splits)
  from oracle_elements_Ret [OF this xs] show ?thesis
    by (auto simp: array_all_def list_all_length)
qed

lemma element_put_frame [simp]:
  "fv_key (element_put v i e) = fv_key v" "fv_writable (element_put v i e) = fv_writable v"
  "present (element_put v i e) = present v"
  by (auto simp: element_put_def present_def split: option.split json.split)

lemma not_Throw [simp]:
  "TypeAny_verify ts v \<noteq> Throw x" "AccountBase58_verify srv xl v \<noteq> Throw x"
  by (metis throws_simps(3) type_any.no_throw) (metis throws_simps(3) account_base58.no_throw)

lemma processor_oracle_element: "processor (oracle_element_modify srv xl i)"
proof
  fix v
  let ?d = "child (element v i) ''oracle_document_id''"
  obtain d' r where d: "ToNumber_modify ?d = (d', r)" by fastforce
  have r: "fv_writable v \<Longrightarrow> \<not> throws r" using to_number.no_throw [of ?d] d by simp
  show "fv_writable v \<Longrightarrow> \<not> throws (snd (oracle_element_modify srv xl i v))"
    using d r
    by (cases r; cases "TypeAny_verify [TUint32, TString] ?d")
      (simp_all add: oracle_element_modify_def Let_def split: outcome.split)
  show "fv_key (fst (oracle_element_modify srv xl i v)) = fv_key v"
    "fv_writable (fst (oracle_element_modify srv xl i v)) = fv_writable v"
    "present (fst (oracle_element_modify srv xl i v)) = present v"
    using d by (cases r; cases "TypeAny_verify [TUint32, TString] ?d";
        simp add: oracle_element_modify_def Let_def)+
qed

lemma processor_oracles: "processor (oracles_modify srv xl)"
proof -
  have p: "processor (oracle_elements_modify srv xl is)" for "is"
  proof (induction "is")
    case Nil
    have "oracle_elements_modify srv xl [] = (\<lambda>v. (v, Ret ()))" by (simp add: fun_eq_iff)
    then show ?case using processor_skip by metis
  next
    case (Cons i "is")
    have "processor (\<lambda>v. sbind (oracle_element_modify srv xl i v) (\<lambda>_ v'. oracle_elements_modify srv xl is v'))"
      by (rule processor_comp [OF processor_oracle_element Cons])
    then show ?case by simp
  qed
  show ?thesis
    using p by (auto simp: processor_def oracles_modify_def)
qed

lemma oracles_item_ok [simp]: "item_ok (kOraclesValidator srv xl)"
  unfolding kOraclesValidator_def
  by (rule optional_modifier.item_ok [OF optional_modifier_custom [OF processor_oracles]])

lemma oracles_item_sel [simp]:
  "it_verify (kOraclesValidator srv xl) = None"
  "it_modify (kOraclesValidator srv xl) = Some (CustomModifier_modify (oracles_modify srv xl))"
  by (simp_all add: kOraclesValidator_def)

lemma collect_oracles_no_throw:
  "(\<And>i. i \<in> set is \<Longrightarrow> \<not> throws (body i)) \<Longrightarrow> \<not> throws (collect_oracles body is acc)"
  by (induction "is" arbitrary: acc) (auto simp: throws_obind split: sum.split)

lemma OraclesConverter_no_throw:
  assumes "srv = Clio \<Longrightarrow> array_all oracle_json v"
  shows "\<not> throws (OraclesConverter_parse srv xl v)"
  unfolding OraclesConverter_parse_def
proof (rule collect_oracles_no_throw)
  fix i assume i: "i \<in> set [0..<arraySize v]"
  show "\<not> throws (oracle_of srv xl (element v i))"
  proof (cases srv)
    case Clio
    then obtain xs where xs: "fv_value v = Some (JArray xs)" "list_all oracle_json xs"
      using assms by (auto simp: array_all_def)
    then have "oracle_json (xs ! i)" "fv_value (element v i) = Some (xs ! i)"
      using i by (auto simp: list_all_length)
    then show ?thesis
      using Clio oracle_json_view [of "element v i" "xs ! i"]
      by (auto simp: oracle_of_def throws_obind total_asUint32_conv
          dest: asString_isString split: option.splits)
  next
    case Xrpld
    then show ?thesis
      by (auto simp: oracle_of_def Let_def throws_obind total_asUint32_conv
          dest: asString_isString split: option.splits if_splits)
  qed
qed

lemma oracles_field_safe [simp]:
  "tfield_safe (tfield k n a
     [required srv, ifServerXrpld srv [WithCustomError (type TArray) c1 m1,
        WithCustomError (minArrayLength l) c2 m2, WithCustomError (maxArrayLength l') c3 m3],
      ifServerClio srv [kOraclesValidator srv xl]] (OraclesConverter_parse srv xl))"
  (is "tfield_safe (tfield k n a ?its _)")
proof (rule tfield_safe_establishes)
  have g: "gives (array_all oracle_json) (kOraclesValidator Clio xl)" for xl
    unfolding gives_def
    by (auto simp: kOraclesValidator_def CustomModifier_modify_def dest: oracles_Ret split: if_splits)
  have "gives (\<lambda>v. srv = Clio \<longrightarrow> array_all oracle_json v) (ifServerClio srv [kOraclesValidator srv xl])"
    using g [of xl]
    by (cases srv) (auto simp: gives_def ifServerClio_def callIfProcessor_conditional sbind_eq_Ret kOraclesValidator_def)
  then show "establishes ?its (\<lambda>v. srv = Clio \<longrightarrow> array_all oracle_json v)"
    by (intro establishes_later establishes_here) simp_all
  show "list_all item_ok ?its" by simp
qed (simp add: OraclesConverter_no_throw)

lemma number_items_ok [simp]: "list_all item_ok (number_items srv)"
  by (simp add: number_items_def)

lemma get_aggregate_price_safe [simp]:
  "list_all (list_all tfield_safe) (get_aggregate_price_kSpec srv xl)"
  by (simp add: get_aggregate_price_specs pair_asset_items_def)

end
