(* ===== verification/HandlersSubscribe.thy ===== *)
theory HandlersSubscribe
  imports HandlersAccount
begin

text \<open>
  \<^verbatim>\<open>include/rpcspec/handlers/subscribe\<close> and \<^verbatim>\<open>unsubscribe\<close>. The two declare the same streams,
  accounts and books items, except that a book to subscribe to also has a snapshot flag and a
  taker; the shared code has one model. The book converter reads what the book validator checked
  with the \<^verbatim>\<open>...FromValidated\<close> helpers, which throw where the two disagree.
\<close>

section \<open>Accounts\<close>

definition subscribe_accounts_verify :: "xrpl_lib \<Rightarrow> requirement" where
  "subscribe_accounts_verify xl v =
     (if \<not> isArray v then Fail (status_msg (XrpldErr RpcInvalidParams) (fv_key v @ ''NotArray''))
      else if arraySize v = 0
      then Fail (status_msg (XrpldErr RpcActMalformed) (fv_key v @ '' malformed.''))
      else for_each (\<lambda>i.
        let elem = element v i
        in if \<not> isString elem
           then Fail (status_msg (XrpldErr RpcInvalidParams) (fv_key v @ q @ ''sItemNotString''))
           else obind (asString elem) (\<lambda>s.
             if accountFromStringStrict xl s = None
             then Fail (status_msg (XrpldErr RpcActMalformed) (fv_key v @ q @ ''sItemMalformed''))
             else Ret ())) [0..<arraySize v])"

definition kSubscribeAccountsValidator :: "xrpl_lib \<Rightarrow> 'm item" where
  "kSubscribeAccountsValidator xl = customValidator (subscribe_accounts_verify xl)"

section \<open>Streams\<close>

datatype StreamType =
    LedgerStream | Transactions | TransactionsProposed | BookChanges | Manifests | Validations
  | ServerStream | PeerStatus | Consensus

definition kCommon :: "string list" where
  "kCommon = [''ledger'', ''transactions'', ''transactions_proposed'', ''book_changes'',
     ''manifests'', ''validations'']"

definition kNotSupported :: "string list" where
  "kNotSupported = [''server'', ''peer_status'', ''consensus'']"

definition kRippledExtra :: "string list" where
  "kRippledExtra = [''server'', ''peer_status'', ''consensus'', ''rt_transactions'']"

definition stream_verify :: "server \<Rightarrow> string \<Rightarrow> unit parsed" where
  "stream_verify srv str =
     (if kIsClioBuild srv then
        (if str \<in> set kNotSupported then Fail (status_of (XrpldErr RpcNotSupported))
         else if str \<notin> set kCommon then Fail (status_of (XrpldErr RpcStreamMalformed))
         else Ret ())
      else if str \<notin> set kCommon \<and> str \<notin> set kRippledExtra
      then Fail (status_of (XrpldErr RpcStreamMalformed))
      else Ret ())"

definition StreamsValidator_verify :: "server \<Rightarrow> requirement" where
  "StreamsValidator_verify srv v =
     (if \<not> present v then Ret ()
      else if \<not> isArray v
      then Fail (status_msg (XrpldErr RpcInvalidParams) (fv_key v @ ''NotArray''))
      else for_each (\<lambda>i.
        let elem = element v i
        in if \<not> isString elem
           then Fail (status_msg (XrpldErr RpcInvalidParams) ''streamNotString'')
           else obind (asString elem) (stream_verify srv)) [0..<arraySize v])"

definition stream_of :: "string \<Rightarrow> StreamType" where
  "stream_of text =
     (if text = ''ledger'' then LedgerStream
      else if text = ''transactions'' then Transactions
      else if text = ''transactions_proposed'' \<or> text = ''rt_transactions'' then TransactionsProposed
      else if text = ''book_changes'' then BookChanges
      else if text = ''manifests'' then Manifests
      else if text = ''validations'' then Validations
      else if text = ''server'' then ServerStream
      else if text = ''peer_status'' then PeerStatus
      else Consensus)"

definition StreamVecConverter_parse :: "StreamType list option converter" where
  "StreamVecConverter_parse v =
     omap Some (push_all (\<lambda>i. omap stream_of (asString (element v i))) [0..<arraySize v] [])"

section \<open>Books\<close>

datatype book = Book issue issue "uint256 option"

record OrderBook =
  ob_book :: book
  ob_taker :: "string option"
  ob_snapshot :: bool
  ob_both :: bool

definition bool_member_verify :: "string \<Rightarrow> string \<Rightarrow> requirement" where
  "bool_member_verify k message book =
     (if present (child book k) \<and> \<not> isBool (child book k)
      then Fail (status_msg (XrpldErr RpcInvalidParams) message) else Ret ())"

definition book_taker_verify :: "xrpl_lib \<Rightarrow> requirement" where
  "book_taker_verify xl book =
     (let takerView = child book ''taker'';
          bad = Fail (status_msg (XrpldErr RpcBadIssuer) ''Issuer account malformed.'')
      in if \<not> present takerView then Ret ()
         else if \<not> isString takerView then bad
         else obind (asString takerView) (\<lambda>s.
           if accountFromStringStrict xl s = None then bad else Ret ()))"

definition object_member_verify :: "string \<Rightarrow> requirement" where
  "object_member_verify k book =
     (if \<not> present (child book k)
      then Fail (status_msg (XrpldErr RpcInvalidParams) (''Missing field '' @ q @ k @ q))
      else if \<not> isObject (child book k)
      then Fail (status_msg (XrpldErr RpcInvalidParams) (''Field '' @ q @ k @ q @ '' is not an object''))
      else Ret ())"

definition side_currency :: "xrpl_lib \<Rightarrow> xrpld_error \<Rightarrow> field_view \<Rightarrow> currency parsed" where
  "side_currency xl code side =
     (let curView = child side ''currency''
      in if \<not> present curView \<or> \<not> isString curView then Fail (status_of (XrpldErr code))
         else obind (asString curView) (\<lambda>s.
           case xl_toCurrency xl s of None \<Rightarrow> Fail (status_of (XrpldErr code)) | Some c \<Rightarrow> Ret c))"

text \<open>The issuer of a side, with the three errors of its side; and its agreement with the currency.\<close>

definition side_issuer ::
    "xrpl_lib \<Rightarrow> status \<Rightarrow> status \<Rightarrow> status \<Rightarrow> field_view \<Rightarrow> account_id parsed" where
  "side_issuer xl notString badIssuer accountOne side =
     (let issuerView = child side ''issuer''
      in if \<not> present issuerView then Ret (xl_xrpAccount xl)
         else if \<not> isString issuerView then Fail notString
         else obind (asString issuerView) (\<lambda>s.
           case xl_toIssuer xl s of
             None \<Rightarrow> Fail badIssuer
           | Some i \<Rightarrow> if i = xl_noAccount xl then Fail accountOne else Ret i))"

definition side_xrp_verify ::
    "xrpl_lib \<Rightarrow> xrpld_error \<Rightarrow> string \<Rightarrow> currency \<Rightarrow> account_id \<Rightarrow> unit parsed" where
  "side_xrp_verify xl code k cur iss =
     (if xl_isXRP xl cur \<and> \<not> xl_isXRPAccount xl iss
      then Fail (status_msg (XrpldErr code)
        (''Unneeded field '' @ q @ k @ ''.issuer'' @ q @ '' for XRP currency specification.''))
      else if \<not> xl_isXRP xl cur \<and> xl_isXRPAccount xl iss
      then Fail (status_msg (XrpldErr code)
        (''Invalid field '' @ q @ k @ ''.issuer'' @ q @ '', expected non-XRP issuer.''))
      else Ret ())"

definition book_market_verify :: "xrpl_lib \<Rightarrow> requirement" where
  "book_market_verify xl book =
     (let takerPaysView = child book ''taker_pays'';
          takerGetsView = child book ''taker_gets'';
          domainView = child book ''domain'';
          domainMalformed = Fail (status_of (XrpldErr RpcDomainMalformed));
          badGetsIssuer = ''Invalid field '' @ q @ ''taker_gets.issuer'' @ q
      in obind (object_member_verify ''taker_pays'' book) (\<lambda>_.
         obind (object_member_verify ''taker_gets'' book) (\<lambda>_.
         obind (side_currency xl RpcSrcCurMalformed takerPaysView) (\<lambda>payCurrency.
         obind (side_currency xl RpcDstAmtMalformed takerGetsView) (\<lambda>getCurrency.
         obind (if present domainView \<and> \<not> isString domainView then domainMalformed else Ret ()) (\<lambda>_.
         obind (side_issuer xl (status_msg (XrpldErr RpcInvalidParams) ''takerPaysIssuerNotString'')
                  (status_of (XrpldErr RpcSrcIsrMalformed)) (status_of (XrpldErr RpcSrcIsrMalformed))
                  takerPaysView) (\<lambda>payIssuer.
         obind (side_xrp_verify xl RpcSrcIsrMalformed ''taker_pays'' payCurrency payIssuer) (\<lambda>_.
         obind (side_issuer xl (status_msg (XrpldErr RpcInvalidParams) ''taker_gets.issuer should be string'')
                  (status_msg (XrpldErr RpcDstIsrMalformed) (badGetsIssuer @ '', bad issuer.''))
                  (status_msg (XrpldErr RpcDstIsrMalformed) (badGetsIssuer @ '', bad issuer account one.''))
                  takerGetsView) (\<lambda>getIssuer.
         obind (side_xrp_verify xl RpcDstIsrMalformed ''taker_gets'' getCurrency getIssuer) (\<lambda>_.
           if payCurrency = getCurrency \<and> payIssuer = getIssuer
           then Fail (status_of (XrpldErr RpcBadMarket))
           else if \<not> present domainView then Ret ()
           else obind (asString domainView) (\<lambda>s.
             if xl_parseHex256 xl s = None then domainMalformed else Ret ())))))))))))"

text \<open>\<open>snapshots\<close>: whether the books have a snapshot flag and a taker, as those of \<open>subscribe\<close> do.\<close>

definition book_verify :: "xrpl_lib \<Rightarrow> bool \<Rightarrow> string \<Rightarrow> requirement" where
  "book_verify xl snapshots key book =
     (if \<not> isObject book
      then Fail (status_msg (XrpldErr RpcInvalidParams) (key @ ''ItemNotObject''))
      else obind (bool_member_verify ''both'' ''bothNotBool'' book) (\<lambda>_.
        obind
          (if snapshots
           then obind (bool_member_verify ''snapshot'' ''snapshotNotBool'' book)
             (\<lambda>_. book_taker_verify xl book)
           else Ret ())
          (\<lambda>_. book_market_verify xl book)))"

definition books_verify :: "xrpl_lib \<Rightarrow> bool \<Rightarrow> requirement" where
  "books_verify xl snapshots v =
     (if \<not> isArray v then Fail (status_msg (XrpldErr RpcInvalidParams) (fv_key v @ ''NotArray''))
      else for_each (\<lambda>i. book_verify xl snapshots (fv_key v) (element v i)) [0..<arraySize v])"

definition kBooksValidator :: "xrpl_lib \<Rightarrow> bool \<Rightarrow> 'm item" where
  "kBooksValidator xl snapshots = customValidator (books_verify xl snapshots)"

definition optional_member :: "(field_view \<Rightarrow> 'a parsed) \<Rightarrow> 'a \<Rightarrow> field_view \<Rightarrow> 'a parsed" where
  "optional_member read absent v = (if present v then read v else Ret absent)"

definition book_of :: "xrpl_lib \<Rightarrow> bool \<Rightarrow> field_view \<Rightarrow> OrderBook parsed" where
  "book_of xl snapshots bookView =
     (let paysView = child bookView ''taker_pays'';
          getsView = child bookView ''taker_gets'';
          issuer_of = optional_member (\<lambda>w. obind (asString w) (issuerFromValidated xl)) (xl_xrpAccount xl)
      in obind (optional_member asBool False (child bookView ''both'')) (\<lambda>both.
         obind (if snapshots then optional_member asBool False (child bookView ''snapshot'')
                else Ret False) (\<lambda>snapshot.
         obind (if snapshots then optional_member (\<lambda>w. omap Some (asString w)) None (child bookView ''taker'')
                else Ret None) (\<lambda>taker.
         obind (obind (asString (child paysView ''currency'')) (currencyFromValidated xl)) (\<lambda>payCurrency.
         obind (obind (asString (child getsView ''currency'')) (currencyFromValidated xl)) (\<lambda>getCurrency.
         obind (issuer_of (child paysView ''issuer'')) (\<lambda>payIssuer.
         obind (issuer_of (child getsView ''issuer'')) (\<lambda>getIssuer.
         obind (optional_member (\<lambda>w. omap Some (obind (asString w) (uint256FromValidated xl))) None
                  (child bookView ''domain'')) (\<lambda>domainID.
           Ret \<lparr>ob_book = Book (Issue payCurrency payIssuer) (Issue getCurrency getIssuer) domainID,
                ob_taker = taker, ob_snapshot = snapshot, ob_both = both\<rparr>)))))))))"

definition BooksConverter_parse :: "xrpl_lib \<Rightarrow> bool \<Rightarrow> OrderBook list option converter" where
  "BooksConverter_parse xl snapshots v =
     omap Some (push_all (\<lambda>i. book_of xl snapshots (element v i)) [0..<arraySize v] [])"

section \<open>The specs\<close>

record subscribe_Input =
  su_accounts :: "account_id list option"
  su_streams :: "StreamType list option"
  su_accountsProposed :: "account_id list option"
  su_books :: "OrderBook list option"
  su_mptIssuances :: "uint192 list option"

definition subscribe_init :: subscribe_Input where
  "subscribe_init = \<lparr>su_accounts = None, su_streams = None, su_accountsProposed = None,
     su_books = None, su_mptIssuances = None\<rparr>"

definition subscribe_kInputSpec :: "server \<Rightarrow> xrpl_lib \<Rightarrow> subscribe_Input typed_spec" where
  "subscribe_kInputSpec srv xl =
     [tfield ''streams'' 1 (\<lambda>m i. i\<lparr>su_streams := m\<rparr>)
        [requirement_item (StreamsValidator_verify srv)] StreamVecConverter_parse,
      tfield ''accounts'' 0 (\<lambda>m i. i\<lparr>su_accounts := m\<rparr>) [kSubscribeAccountsValidator xl]
        (AccountIdVecConverter_parse xl),
      tfield ''accounts_proposed'' 2 (\<lambda>m i. i\<lparr>su_accountsProposed := m\<rparr>)
        [kSubscribeAccountsValidator xl] (AccountIdVecConverter_parse xl),
      tfield ''books'' 3 (\<lambda>m i. i\<lparr>su_books := m\<rparr>) [kBooksValidator xl True]
        (BooksConverter_parse xl True),
      tfield ''mpt_issuances'' 4 (\<lambda>m i. i\<lparr>su_mptIssuances := m\<rparr>) [uint192Array xl]
        (Uint192VecConverter_parse xl),
      vfield ''user'' [deprecated srv], vfield ''password'' [deprecated srv],
      vfield ''rt_accounts'' [deprecated srv]]"

definition subscribe_kSpec :: "server \<Rightarrow> xrpl_lib \<Rightarrow> subscribe_Input typed_spec list" where
  "subscribe_kSpec srv xl = [subscribe_kInputSpec srv xl]"

text \<open>
  \<^verbatim>\<open>unsubscribe\<close> declares all of it again; only its books differ. Its \<^verbatim>\<open>OrderBook\<close> has no snapshot
  flag and no taker: those of the shared record stay at their initial values.
\<close>

type_synonym unsubscribe_StreamType = StreamType

type_synonym unsubscribe_OrderBook = OrderBook

type_synonym unsubscribe_Input = subscribe_Input

abbreviation unsubscribe_init :: unsubscribe_Input where
  "unsubscribe_init \<equiv> subscribe_init"

abbreviation unsubscribe_kSubscribeAccountsValidator :: "xrpl_lib \<Rightarrow> 'm item" where
  "unsubscribe_kSubscribeAccountsValidator \<equiv> kSubscribeAccountsValidator"

abbreviation unsubscribe_StreamsValidator_verify :: "server \<Rightarrow> requirement" where
  "unsubscribe_StreamsValidator_verify \<equiv> StreamsValidator_verify"

abbreviation unsubscribe_StreamVecConverter_parse :: "unsubscribe_StreamType list option converter" where
  "unsubscribe_StreamVecConverter_parse \<equiv> StreamVecConverter_parse"

abbreviation unsubscribe_book_market_verify :: "xrpl_lib \<Rightarrow> requirement" where
  "unsubscribe_book_market_verify \<equiv> book_market_verify"

abbreviation unsubscribe_book_verify :: "xrpl_lib \<Rightarrow> string \<Rightarrow> requirement" where
  "unsubscribe_book_verify xl \<equiv> book_verify xl False"

abbreviation unsubscribe_kBooksValidator :: "xrpl_lib \<Rightarrow> 'm item" where
  "unsubscribe_kBooksValidator xl \<equiv> kBooksValidator xl False"

abbreviation UnsubscribeBooksConverter_parse :: "xrpl_lib \<Rightarrow> unsubscribe_OrderBook list option converter"
  where
  "UnsubscribeBooksConverter_parse xl \<equiv> BooksConverter_parse xl False"

definition unsubscribe_kInputSpec :: "server \<Rightarrow> xrpl_lib \<Rightarrow> unsubscribe_Input typed_spec" where
  "unsubscribe_kInputSpec srv xl =
     [tfield ''streams'' 1 (\<lambda>m i. i\<lparr>su_streams := m\<rparr>)
        [requirement_item (unsubscribe_StreamsValidator_verify srv)]
        unsubscribe_StreamVecConverter_parse,
      tfield ''accounts'' 0 (\<lambda>m i. i\<lparr>su_accounts := m\<rparr>)
        [unsubscribe_kSubscribeAccountsValidator xl] (AccountIdVecConverter_parse xl),
      tfield ''accounts_proposed'' 2 (\<lambda>m i. i\<lparr>su_accountsProposed := m\<rparr>)
        [unsubscribe_kSubscribeAccountsValidator xl] (AccountIdVecConverter_parse xl),
      tfield ''books'' 3 (\<lambda>m i. i\<lparr>su_books := m\<rparr>) [unsubscribe_kBooksValidator xl]
        (UnsubscribeBooksConverter_parse xl),
      tfield ''mpt_issuances'' 4 (\<lambda>m i. i\<lparr>su_mptIssuances := m\<rparr>) [uint192Array xl]
        (Uint192VecConverter_parse xl),
      vfield ''url'' [deprecated srv], vfield ''rt_accounts'' [deprecated srv],
      vfield ''rt_transactions'' [deprecated srv]]"

definition unsubscribe_kSpec :: "server \<Rightarrow> xrpl_lib \<Rightarrow> unsubscribe_Input typed_spec list" where
  "unsubscribe_kSpec srv xl = [unsubscribe_kInputSpec srv xl]"

section \<open>The specs are safe\<close>

lemmas subscribe_specs = subscribe_kSpec_def subscribe_kInputSpec_def
lemmas unsubscribe_specs = unsubscribe_kSpec_def unsubscribe_kInputSpec_def

lemma for_each_Ret: "for_each body is = Ret () \<longleftrightarrow> (\<forall>i \<in> set is. body i = Ret ())"
  by (induction "is") (auto simp: obind_eq_Ret)

lemma for_each_no_throw: "(\<And>i. \<not> throws (body i)) \<Longrightarrow> \<not> throws (for_each body is)"
  by (induction "is") (auto simp: throws_obind)

lemma array_all_stringI:
  assumes "isArray v" and "\<And>i. i < arraySize v \<Longrightarrow> \<exists>s. fv_value (element v i) = Some (JString s) \<and> P s"
  shows "array_all (string_json P) v"
proof -
  obtain xs where xs: "fv_value v = Some (JArray xs)" using assms(1) by (auto simp: isArray_value)
  with assms(2) have "\<exists>s. xs ! i = JString s \<and> P s" if "i < length xs" for i using that by auto
  with xs show ?thesis by (auto simp: array_all_def list_all_length string_json_iff)
qed

lemma subscribe_accounts_no_throw: "\<not> throws (subscribe_accounts_verify xl v)"
  by (auto simp: subscribe_accounts_verify_def Let_def throws_asString intro!: for_each_no_throw
      split: if_splits)

lemma subscribe_accounts_Ret:
  "subscribe_accounts_verify xl v = Ret () \<Longrightarrow> array_all (string_json (is_account xl)) v"
  by (intro array_all_stringI)
    (force simp: subscribe_accounts_verify_def for_each_Ret Let_def is_account_def isString_value
      split: if_splits)+

lemma accounts_field_safe [simp]:
  "tfield_safe (tfield k n a [kSubscribeAccountsValidator xl] (AccountIdVecConverter_parse xl))"
proof (rule tfield_safe_establishes)
  show "establishes [kSubscribeAccountsValidator xl] (array_all (string_json (is_account xl)))"
    by (rule establishes_passes)
      (auto simp: kSubscribeAccountsValidator_def CustomValidator_verify_def dest: subscribe_accounts_Ret)
qed (simp_all add: kSubscribeAccountsValidator_def subscribe_accounts_no_throw conv_account_vec.no_throw)

lemma mpts_field_safe [simp]:
  "tfield_safe (tfield k n a [uint192Array xl] (Uint192VecConverter_parse xl))"
proof (rule tfield_safe_establishes)
  show "establishes [uint192Array xl] (array_all (string_json (is_hex (xl_parseHex192 xl))))"
    by (rule establishes_passes) (auto simp: uint192_array.passes_iff)
qed (simp_all add: conv_uint192_vec.no_throw)

lemma streams_no_throw: "\<not> throws (StreamsValidator_verify srv v)"
  by (auto simp: StreamsValidator_verify_def stream_verify_def Let_def throws_asString
      intro!: for_each_no_throw split: if_splits)

lemma streams_Ret:
  "StreamsValidator_verify srv v = Ret () \<Longrightarrow> present v \<Longrightarrow>
     array_all (string_json (\<lambda>s. stream_verify srv s = Ret ())) v"
  by (intro array_all_stringI)
    (force simp: StreamsValidator_verify_def for_each_Ret Let_def isString_value split: if_splits)+

lemma streams_field_safe [simp]:
  "tfield_safe (tfield k n a [requirement_item (StreamsValidator_verify srv)] StreamVecConverter_parse)"
proof (rule tfield_safe_establishes)
  show "establishes [requirement_item (StreamsValidator_verify srv)]
      (array_all (string_json (\<lambda>s. stream_verify srv s = Ret ())))"
    by (rule establishes_passes) (auto dest: streams_Ret)
qed (auto simp: streams_no_throw StreamVecConverter_parse_def array_all_def list_all_length
    string_json_iff asString_def intro!: push_all_no_throw split: option.splits)

section \<open>Books behind their validator\<close>

text \<open>
  The validator hands the whole text of \<open>domain\<close> to the hex parser and the converter its text up to
  the first NUL: the two agree because a hex text has no NUL.
\<close>

definition hex_without_nul :: "xrpl_lib \<Rightarrow> bool" where
  "hex_without_nul xl = (\<forall>s. xl_parseHex256 xl s \<noteq> None \<longrightarrow> CHR 0x00 \<notin> set s)"

lemma object_member_Ret: "object_member_verify k b = Ret () \<longleftrightarrow> isObject (child b k)"
  by (auto simp: object_member_verify_def)

lemma side_currency_Ret:
  "side_currency xl code w = Ret c \<longleftrightarrow>
     (\<exists>s. fv_value (child w ''currency'') = Some (JString s) \<and> xl_toCurrency xl s = Some c)"
  by (auto simp: side_currency_def Let_def isString_value obind_eq_Ret present_def split: option.splits)

lemma side_issuer_Ret:
  "side_issuer xl e1 e2 e3 w = Ret i \<longleftrightarrow>
     (if present (child w ''issuer'')
      then \<exists>s. fv_value (child w ''issuer'') = Some (JString s) \<and> xl_toIssuer xl s = Some i \<and>
        i \<noteq> xl_noAccount xl
      else i = xl_xrpAccount xl)"
  by (auto simp: side_issuer_def Let_def isString_value obind_eq_Ret split: option.splits if_splits)

lemma side_xrp_Ret:
  "side_xrp_verify xl code k c i = Ret () \<longleftrightarrow> (xl_isXRP xl c \<longleftrightarrow> xl_isXRPAccount xl i)"
  by (auto simp: side_xrp_verify_def)

lemma bool_member_Ret:
  "bool_member_verify k m b = Ret () \<longleftrightarrow> (present (child b k) \<longrightarrow> isBool (child b k))"
  by (auto simp: bool_member_verify_def)

lemma book_taker_Ret:
  "book_taker_verify xl b = Ret () \<longleftrightarrow> (present (child b ''taker'') \<longrightarrow>
     (\<exists>s. fv_value (child b ''taker'') = Some (JString s) \<and> is_account xl s))"
  by (auto simp: book_taker_verify_def Let_def isString_value obind_eq_Ret is_account_def)

text \<open>The issue a side of a book denotes.\<close>

definition denotes_side :: "xrpl_lib \<Rightarrow> field_view \<Rightarrow> issue \<Rightarrow> bool" where
  "denotes_side xl w i =
     (\<exists>s c a. fv_value (child w ''currency'') = Some (JString s) \<and> xl_toCurrency xl s = Some c \<and>
        i = Issue c a \<and> (xl_isXRP xl c \<longleftrightarrow> xl_isXRPAccount xl a) \<and>
        (if present (child w ''issuer'')
         then \<exists>t. fv_value (child w ''issuer'') = Some (JString t) \<and> xl_toIssuer xl t = Some a \<and>
           a \<noteq> xl_noAccount xl
         else a = xl_xrpAccount xl))"

lemma denotes_side_iff:
  "denotes_side xl w (Issue c a) \<longleftrightarrow>
     side_currency xl code w = Ret c \<and> side_issuer xl e1 e2 e3 w = Ret a \<and>
     side_xrp_verify xl code' k c a = Ret ()"
  by (auto simp: denotes_side_def side_currency_Ret side_issuer_Ret side_xrp_Ret)

lemma denotes_sideI:
  "side_currency xl code w = Ret c \<Longrightarrow> side_issuer xl e1 e2 e3 w = Ret a \<Longrightarrow>
     side_xrp_verify xl code' k c a = Ret () \<Longrightarrow> denotes_side xl w (Issue c a)"
  using denotes_side_iff [of xl w c a code e1 e2 e3 code' k] by blast

lemma ex_unit: "(\<exists>x :: unit. P x) \<longleftrightarrow> P ()"
  by (metis unit.exhaust)

lemma denotes_sideD:
  assumes "denotes_side xl w (Issue c a)"
  shows "side_currency xl code w = Ret c" "side_issuer xl e1 e2 e3 w = Ret a"
    "side_xrp_verify xl code' k c a = Ret ()"
  using assms unfolding denotes_side_iff [of xl w c a code e1 e2 e3 code' k] by simp_all

lemma book_market_Ret:
  "book_market_verify xl b = Ret () \<longleftrightarrow>
     isObject (child b ''taker_pays'') \<and> isObject (child b ''taker_gets'') \<and>
     (\<exists>pays gets. denotes_side xl (child b ''taker_pays'') pays \<and>
        denotes_side xl (child b ''taker_gets'') gets \<and> pays \<noteq> gets) \<and>
     (present (child b ''domain'') \<longrightarrow>
        (\<exists>s. fv_value (child b ''domain'') = Some (JString s) \<and> xl_parseHex256 xl s \<noteq> None))"
  (is "_ \<longleftrightarrow> ?po \<and> ?go \<and> ?sides \<and> ?dom")
proof -
  let ?bad = "Fail (status_of (XrpldErr RpcDomainMalformed)) :: unit parsed"
  have d: "?dom \<longleftrightarrow>
      (if present (child b ''domain'') \<and> \<not> isString (child b ''domain'') then ?bad else Ret ()) = Ret () \<and>
      (if \<not> present (child b ''domain'') then Ret ()
       else obind (asString (child b ''domain''))
         (\<lambda>s. if xl_parseHex256 xl s = None then ?bad else Ret ())) = Ret ()"
    by (auto simp: isString_value obind_eq_Ret)
  show ?thesis
  proof
    assume "book_market_verify xl b = Ret ()"
    then have "object_member_verify ''taker_pays'' b = Ret () \<and>
        object_member_verify ''taker_gets'' b = Ret () \<and>
        (\<exists>pc pi gc gi. denotes_side xl (child b ''taker_pays'') (Issue pc pi) \<and>
           denotes_side xl (child b ''taker_gets'') (Issue gc gi) \<and> \<not> (pc = gc \<and> pi = gi)) \<and> ?dom"
      unfolding book_market_verify_def Let_def d obind_eq_Ret ex_unit
      by (elim exE conjE) (drule (2) denotes_sideI, drule (2) denotes_sideI, auto split: if_splits)
    then show "?po \<and> ?go \<and> ?sides \<and> ?dom" unfolding object_member_Ret by blast
  next
    assume h: "?po \<and> ?go \<and> ?sides \<and> ?dom"
    then obtain pays gets where s: "denotes_side xl (child b ''taker_pays'') pays"
      "denotes_side xl (child b ''taker_gets'') gets" "pays \<noteq> gets" by blast
    obtain pc pi gc gi where "pays = Issue pc pi" "gets = Issue gc gi" by (metis issue.exhaust)
    moreover have "object_member_verify ''taker_pays'' b = Ret ()"
      "object_member_verify ''taker_gets'' b = Ret ()"
      using h by (simp_all add: object_member_Ret)
    ultimately show "book_market_verify xl b = Ret ()"
      using s h unfolding book_market_verify_def Let_def d by (auto simp: denotes_sideD)
  qed
qed

lemma book_parts_no_throw:
  "\<not> throws (bool_member_verify k m b)" "\<not> throws (book_taker_verify xl b)"
  "\<not> throws (object_member_verify k b)" "\<not> throws (side_currency xl c b)"
  "\<not> throws (side_issuer xl e1 e2 e3 b)" "\<not> throws (side_xrp_verify xl c k cur a)"
  by (auto simp: bool_member_verify_def book_taker_verify_def object_member_verify_def side_currency_def
      side_issuer_def side_xrp_verify_def Let_def throws_asString split: option.splits if_splits)

lemma book_verify_no_throw: "\<not> throws (book_verify xl sn k b)"
  by (simp add: book_verify_def book_market_verify_def throws_obind book_parts_no_throw Let_def)
    (auto dest: asString_isString)

lemma books_no_throw: "\<not> throws (books_verify xl sn v)"
  by (simp add: books_verify_def for_each_no_throw book_verify_no_throw)

lemma book_verify_Ret:
  "book_verify xl sn k b = Ret () \<longleftrightarrow>
     isObject b \<and> (present (child b ''both'') \<longrightarrow> isBool (child b ''both'')) \<and>
     (sn \<longrightarrow> (present (child b ''snapshot'') \<longrightarrow> isBool (child b ''snapshot'')) \<and>
       (present (child b ''taker'') \<longrightarrow>
          (\<exists>s. fv_value (child b ''taker'') = Some (JString s) \<and> is_account xl s))) \<and>
     book_market_verify xl b = Ret ()"
  by (auto simp: book_verify_def obind_eq_Ret bool_member_Ret book_taker_Ret)

lemma side_reads:
  assumes "denotes_side xl w (Issue c a)"
  shows "obind (asString (child w ''currency'')) (currencyFromValidated xl) = Ret c"
    and "optional_member (\<lambda>u. obind (asString u) (issuerFromValidated xl)) (xl_xrpAccount xl)
      (child w ''issuer'') = Ret a"
  using assms
  by (auto simp: denotes_side_def currencyFromValidated_def issuerFromValidated_def optional_member_def
      split: if_splits)

lemma optional_bool_total:
  "(present w \<longrightarrow> isBool w) \<Longrightarrow> \<exists>x. optional_member asBool False w = Ret x"
  by (auto simp: optional_member_def dest: asBool_isBool)

text \<open>The domain of a book the validator passed, and its reading.\<close>

definition book_domain :: "xrpl_lib \<Rightarrow> field_view \<Rightarrow> uint256 option" where
  "book_domain xl b =
     (case fv_value (child b ''domain'') of Some (JString s) \<Rightarrow> xl_parseHex256 xl s | _ \<Rightarrow> None)"

lemma domain_reads:
  assumes "hex_without_nul xl" and "present (child b ''domain'') \<longrightarrow>
      (\<exists>s. fv_value (child b ''domain'') = Some (JString s) \<and> xl_parseHex256 xl s \<noteq> None)"
  shows "optional_member (\<lambda>w. omap Some (obind (asString w) (uint256FromValidated xl))) None
    (child b ''domain'') = Ret (book_domain xl b)"
proof (cases "present (child b ''domain'')")
  case True
  then obtain s where s: "fv_value (child b ''domain'') = Some (JString s)" "xl_parseHex256 xl s \<noteq> None"
    using assms(2) by blast
  then have "c_str s = s" using assms(1) c_str_id [of s] by (auto simp: hex_without_nul_def)
  with s show ?thesis
    by (auto simp: optional_member_def present_def uint256FromValidated_def book_domain_def)
qed (auto simp: optional_member_def book_domain_def present_def)

lemma book_of_verified:
  assumes "hex_without_nul xl" and "book_verify xl sn k b = Ret ()"
  shows "\<exists>ob pays gets. book_of xl sn b = Ret ob \<and> ob_book ob = Book pays gets (book_domain xl b) \<and>
    denotes_side xl (child b ''taker_pays'') pays \<and> denotes_side xl (child b ''taker_gets'') gets \<and>
    pays \<noteq> gets"
proof -
  have m: "book_market_verify xl b = Ret ()" using assms(2) by (simp add: book_verify_Ret)
  then obtain pays gets where s: "denotes_side xl (child b ''taker_pays'') pays"
    "denotes_side xl (child b ''taker_gets'') gets" "pays \<noteq> gets"
    unfolding book_market_Ret by blast
  obtain pc pi gc gi where i: "pays = Issue pc pi" "gets = Issue gc gi" by (metis issue.exhaust)
  note reads = side_reads [OF s(1) [unfolded i(1)]] side_reads [OF s(2) [unfolded i(2)]]
    domain_reads [OF assms(1), of b]
  have d: "present (child b ''domain'') \<longrightarrow>
      (\<exists>s. fv_value (child b ''domain'') = Some (JString s) \<and> xl_parseHex256 xl s \<noteq> None)"
    using m unfolding book_market_Ret by blast
  obtain bo sh tk where f: "optional_member asBool False (child b ''both'') = Ret bo"
    "(if sn then optional_member asBool False (child b ''snapshot'') else Ret False) = Ret sh"
    "(if sn then optional_member (\<lambda>w. omap Some (asString w)) None (child b ''taker'') else Ret None) = Ret tk"
  proof -
    have "\<exists>x. optional_member asBool False (child b ''both'') = Ret x"
      using assms(2) by (intro optional_bool_total) (simp add: book_verify_Ret)
    moreover have "\<exists>x. (if sn then optional_member asBool False (child b ''snapshot'') else Ret False) = Ret x"
      using assms(2) optional_bool_total [of "child b ''snapshot''"] by (cases sn) (auto simp: book_verify_Ret)
    moreover have "\<exists>x. (if sn then optional_member (\<lambda>w. omap Some (asString w)) None (child b ''taker'')
        else Ret None) = Ret x"
      using assms(2) by (auto simp: book_verify_Ret optional_member_def)
    ultimately show ?thesis using that by blast
  qed
  have "book_of xl sn b = Ret \<lparr>ob_book = Book pays gets (book_domain xl b), ob_taker = tk,
      ob_snapshot = sh, ob_both = bo\<rparr>"
    unfolding book_of_def Let_def f reads(1-4) domain_reads [OF assms(1) d] obind_simps i ..
  with s show ?thesis by simp
qed

lemma books_field_safe [simp]:
  assumes "hex_without_nul xl"
  shows "tfield_safe (tfield k n a [kBooksValidator xl sn] (BooksConverter_parse xl sn))"
proof (rule tfield_safe_establishes)
  show "establishes [kBooksValidator xl sn]
      (\<lambda>v. \<forall>i < arraySize v. book_verify xl sn (fv_key v) (element v i) = Ret ())"
    by (rule establishes_passes)
      (auto simp: kBooksValidator_def CustomValidator_verify_def books_verify_def for_each_Ret
        split: if_splits)
next
  fix v assume h: "\<forall>i < arraySize v. book_verify xl sn (fv_key v) (element v i) = Ret ()"
  have "\<not> throws (book_of xl sn (element v i))" if "i < arraySize v" for i
    using book_of_verified [OF assms, of sn "fv_key v" "element v i"] h that by auto
  then show "\<not> throws (BooksConverter_parse xl sn v)"
    by (auto simp: BooksConverter_parse_def intro!: push_all_no_throw)
qed (simp add: kBooksValidator_def books_no_throw)

lemma subscribe_safe [simp]:
  "hex_without_nul xl \<Longrightarrow> list_all (list_all tfield_safe) (subscribe_kSpec srv xl)"
  by (simp add: subscribe_specs)

lemma unsubscribe_safe [simp]:
  "hex_without_nul xl \<Longrightarrow> list_all (list_all tfield_safe) (unsubscribe_kSpec srv xl)"
  by (simp add: unsubscribe_specs)

end
