(* ===== verification/HandlersEntry.thy ===== *)
theory HandlersEntry
  imports HandlersMarket
begin

text \<open>
  \<^verbatim>\<open>include/rpcspec/handlers/ledger_entry\<close>: the handler with the largest Input. Most of its fields
  are locators, either the key of a ledger object or an object that names it; \<open>locator\<close> is the shape
  their converters share, \<open>either_items\<close> that of their items. Every converter reads its object with
  the \<^verbatim>\<open>...FromValidated\<close> helpers and relies on the items before it.
\<close>

section \<open>Validators\<close>

definition ripple_accounts_verify :: "server \<Rightarrow> xrpl_lib \<Rightarrow> requirement" where
  "ripple_accounts_verify srv xl v =
     (let malformed = Fail (status_msg (XrpldErr RpcInvalidParams) ''malformedAccounts'');
          elem0 = element v 0;
          elem1 = element v 1
      in if \<not> isArray v \<or> arraySize v \<noteq> 2 then malformed
         else if \<not> isString elem0 \<or> \<not> isString elem1 then malformed
         else obind (asString elem0) (\<lambda>s0. obind (asString elem1) (\<lambda>s1.
           if s0 = s1 then malformed
           else if parseBase58Wrapper (xl_parseBase58Account xl) s0 = None \<or>
             parseBase58Wrapper (xl_parseBase58Account xl) s1 = None
           then Fail (status_msg (kMalformedAddress srv) ''malformedAddresses'')
           else Ret ())))"

definition kRippleStateAccountsValidator :: "server \<Rightarrow> xrpl_lib \<Rightarrow> 'm item" where
  "kRippleStateAccountsValidator srv xl = customValidator (ripple_accounts_verify srv xl)"

definition kMalformedRequestHexStringValidator :: "server \<Rightarrow> xrpl_lib \<Rightarrow> 'm item" where
  "kMalformedRequestHexStringValidator srv xl =
     WithCustomError (uint256Hex srv xl) (kMalformedRequest srv) []"

definition kMalformedRequestIntValidator :: "server \<Rightarrow> 'm item" where
  "kMalformedRequestIntValidator srv = WithCustomError (type TUint32) (kMalformedRequest srv) []"

definition bridge_fields :: "server \<Rightarrow> xrpl_lib \<Rightarrow> field_spec list" where
  "bridge_fields srv xl =
     [field ''LockingChainDoor'' [required srv, accountBase58 srv xl],
      field ''IssuingChainDoor'' [required srv, accountBase58 srv xl],
      field ''LockingChainIssue'' [required srv, currencyIssue srv xl],
      field ''IssuingChainIssue'' [required srv, currencyIssue srv xl]]"

definition kBridgeJsonValidator :: "server \<Rightarrow> xrpl_lib \<Rightarrow> 'm item" where
  "kBridgeJsonValidator srv xl =
     WithCustomError (ifType TObject [section_of (bridge_fields srv xl)]) (kMalformedRequest srv) []"

section \<open>Reading validated members\<close>

definition string_as :: "(string \<Rightarrow> 'a parsed) \<Rightarrow> 'a converter" where
  "string_as f v = obind (asString v) f"

definition account_member :: "xrpl_lib \<Rightarrow> string \<Rightarrow> account_id converter" where
  "account_member xl k v = string_as (accountFromValidated xl) (child v k)"

definition uint32_member :: "string \<Rightarrow> uint32 converter" where
  "uint32_member k v = asUint32 (child v k)"

definition issueFromCurrencyIssue :: "xrpl_lib \<Rightarrow> issue converter" where
  "issueFromCurrencyIssue xl v =
     obind (string_as (currencyFromValidated xl) (child v ''currency'')) (\<lambda>cur.
       if xl_isXRP xl cur then Ret (Issue cur 0)
       else obind (string_as (issuerFromValidated xl) (child v ''issuer'')) (\<lambda>iss.
         Ret (Issue cur iss)))"

record BridgeSpec =
  br_lockingChainDoor :: account_id
  br_issuingChainDoor :: account_id
  br_lockingChainIssue :: issue
  br_issuingChainIssue :: issue

definition bridgeSpecFromObject :: "xrpl_lib \<Rightarrow> BridgeSpec converter" where
  "bridgeSpecFromObject xl v =
     obind (account_member xl ''LockingChainDoor'' v) (\<lambda>ld.
     obind (account_member xl ''IssuingChainDoor'' v) (\<lambda>id.
     obind (issueFromCurrencyIssue xl (child v ''LockingChainIssue'')) (\<lambda>li.
     obind (issueFromCurrencyIssue xl (child v ''IssuingChainIssue'')) (\<lambda>ii.
       Ret \<lparr>br_lockingChainDoor = ld, br_issuingChainDoor = id, br_lockingChainIssue = li,
            br_issuingChainIssue = ii\<rparr>))))"

text \<open>\<^verbatim>\<open>std::variant<xrpl::uint256, Entry>\<close>: a string is the key, anything else is read as the entry.\<close>

type_synonym 'e locator = "uint256 + 'e"

definition locator :: "xrpl_lib \<Rightarrow> 'e converter \<Rightarrow> 'e locator converter" where
  "locator xl entry_of v =
     (if isString v then omap Inl (string_as (uint256FromValidated xl) v)
      else omap Inr (entry_of v))"

section \<open>Converters\<close>

datatype DirectoryEntry = DirectoryEntry "account_id option" "uint256 option" "uint32 option"
datatype OfferEntry = OfferEntry account_id uint32
datatype EscrowEntry = EscrowEntry account_id uint32
datatype TicketEntry = TicketEntry account_id uint32
datatype PermissionedDomainEntry = PermissionedDomainEntry account_id uint32
datatype VaultEntry = VaultEntry account_id uint32
datatype LoanBrokerEntry = LoanBrokerEntry account_id uint32
datatype LoanEntry = LoanEntry uint256 uint32
datatype DelegateEntry = DelegateEntry account_id account_id
datatype SponsorshipEntry = SponsorshipEntry account_id account_id
datatype MptokenEntry = MptokenEntry account_id uint192
datatype AmmEntry = AmmEntry issue issue
datatype OracleEntry = OracleEntry account_id uint32
datatype CredentialEntry = CredentialEntry account_id account_id string
datatype AuthorizeCredentialEntry = AuthorizeCredentialEntry account_id string
datatype DepositPreauthEntry =
  DepositPreauthEntry account_id "account_id option" "AuthorizeCredentialEntry list option"
datatype RippleStateEntry = RippleStateEntry account_id account_id currency
datatype XChainClaimIdEntry = XChainClaimIdEntry BridgeSpec uint32

definition directory_entry :: "xrpl_lib \<Rightarrow> DirectoryEntry converter" where
  "directory_entry xl v =
     (let ownerView = child v ''owner'';
         dirRootView = child v ''dir_root'';
         subIndexView = child v ''sub_index''
     in obind (if present ownerView \<and> isString ownerView
               then omap Some (account_member xl ''owner'' v) else Ret None) (\<lambda>owner.
        obind (if present dirRootView \<and> isString dirRootView
               then omap Some (string_as (uint256FromValidated xl) dirRootView)
               else Ret None) (\<lambda>dirRoot.
        obind (if present subIndexView \<and> isUint32 subIndexView
               then omap Some (asUint32 subIndexView) else Ret None) (\<lambda>subIndex.
          Ret (DirectoryEntry owner dirRoot subIndex)))))"

definition DirectoryConverter_parse :: "xrpl_lib \<Rightarrow> DirectoryEntry locator converter" where
  "DirectoryConverter_parse xl = locator xl (directory_entry xl)"

text \<open>An account and a 32-bit number under two keys, the shape of seven entries.\<close>

definition account_seq ::
    "xrpl_lib \<Rightarrow> (account_id \<Rightarrow> uint32 \<Rightarrow> 'e) \<Rightarrow> string \<Rightarrow> string \<Rightarrow> 'e converter" where
  "account_seq xl entry accountKey seqKey v =
     obind (account_member xl accountKey v) (\<lambda>a.
       obind (uint32_member seqKey v) (\<lambda>s. Ret (entry a s)))"

definition account_pair ::
    "xrpl_lib \<Rightarrow> (account_id \<Rightarrow> account_id \<Rightarrow> 'e) \<Rightarrow> string \<Rightarrow> string \<Rightarrow> 'e converter" where
  "account_pair xl entry k1 k2 v =
     obind (account_member xl k1 v) (\<lambda>a. obind (account_member xl k2 v) (\<lambda>b. Ret (entry a b)))"

definition OfferConverter_parse :: "xrpl_lib \<Rightarrow> OfferEntry locator converter" where
  "OfferConverter_parse xl = locator xl (account_seq xl OfferEntry ''account'' ''seq'')"

definition EscrowConverter_parse :: "xrpl_lib \<Rightarrow> EscrowEntry locator converter" where
  "EscrowConverter_parse xl = locator xl (account_seq xl EscrowEntry ''owner'' ''seq'')"

definition TicketConverter_parse :: "xrpl_lib \<Rightarrow> TicketEntry locator converter" where
  "TicketConverter_parse xl = locator xl (account_seq xl TicketEntry ''account'' ''ticket_seq'')"

definition PermissionedDomainConverter_parse :: "xrpl_lib \<Rightarrow> PermissionedDomainEntry locator converter"
  where
  "PermissionedDomainConverter_parse xl =
     locator xl (account_seq xl PermissionedDomainEntry ''account'' ''seq'')"

definition VaultConverter_parse :: "xrpl_lib \<Rightarrow> VaultEntry locator converter" where
  "VaultConverter_parse xl = locator xl (account_seq xl VaultEntry ''owner'' ''seq'')"

definition LoanBrokerConverter_parse :: "xrpl_lib \<Rightarrow> LoanBrokerEntry locator converter" where
  "LoanBrokerConverter_parse xl = locator xl (account_seq xl LoanBrokerEntry ''owner'' ''seq'')"

definition loan_entry :: "xrpl_lib \<Rightarrow> LoanEntry converter" where
  "loan_entry xl v =
     obind (string_as (uint256FromValidated xl) (child v ''loan_broker_id'')) (\<lambda>i.
       obind (uint32_member ''loan_seq'' v) (\<lambda>s. Ret (LoanEntry i s)))"

definition LoanConverter_parse :: "xrpl_lib \<Rightarrow> LoanEntry locator converter" where
  "LoanConverter_parse xl = locator xl (loan_entry xl)"

definition ledger_entry_DelegateConverter_parse :: "xrpl_lib \<Rightarrow> DelegateEntry locator converter" where
  "ledger_entry_DelegateConverter_parse xl =
     locator xl (account_pair xl DelegateEntry ''account'' ''authorize'')"

definition SponsorshipConverter_parse :: "xrpl_lib \<Rightarrow> SponsorshipEntry locator converter" where
  "SponsorshipConverter_parse xl =
     locator xl (account_pair xl SponsorshipEntry ''sponsor'' ''sponsee'')"

definition mptoken_entry :: "xrpl_lib \<Rightarrow> MptokenEntry converter" where
  "mptoken_entry xl v =
     obind (account_member xl ''account'' v) (\<lambda>a.
       obind (string_as (uint192FromValidated xl) (child v ''mpt_issuance_id'')) (\<lambda>i.
         Ret (MptokenEntry a i)))"

definition MptokenConverter_parse :: "xrpl_lib \<Rightarrow> MptokenEntry locator converter" where
  "MptokenConverter_parse xl = locator xl (mptoken_entry xl)"

definition amm_entry :: "xrpl_lib \<Rightarrow> AmmEntry converter" where
  "amm_entry xl v =
     obind (issueFromCurrencyIssue xl (child v ''asset'')) (\<lambda>a.
       obind (issueFromCurrencyIssue xl (child v ''asset2'')) (\<lambda>b. Ret (AmmEntry a b)))"

definition AmmConverter_parse :: "xrpl_lib \<Rightarrow> AmmEntry locator converter" where
  "AmmConverter_parse xl = locator xl (amm_entry xl)"

definition OracleConverter_parse :: "xrpl_lib \<Rightarrow> OracleEntry locator converter" where
  "OracleConverter_parse xl =
     locator xl (account_seq xl OracleEntry ''account'' ''oracle_document_id'')"

definition credential_entry :: "xrpl_lib \<Rightarrow> CredentialEntry converter" where
  "credential_entry xl v =
     obind (account_member xl ''subject'' v) (\<lambda>s.
       obind (account_member xl ''issuer'' v) (\<lambda>i.
         obind (asString (child v ''credential_type'')) (\<lambda>t. Ret (CredentialEntry s i t))))"

definition CredentialConverter_parse :: "xrpl_lib \<Rightarrow> CredentialEntry locator converter" where
  "CredentialConverter_parse xl = locator xl (credential_entry xl)"

definition authorize_entry :: "xrpl_lib \<Rightarrow> AuthorizeCredentialEntry converter" where
  "authorize_entry xl elem =
     obind (account_member xl ''issuer'' elem) (\<lambda>iss.
       obind (asString (child elem ''credential_type'')) (\<lambda>t.
         Ret (AuthorizeCredentialEntry iss t)))"

definition deposit_preauth_entry :: "xrpl_lib \<Rightarrow> DepositPreauthEntry converter" where
  "deposit_preauth_entry xl v =
     (let authView = child v ''authorized'';
          credsView = child v ''authorized_credentials''
      in obind (account_member xl ''owner'' v) (\<lambda>owner.
         obind (if present authView \<and> isString authView
                then omap Some (account_member xl ''authorized'' v) else Ret None) (\<lambda>auth.
         obind (if present credsView \<and> isArray credsView
                then omap Some (push_all (\<lambda>i. authorize_entry xl (element credsView i))
                  [0..<arraySize credsView] [])
                else Ret None) (\<lambda>creds.
           Ret (DepositPreauthEntry owner auth creds)))))"

definition DepositPreauthConverter_parse :: "xrpl_lib \<Rightarrow> DepositPreauthEntry locator converter" where
  "DepositPreauthConverter_parse xl = locator xl (deposit_preauth_entry xl)"

definition ripple_state_entry :: "xrpl_lib \<Rightarrow> RippleStateEntry converter" where
  "ripple_state_entry xl v =
     (let accountsView = child v ''accounts''
      in obind (string_as (accountFromValidated xl) (element accountsView 0)) (\<lambda>a.
         obind (string_as (accountFromValidated xl) (element accountsView 1)) (\<lambda>b.
         obind (string_as (currencyFromValidated xl) (child v ''currency'')) (\<lambda>c.
           Ret (RippleStateEntry a b c)))))"

definition RippleStateConverter_parse :: "xrpl_lib \<Rightarrow> RippleStateEntry locator converter" where
  "RippleStateConverter_parse xl = locator xl (ripple_state_entry xl)"

definition BridgeConverter_parse :: "xrpl_lib \<Rightarrow> BridgeSpec converter" where
  "BridgeConverter_parse xl = bridgeSpecFromObject xl"

definition xchain_entry :: "xrpl_lib \<Rightarrow> string \<Rightarrow> XChainClaimIdEntry converter" where
  "xchain_entry xl k v =
     obind (bridgeSpecFromObject xl v) (\<lambda>b.
       obind (uint32_member k v) (\<lambda>i. Ret (XChainClaimIdEntry b i)))"

definition XChainClaimIdConverter_parse :: "xrpl_lib \<Rightarrow> XChainClaimIdEntry locator converter" where
  "XChainClaimIdConverter_parse xl = locator xl (xchain_entry xl ''xchain_owned_claim_id'')"

definition XChainCreateAccountClaimIdConverter_parse ::
    "xrpl_lib \<Rightarrow> XChainClaimIdEntry locator converter" where
  "XChainCreateAccountClaimIdConverter_parse xl =
     locator xl (xchain_entry xl ''xchain_owned_create_account_claim_id'')"

section \<open>The Input and the spec\<close>

record ledger_entry_Input =
  le_ledger :: LedgerSpecifier
  le_binary :: bool
  le_includeDeleted :: bool
  le_index :: "uint256 option"
  le_check :: "uint256 option"
  le_paymentChannel :: "uint256 option"
  le_nftPage :: "uint256 option"
  le_nftOffer :: "uint256 option"
  le_signerList :: "uint256 option"
  le_amendments :: "uint256 option"
  le_fee :: "uint256 option"
  le_hashes :: "uint256 option"
  le_nunl :: "uint256 option"
  le_accountRoot :: "account_id option"
  le_did :: "account_id option"
  le_mptIssuance :: "uint192 option"
  le_directory :: "DirectoryEntry locator option"
  le_offer :: "OfferEntry locator option"
  le_escrow :: "EscrowEntry locator option"
  le_depositPreauth :: "DepositPreauthEntry locator option"
  le_ticket :: "TicketEntry locator option"
  le_amm :: "AmmEntry locator option"
  le_mptoken :: "MptokenEntry locator option"
  le_permissionedDomain :: "PermissionedDomainEntry locator option"
  le_vault :: "VaultEntry locator option"
  le_loanBroker :: "LoanBrokerEntry locator option"
  le_loan :: "LoanEntry locator option"
  le_oracle :: "OracleEntry locator option"
  le_credential :: "CredentialEntry locator option"
  le_delegate :: "DelegateEntry locator option"
  le_sponsorship :: "SponsorshipEntry locator option"
  le_rippleStateAccount :: "RippleStateEntry locator option"
  le_bridge :: "BridgeSpec option"
  le_bridgeAccount :: "account_id option"
  le_xchainOwnedClaimId :: "XChainClaimIdEntry locator option"
  le_xchainOwnedCreateAccountClaimId :: "XChainClaimIdEntry locator option"

definition ledger_entry_init :: ledger_entry_Input where
  "ledger_entry_init = \<lparr>le_ledger = Unspecified, le_binary = False, le_includeDeleted = False,
     le_index = None, le_check = None, le_paymentChannel = None, le_nftPage = None,
     le_nftOffer = None, le_signerList = None, le_amendments = None, le_fee = None,
     le_hashes = None, le_nunl = None, le_accountRoot = None, le_did = None,
     le_mptIssuance = None, le_directory = None, le_offer = None, le_escrow = None,
     le_depositPreauth = None, le_ticket = None, le_amm = None, le_mptoken = None,
     le_permissionedDomain = None, le_vault = None, le_loanBroker = None,
     le_loan = None, le_oracle = None, le_credential = None, le_delegate = None,
     le_sponsorship = None, le_rippleStateAccount = None, le_bridge = None,
     le_bridgeAccount = None, le_xchainOwnedClaimId = None,
     le_xchainOwnedCreateAccountClaimId = None\<rparr>"

text \<open>The items of a locator: the two types, the key and the members of the object.\<close>

definition either_items :: "server \<Rightarrow> xrpl_lib \<Rightarrow> 'm item \<Rightarrow> unit item \<Rightarrow> field_spec list \<Rightarrow> 'm item list"
  where
  "either_items srv xl typeItem keyItem sub =
     [typeItem, ifType TString [keyItem], ifType TObject [section_of sub]]"

abbreviation plain_type :: "'m item" where
  "plain_type \<equiv> type_any [TString, TObject]"

definition request_type :: "server \<Rightarrow> 'm item" where
  "request_type srv = WithCustomError (type_any [TString, TObject]) (kMalformedRequest srv) []"

definition required_request :: "server \<Rightarrow> unit item" where
  "required_request srv = WithCustomError (required srv) (kMalformedRequest srv) []"

definition plain_locator :: "server \<Rightarrow> xrpl_lib \<Rightarrow> field_spec list \<Rightarrow> 'm item list" where
  "plain_locator srv xl = either_items srv xl plain_type (kMalformedRequestHexStringValidator srv xl)"

definition request_locator :: "server \<Rightarrow> xrpl_lib \<Rightarrow> field_spec list \<Rightarrow> 'm item list" where
  "request_locator srv xl =
     either_items srv xl (request_type srv) (kMalformedRequestHexStringValidator srv xl)"

definition address_locator :: "server \<Rightarrow> xrpl_lib \<Rightarrow> field_spec list \<Rightarrow> 'm item list" where
  "address_locator srv xl =
     either_items srv xl (request_type srv)
       (WithCustomError (kMalformedRequestHexStringValidator srv xl) (kMalformedAddress srv) [])"

definition address_member :: "server \<Rightarrow> xrpl_lib \<Rightarrow> string \<Rightarrow> field_spec" where
  "address_member srv xl k =
     field k [required_request srv, WithCustomError (accountBase58 srv xl) (kMalformedAddress srv) []]"

definition owner_member :: "server \<Rightarrow> xrpl_lib \<Rightarrow> unit item \<Rightarrow> field_spec" where
  "owner_member srv xl req =
     field ''owner'' [req, WithCustomError (accountBase58 srv xl) (kMalformedOwner srv) []]"

definition request_uint32_member :: "server \<Rightarrow> string \<Rightarrow> field_spec" where
  "request_uint32_member srv k =
     field k [required_request srv, WithCustomError (type TUint32) (kMalformedRequest srv) []]"

definition asset_member :: "server \<Rightarrow> xrpl_lib \<Rightarrow> string \<Rightarrow> field_spec" where
  "asset_member srv xl k =
     field k [required_request srv, WithCustomError (type TObject) (kMalformedRequest srv) [],
       currencyIssue srv xl]"

definition xchain_items :: "server \<Rightarrow> xrpl_lib \<Rightarrow> string \<Rightarrow> 'm item list" where
  "xchain_items srv xl k =
     [request_type srv,
      ifType TString [kMalformedRequestHexStringValidator srv xl],
      kBridgeJsonValidator srv xl,
      WithCustomError (ifType TObject [section_of [field k [required srv, type TUint32]]])
        (kMalformedRequest srv) []]"

definition oracle_members :: "server \<Rightarrow> xrpl_lib \<Rightarrow> field_spec list" where
  "oracle_members srv xl =
     [address_member srv xl ''account'',
      field ''oracle_document_id''
        [required_request srv,
         WithCustomError (type_any [TUint32, TString]) (kMalformedOracleDocumentId srv) [],
         WithCustomError toNumber (kMalformedOracleDocumentId srv) []]]"

text \<open>The declaration, in three parts that follow one another.\<close>

definition ledger_entry_fields_basic :: "server \<Rightarrow> xrpl_lib \<Rightarrow> ledger_entry_Input typed_spec" where
  "ledger_entry_fields_basic srv xl =
     [ledgerSelector srv xl 0 (\<lambda>m i. i\<lparr>le_ledger := m\<rparr>),
      tfield ''binary'' 1 (\<lambda>m i. i\<lparr>le_binary := m\<rparr>) [type TBool] jsonBool,
      tfield ''index'' 3 (\<lambda>m i. i\<lparr>le_index := Some m\<rparr>)
        [kMalformedRequestHexStringValidator srv xl] (asUint256 srv xl),
      aliased ''account'' (bfield ''account_root'' 13 (\<lambda>m i. i\<lparr>le_accountRoot := Some m\<rparr>)
        [accountBase58 srv xl] (accountId srv xl)),
      tfield ''did'' 14 (\<lambda>m i. i\<lparr>le_did := Some m\<rparr>) [accountBase58 srv xl] (accountId srv xl),
      tfield ''check'' 4 (\<lambda>m i. i\<lparr>le_check := Some m\<rparr>)
        [kMalformedRequestHexStringValidator srv xl] (asUint256 srv xl),
      tfield ''deposit_preauth'' 19 (\<lambda>m i. i\<lparr>le_depositPreauth := Some m\<rparr>)
        (plain_locator srv xl
           [owner_member srv xl (required srv),
            field ''authorized'' [accountBase58 srv xl],
            field ''authorized_credentials'' [authorizeCredential srv xl]])
        (DepositPreauthConverter_parse xl),
      tfield ''directory'' 16 (\<lambda>m i. i\<lparr>le_directory := Some m\<rparr>)
        (plain_locator srv xl
           [field ''owner'' [accountBase58 srv xl],
            field ''dir_root'' [uint256Hex srv xl],
            field ''sub_index'' [kMalformedRequestIntValidator srv]])
        (DirectoryConverter_parse xl),
      tfield ''escrow'' 18 (\<lambda>m i. i\<lparr>le_escrow := Some m\<rparr>)
        (plain_locator srv xl
           [owner_member srv xl (required srv),
            field ''seq'' [required srv, kMalformedRequestIntValidator srv]])
        (EscrowConverter_parse xl),
      tfield ''offer'' 17 (\<lambda>m i. i\<lparr>le_offer := Some m\<rparr>)
        (plain_locator srv xl
           [field ''account'' [required srv, accountBase58 srv xl],
            field ''seq'' [required srv, kMalformedRequestIntValidator srv]])
        (OfferConverter_parse xl)]"

definition ledger_entry_fields_objects :: "server \<Rightarrow> xrpl_lib \<Rightarrow> ledger_entry_Input typed_spec" where
  "ledger_entry_fields_objects srv xl =
     [tfield ''payment_channel'' 5 (\<lambda>m i. i\<lparr>le_paymentChannel := Some m\<rparr>)
        [kMalformedRequestHexStringValidator srv xl] (asUint256 srv xl),
      aliased ''state'' (bfield ''ripple_state'' 31 (\<lambda>m i. i\<lparr>le_rippleStateAccount := Some m\<rparr>)
        (plain_locator srv xl
           [field ''accounts'' [required srv, kRippleStateAccountsValidator srv xl],
            field ''currency'' [required srv, currency srv xl]])
        (RippleStateConverter_parse xl)),
      tfield ''ticket'' 20 (\<lambda>m i. i\<lparr>le_ticket := Some m\<rparr>)
        (plain_locator srv xl
           [field ''account'' [required srv, accountBase58 srv xl],
            field ''ticket_seq'' [required srv, kMalformedRequestIntValidator srv]])
        (TicketConverter_parse xl),
      tfield ''nft_page'' 6 (\<lambda>m i. i\<lparr>le_nftPage := Some m\<rparr>)
        [kMalformedRequestHexStringValidator srv xl] (asUint256 srv xl),
      tfield ''amm'' 21 (\<lambda>m i. i\<lparr>le_amm := Some m\<rparr>)
        (plain_locator srv xl
           [asset_member srv xl ''asset'',
            asset_member srv xl ''asset2''])
        (AmmConverter_parse xl),
      tfield ''bridge'' 32 (\<lambda>m i. i\<lparr>le_bridge := Some m\<rparr>)
        [WithCustomError (type TObject) (kMalformedRequest srv) [], kBridgeJsonValidator srv xl]
        (BridgeConverter_parse xl),
      tfield ''bridge_account'' 33 (\<lambda>m i. i\<lparr>le_bridgeAccount := Some m\<rparr>)
        [WithCustomError (accountBase58 srv xl) (kMalformedRequest srv) []] (accountId srv xl),
      tfield ''xchain_owned_claim_id'' 34 (\<lambda>m i. i\<lparr>le_xchainOwnedClaimId := Some m\<rparr>)
        (xchain_items srv xl ''xchain_owned_claim_id'') (XChainClaimIdConverter_parse xl),
      tfield ''xchain_owned_create_account_claim_id'' 35
        (\<lambda>m i. i\<lparr>le_xchainOwnedCreateAccountClaimId := Some m\<rparr>)
        (xchain_items srv xl ''xchain_owned_create_account_claim_id'')
        (XChainCreateAccountClaimIdConverter_parse xl)]"

definition ledger_entry_fields_recent :: "server \<Rightarrow> xrpl_lib \<Rightarrow> ledger_entry_Input typed_spec" where
  "ledger_entry_fields_recent srv xl =
     [tfield ''oracle'' 27 (\<lambda>m i. i\<lparr>le_oracle := Some m\<rparr>)
        (address_locator srv xl (oracle_members srv xl)) (OracleConverter_parse xl),
      tfield ''credential'' 28 (\<lambda>m i. i\<lparr>le_credential := Some m\<rparr>)
        (address_locator srv xl
           [address_member srv xl ''subject'',
            address_member srv xl ''issuer'',
            field ''credential_type''
              [required_request srv, WithCustomError (type TString) (kMalformedRequest srv) [],
               credentialType srv xl]])
        (CredentialConverter_parse xl),
      tfield ''mpt_issuance'' 15 (\<lambda>m i. i\<lparr>le_mptIssuance := Some m\<rparr>)
        [WithCustomError (uint192Hex srv xl) (kMalformedRequest srv) []] (asUint192 srv xl),
      tfield ''mptoken'' 22 (\<lambda>m i. i\<lparr>le_mptoken := Some m\<rparr>)
        (request_locator srv xl
           [address_member srv xl ''account'',
            field ''mpt_issuance_id''
              [required_request srv, WithCustomError (uint192Hex srv xl) (kMalformedRequest srv) []]])
        (MptokenConverter_parse xl),
      tfield ''permissioned_domain'' 23 (\<lambda>m i. i\<lparr>le_permissionedDomain := Some m\<rparr>)
        (request_locator srv xl
           [request_uint32_member srv ''seq'',
            address_member srv xl ''account''])
        (PermissionedDomainConverter_parse xl),
      tfield ''vault'' 24 (\<lambda>m i. i\<lparr>le_vault := Some m\<rparr>)
        (request_locator srv xl
           [request_uint32_member srv ''seq'',
            owner_member srv xl (required_request srv)])
        (VaultConverter_parse xl),
      tfield ''loan_broker'' 25 (\<lambda>m i. i\<lparr>le_loanBroker := Some m\<rparr>)
        (request_locator srv xl
           [request_uint32_member srv ''seq'',
            owner_member srv xl (required_request srv)])
        (LoanBrokerConverter_parse xl),
      tfield ''loan'' 26 (\<lambda>m i. i\<lparr>le_loan := Some m\<rparr>)
        (request_locator srv xl
           [request_uint32_member srv ''loan_seq'',
            field ''loan_broker_id''
              [required_request srv, WithCustomError (uint256Hex srv xl) (kMalformedRequest srv) []]])
        (LoanConverter_parse xl),
      tfield ''delegate'' 29 (\<lambda>m i. i\<lparr>le_delegate := Some m\<rparr>)
        (request_locator srv xl
           [address_member srv xl ''account'',
            address_member srv xl ''authorize''])
        (ledger_entry_DelegateConverter_parse xl),
      tfield ''sponsorship'' 30 (\<lambda>m i. i\<lparr>le_sponsorship := Some m\<rparr>)
        (request_locator srv xl
           [address_member srv xl ''sponsor'',
            address_member srv xl ''sponsee''])
        (SponsorshipConverter_parse xl),
      tfield ''amendments'' 9 (\<lambda>m i. i\<lparr>le_amendments := Some m\<rparr>)
        [kMalformedRequestHexStringValidator srv xl] (asUint256 srv xl),
      tfield ''fee'' 10 (\<lambda>m i. i\<lparr>le_fee := Some m\<rparr>)
        [kMalformedRequestHexStringValidator srv xl] (asUint256 srv xl),
      tfield ''hashes'' 11 (\<lambda>m i. i\<lparr>le_hashes := Some m\<rparr>)
        [kMalformedRequestHexStringValidator srv xl] (asUint256 srv xl),
      tfield ''nft_offer'' 7 (\<lambda>m i. i\<lparr>le_nftOffer := Some m\<rparr>)
        [kMalformedRequestHexStringValidator srv xl] (asUint256 srv xl),
      tfield ''nunl'' 12 (\<lambda>m i. i\<lparr>le_nunl := Some m\<rparr>)
        [kMalformedRequestHexStringValidator srv xl] (asUint256 srv xl),
      tfield ''signer_list'' 8 (\<lambda>m i. i\<lparr>le_signerList := Some m\<rparr>)
        [kMalformedRequestHexStringValidator srv xl] (asUint256 srv xl),
      vfield ''ledger'' [deprecated srv],
      tfield ''include_deleted'' 2 (\<lambda>m i. i\<lparr>le_includeDeleted := m\<rparr>) [type TBool] jsonBool]"

definition ledger_entry_kInputSpec :: "server \<Rightarrow> xrpl_lib \<Rightarrow> ledger_entry_Input typed_spec" where
  "ledger_entry_kInputSpec srv xl =
     ledger_entry_fields_basic srv xl @ ledger_entry_fields_objects srv xl @
     ledger_entry_fields_recent srv xl"

definition ledger_entry_kSpec :: "server \<Rightarrow> xrpl_lib \<Rightarrow> ledger_entry_Input typed_spec list" where
  "ledger_entry_kSpec srv xl = [ledger_entry_kInputSpec srv xl]"

end
