(* ===== verification/HandlersEntrySafe.thy ===== *)
theory HandlersEntrySafe
  imports HandlersEntry
begin

text \<open>
  The \<^verbatim>\<open>ledger_entry\<close> spec is safe: behind the items of its field no converter of a locator throws.
  A locator's items let a string through only when it is a key, and an object only when its members
  passed, which is what the converter's \<^verbatim>\<open>...FromValidated\<close> helpers ask for.
\<close>

lemma reads_only_Cons:
  "reads_only it \<Longrightarrow> runProcessors (it # its) v = (v', Ret ()) \<longleftrightarrow>
     passes it v \<and> runProcessors its v = (v', Ret ())"
  by (cases "callIfProcessor it v") (auto simp: reads_only_def passes_def sbind_eq_Ret dest: spec [of _ v])

section \<open>Members behind their validators\<close>

lemma base58_account: "is_base58_account xl s \<Longrightarrow> accountFromStringStrict xl s \<noteq> None"
  by (auto simp: is_base58_account_def accountFromStringStrict_def Let_def parseBase58Wrapper_def
      split: option.split)

lemmas validated_defs = accountFromValidated_def uint256FromValidated_def uint192FromValidated_def
  currencyFromValidated_def issuerFromValidated_def

lemma string_as_no_throw:
  assumes "present v" and "string_field P v" and "\<And>s. P s \<Longrightarrow> \<not> throws (f s)"
  shows "\<not> throws (string_as f v)"
proof -
  obtain s where "fv_value v = Some (JString s)" "P s" using assms(1,2) by (auto simp: string_field_def)
  with assms(3) [of s] show ?thesis by (auto simp: string_as_def asString_def)
qed

lemma validated_no_throw:
  "present v \<Longrightarrow> string_field (is_base58_account xl) v \<Longrightarrow>
     \<not> throws (string_as (accountFromValidated xl) v)"
  "present v \<Longrightarrow> string_field (is_hex (xl_parseHex256 xl)) v \<Longrightarrow>
     \<not> throws (string_as (uint256FromValidated xl) v)"
  "present v \<Longrightarrow> string_field (is_hex (xl_parseHex192 xl)) v \<Longrightarrow>
     \<not> throws (string_as (uint192FromValidated xl) v)"
  "present v \<Longrightarrow> string_field (is_currency xl) v \<Longrightarrow>
     \<not> throws (string_as (currencyFromValidated xl) v)"
  by (erule (1) string_as_no_throw,
      use base58_account in \<open>fastforce simp: validated_defs is_hex_def is_currency_def\<close>)+

lemma account_member_no_throw:
  "present (child v k) \<Longrightarrow> string_field (is_base58_account xl) (child v k) \<Longrightarrow>
     \<not> throws (account_member xl k v)"
  by (simp add: account_member_def validated_no_throw)

lemma uint32_member_no_throw: "isUint32 (child v k) \<Longrightarrow> \<not> throws (uint32_member k v)"
  by (simp add: uint32_member_def total_asUint32_conv)

lemma issue_no_throw:
  assumes "is_currency_issue xl v"
  shows "\<not> throws (issueFromCurrencyIssue xl v)"
proof -
  obtain s c where "fv_value (child v ''currency'') = Some (JString s)" "xl_toCurrency xl s = Some c"
    "\<not> xl_isXRP xl c \<longrightarrow> (\<exists>t a. fv_value (child v ''issuer'') = Some (JString t) \<and> xl_toIssuer xl t = Some a)"
    using assms by (auto simp: is_currency_issue_def split: if_splits)
  then show ?thesis
    by (auto simp: issueFromCurrencyIssue_def validated_defs string_as_def asString_def)
qed

section \<open>Locators\<close>

definition key_item :: "xrpl_lib \<Rightarrow> unit item \<Rightarrow> bool" where
  "key_item xl it =
     (item_ok it \<and> reads_only it \<and> (\<forall>v. passes it v \<longrightarrow> string_field (is_hex (xl_parseHex256 xl)) v))"

definition type_item :: "'m item \<Rightarrow> bool" where
  "type_item it =
     (item_ok it \<and> reads_only it \<and> (\<forall>v. passes it v \<longrightarrow> present v \<longrightarrow> isString v \<or> isObject v))"

lemma key_items [simp]:
  "key_item xl (kMalformedRequestHexStringValidator srv xl)"
  "key_item xl (WithCustomError (kMalformedRequestHexStringValidator srv xl) c m)"
  by (simp_all add: key_item_def kMalformedRequestHexStringValidator_def Uint256HexString_verify_def
      hex_string.passes_iff)

lemma type_items [simp]: "type_item plain_type" "type_item (request_type srv)"
  by (auto simp: type_item_def request_type_def type_any.passes_iff)

lemma bound_either_safe:
  assumes t: "type_item t" and key: "key_item xl key" and sub: "list_all field_ok sub"
    and e: "\<And>v v'. isObject v \<Longrightarrow> run_nested sub v = (v', Ret ()) \<Longrightarrow>
      \<not> isString v' \<and> \<not> throws (e v')"
  shows "bound_field_safe (bfield k n a (either_items srv xl t key sub) (locator xl e))"
proof -
  have "\<not> throws (locator xl e v')"
    if run: "runProcessors (either_items srv xl t key sub) v = (v', Ret ())" and p: "present v'" for v v'
  proof -
    have ro: "reads_only t" "reads_only key" using t key by (simp_all add: type_item_def key_item_def)
    then have run': "passes t v" "present v \<longrightarrow> isString v \<longrightarrow> passes key v"
      "runProcessors [ifType TObject [section_of sub]] v = (v', Ret ())"
      using run by (simp_all add: either_items_def reads_only_Cons del: runProcessors.simps(2))
    show ?thesis
    proof (cases "isObject v")
      case True
      then have "run_nested sub v = (v', Ret ())"
        using run'(3) by (auto simp: IfType_modify_def Section_modify_def sbind_eq_Ret)
      with e [OF True] show ?thesis by (auto simp: locator_def split: outcome.split)
    next
      case False
      then have "v' = v" using run'(3) by (auto simp: IfType_modify_def)
      moreover from this False p run'(1) t have "isString v" by (auto simp: type_item_def)
      ultimately show ?thesis
        using run'(2) key p validated_no_throw(2) [of v xl]
        by (auto simp: key_item_def locator_def split: outcome.splits)
    qed
  qed
  then show ?thesis
    using t key sub by (auto simp: bound_field_safe_def either_items_def type_item_def key_item_def)
qed

lemma bound_either_reads:
  assumes "type_item t" and "key_item xl key" and "list_all field_ok sub" and "nested_reads_only sub"
    and "\<And>v. isObject v \<Longrightarrow> nested_passes sub v \<Longrightarrow> \<not> throws (e v)"
  shows "bound_field_safe (bfield k n a (either_items srv xl t key sub) (locator xl e))"
proof (rule bound_either_safe [OF assms(1-3)])
  fix v v' assume "isObject v" "run_nested sub v = (v', Ret ())"
  then show "\<not> isString v' \<and> \<not> throws (e v')"
    using run_nested_reads_only [OF assms(4), of v] assms(5) [of v]
    by (auto simp: isObject_value isString_value)
qed

section \<open>The members of the entries\<close>

lemmas member_defs = address_member_def request_uint32_member_def owner_member_def asset_member_def

lemmas verdicts = required.passes_iff type_of.passes_iff account_base58.passes_iff
  currency_issue.passes_iff hex_string.passes_iff currency.passes_iff credential_type.passes_iff
  authorize_credential.passes_iff

lemma request_items [simp]:
  "item_ok (required_request srv)" "reads_only (required_request srv)"
  "passes (required_request srv) v \<longleftrightarrow> present v"
  "item_ok (kMalformedRequestIntValidator srv)" "reads_only (kMalformedRequestIntValidator srv)"
  "passes (kMalformedRequestIntValidator srv) v \<longleftrightarrow> (present v \<longrightarrow> isUint32 v)"
  by (auto simp: required_request_def kMalformedRequestIntValidator_def verdicts)

lemma member_ok [simp]:
  "field_ok (address_member srv xl k)" "field_ok (request_uint32_member srv k)"
  "item_ok req \<Longrightarrow> field_ok (owner_member srv xl req)" "field_ok (asset_member srv xl k)"
  by (simp_all add: member_defs)

lemma member_reads [simp]:
  "nested_reads_only (address_member srv xl k # sub) \<longleftrightarrow> nested_reads_only sub"
  "nested_reads_only (request_uint32_member srv k # sub) \<longleftrightarrow> nested_reads_only sub"
  "reads_only req \<Longrightarrow> nested_reads_only (owner_member srv xl req # sub) \<longleftrightarrow> nested_reads_only sub"
  "nested_reads_only (asset_member srv xl k # sub) \<longleftrightarrow> nested_reads_only sub"
  by (simp_all add: member_defs)

lemma member_passes [simp]:
  "nested_passes (address_member srv xl k # sub) v \<longleftrightarrow>
     (present (child v k) \<and> string_field (is_base58_account xl) (child v k)) \<and> nested_passes sub v"
  "nested_passes (request_uint32_member srv k # sub) v \<longleftrightarrow> 
     (present (child v k) \<and> isUint32 (child v k)) \<and> nested_passes sub v"
  "nested_passes (owner_member srv xl req # sub) v \<longleftrightarrow>
     (passes req (child v ''owner'') \<and> string_field (is_base58_account xl) (child v ''owner'')) \<and> nested_passes sub v"
  "nested_passes (asset_member srv xl k # sub) v \<longleftrightarrow>
     (present (child v k) \<and> is_currency_issue xl (child v k)) \<and> nested_passes sub v"
  by (auto simp: member_defs verdicts is_currency_issue_def)

lemma account_seq_no_throw:
  "present (child v k1) \<Longrightarrow> string_field (is_base58_account xl) (child v k1) \<Longrightarrow>
     isUint32 (child v k2) \<Longrightarrow> \<not> throws (account_seq xl en k1 k2 v)"
  by (simp add: account_seq_def throws_obind account_member_no_throw uint32_member_no_throw)

lemma account_pair_no_throw:
  "present (child v k1) \<Longrightarrow> string_field (is_base58_account xl) (child v k1) \<Longrightarrow>
   present (child v k2) \<Longrightarrow> string_field (is_base58_account xl) (child v k2) \<Longrightarrow>
     \<not> throws (account_pair xl en k1 k2 v)"
  by (simp add: account_pair_def throws_obind account_member_no_throw)

lemma tfield_either_reads:
  assumes "type_item t" and "key_item xl key" and "list_all field_ok sub" and "nested_reads_only sub"
    and "\<And>v. isObject v \<Longrightarrow> nested_passes sub v \<Longrightarrow> \<not> throws (e v)"
  shows "tfield_safe (tfield k n a (either_items srv xl t key sub) (locator xl e))"
  unfolding tfield_def by (rule tfield_safe_bound [OF bound_either_reads [OF assms]])

lemmas locator_defs = plain_locator_def request_locator_def address_locator_def

lemma bridge_reads [simp]: "nested_reads_only (bridge_fields srv xl)" "list_all field_ok (bridge_fields srv xl)"
  by (simp_all add: bridge_fields_def)

lemma bridge_item [simp]:
  "item_ok (kBridgeJsonValidator srv xl)" "reads_only (kBridgeJsonValidator srv xl)"
  "passes (kBridgeJsonValidator srv xl) v \<longleftrightarrow> (isObject v \<longrightarrow> nested_passes (bridge_fields srv xl) v)"
  by (auto simp: kBridgeJsonValidator_def isObject_value present_value)

lemma bridge_no_throw:
  "nested_passes (bridge_fields srv xl) v \<Longrightarrow> \<not> throws (bridgeSpecFromObject xl v)"
  by (simp add: bridge_fields_def verdicts bridgeSpecFromObject_def throws_obind
      account_member_no_throw issue_no_throw)

lemma hex_item_safe [simp]:
  "item_ok (kMalformedRequestHexStringValidator srv xl)"
  "reads_only (kMalformedRequestHexStringValidator srv xl)"
  "passes (kMalformedRequestHexStringValidator srv xl) v \<longleftrightarrow> string_field (is_hex (xl_parseHex256 xl)) v"
  by (simp_all add: kMalformedRequestHexStringValidator_def Uint256HexString_verify_def verdicts)

lemma directory_no_throw:
  "string_field (is_base58_account xl) (child v ''owner'') \<Longrightarrow>
   string_field (is_hex (xl_parseHex256 xl)) (child v ''dir_root'') \<Longrightarrow> \<not> throws (directory_entry xl v)"
  by (simp add: directory_entry_def throws_obind Let_def account_member_no_throw validated_no_throw total_asUint32_conv)

lemma authorize_entry_no_throw:
  assumes "is_credential xl x" "fv_value e = Some x" shows "\<not> throws (authorize_entry xl e)"
proof -
  obtain s t where e: "fv_value (child e ''issuer'') = Some (JString s)" "is_base58_account xl s"
    "fv_value (child e ''credential_type'') = Some (JString t)"
    using assms by (auto simp: is_credential_def)
  then have "\<not> throws (account_member xl ''issuer'' e)"
    by (intro account_member_no_throw) (auto simp: string_field_def present_def)
  with e show ?thesis by (simp add: authorize_entry_def throws_obind asString_def)
qed

lemma deposit_preauth_no_throw:
  assumes "present (child v ''owner'')" and "string_field (is_base58_account xl) (child v ''owner'')"
    and "string_field (is_base58_account xl) (child v ''authorized'')"
    and "present (child v ''authorized_credentials'') \<longrightarrow>
      array_all (is_credential xl) (child v ''authorized_credentials'')"
  shows "\<not> throws (deposit_preauth_entry xl v)"
proof -
  let ?c = "child v ''authorized_credentials''"
  have "\<not> throws (push_all (\<lambda>i. authorize_entry xl (element ?c i)) [0..<arraySize ?c] [])"
    if c: "present ?c" "isArray ?c"
  proof (rule push_all_no_throw)
    fix i assume i: "i \<in> set [0..<arraySize ?c]"
    then obtain x where "fv_value (element ?c i) = Some x" "is_credential xl x"
      using c assms(4) array_all_index [OF c(2), of "is_credential xl"] by auto
    then show "\<not> throws (authorize_entry xl (element ?c i))" by (simp add: authorize_entry_no_throw)
  qed
  with assms(1-3) show ?thesis
    by (simp add: deposit_preauth_entry_def Let_def throws_obind account_member_no_throw)
qed

lemma strict_base58:
  "parseBase58Wrapper (xl_parseBase58Account xl) s = Some a \<Longrightarrow> \<exists>b. accountFromStringStrict xl s = Some b"
  by (auto simp: accountFromStringStrict_def Let_def split: option.split)

lemma ripple_accounts_pass:
  assumes "ripple_accounts_verify srv xl v = Ret ()" and "i < 2"
  shows "\<not> throws (string_as (accountFromValidated xl) (element v i))"
proof -
  obtain s0 s1 where s: "fv_value (element v 0) = Some (JString s0)" "fv_value (element v 1) = Some (JString s1)"
    using assms(1) by (auto simp: ripple_accounts_verify_def Let_def isString_value split: if_splits)
  then have "accountFromStringStrict xl s0 \<noteq> None" "accountFromStringStrict xl s1 \<noteq> None"
    using assms(1) 
    by (auto simp: ripple_accounts_verify_def Let_def asString_def split: if_splits
      dest!: strict_base58)
  with s assms(2) show ?thesis by (cases i) (auto simp: string_as_def asString_def validated_defs)
qed

lemma ripple_state_no_throw:
  assumes "present (child v ''accounts'')" "passes (kRippleStateAccountsValidator srv xl :: unit item) (child v ''accounts'')"
    and "present (child v ''currency'')" "string_field (is_currency xl) (child v ''currency'')"
  shows "\<not> throws (ripple_state_entry xl v)"
proof -
  have "ripple_accounts_verify srv xl (child v ''accounts'') = Ret ()"
    using assms(1,2) by (simp add: kRippleStateAccountsValidator_def CustomValidator_verify_def)
  then show ?thesis
    using assms(3,4) by (simp add: ripple_state_entry_def Let_def throws_obind ripple_accounts_pass validated_no_throw)
qed

lemma amm_no_throw:
  "is_currency_issue xl (child v ''asset'') \<Longrightarrow> is_currency_issue xl (child v ''asset2'') \<Longrightarrow>
     \<not> throws (amm_entry xl v)"
  by (simp add: amm_entry_def throws_obind issue_no_throw)

lemma ripple_item [simp]: "item_ok (kRippleStateAccountsValidator srv xl)" "reads_only (kRippleStateAccountsValidator srv xl)"
  by (auto simp: kRippleStateAccountsValidator_def ripple_accounts_verify_def Let_def throws_obind dest: asString_isString)

lemma ripple_state_safe:
  "tfield_safe (aliased k' (bfield k n a
     (either_items srv xl plain_type (kMalformedRequestHexStringValidator srv xl)
        [field ''accounts'' [required srv, kRippleStateAccountsValidator srv xl],
            field ''currency'' [required srv, currency srv xl]])
        (locator xl (ripple_state_entry xl))))"
  by (rule tfield_safe_aliased, rule bound_either_reads) (auto simp: verdicts ripple_state_no_throw)

lemma locator_no_throw:
  assumes "present v" and "isString v \<Longrightarrow> string_field (is_hex (xl_parseHex256 xl)) v"
    and "\<not> isString v \<Longrightarrow> \<not> throws (e v)"
  shows "\<not> throws (locator xl e v)"
  using assms validated_no_throw(2) [of v xl] by (auto simp: locator_def split: outcome.splits)

lemma xchain_no_throw:
  "nested_passes (bridge_fields srv xl) v \<Longrightarrow> isUint32 (child v m) \<Longrightarrow> \<not> throws (xchain_entry xl m v)"
  by (simp add: xchain_entry_def throws_obind bridge_no_throw uint32_member_no_throw)

lemma xchain_safe:
  "tfield_safe (tfield k n a (xchain_items srv xl m) (locator xl (xchain_entry xl m)))"
proof (rule tfield_safe_establishes)
  show "establishes (xchain_items srv xl m) (\<lambda>v. (isString v \<longrightarrow> string_field (is_hex (xl_parseHex256 xl)) v) \<and>
      (\<not> isString v \<longrightarrow> nested_passes (bridge_fields srv xl) v \<and> isUint32 (child v m)))"
    by (rule establishes_passes)
      (auto simp: xchain_items_def request_type_def type_any.passes_iff type_of.passes_iff
        required.passes_iff)
next
  fix v assume p: "present v" and "(isString v \<longrightarrow> string_field (is_hex (xl_parseHex256 xl)) v) \<and>
      (\<not> isString v \<longrightarrow> nested_passes (bridge_fields srv xl) v \<and> isUint32 (child v m))"
  then show "\<not> throws (locator xl (xchain_entry xl m) v)"
    by (intro locator_no_throw xchain_no_throw) auto
qed (simp add: xchain_items_def request_type_def)

lemma bridge_safe:
  "tfield_safe (tfield k n a [WithCustomError (type TObject) c m, kBridgeJsonValidator srv xl]
     (BridgeConverter_parse xl))"
  unfolding BridgeConverter_parse_def
  by (rule tfield_safe_establishes [OF _ establishes_passes [where P = "\<lambda>v. nested_passes (bridge_fields srv xl) v"]])
    (auto simp: type_of.passes_iff bridge_no_throw)

lemma credential_no_throw:
  "present (child v ''subject'') \<Longrightarrow> string_field (is_base58_account xl) (child v ''subject'') \<Longrightarrow>
   present (child v ''issuer'') \<Longrightarrow> string_field (is_base58_account xl) (child v ''issuer'') \<Longrightarrow>
   isString (child v ''credential_type'') \<Longrightarrow> \<not> throws (credential_entry xl v)"
  using asString_isString [of "child v ''credential_type''"]
  by (auto simp: credential_entry_def throws_obind account_member_no_throw)

lemma mptoken_no_throw:
  "present (child v ''account'') \<Longrightarrow> string_field (is_base58_account xl) (child v ''account'') \<Longrightarrow>
   present (child v ''mpt_issuance_id'') \<Longrightarrow>
   string_field (is_hex (xl_parseHex192 xl)) (child v ''mpt_issuance_id'') \<Longrightarrow> \<not> throws (mptoken_entry xl v)"
  by (simp add: mptoken_entry_def throws_obind account_member_no_throw validated_no_throw)

lemma loan_no_throw:
  "present (child v ''loan_broker_id'') \<Longrightarrow>
   string_field (is_hex (xl_parseHex256 xl)) (child v ''loan_broker_id'') \<Longrightarrow>
   isUint32 (child v ''loan_seq'') \<Longrightarrow> \<not> throws (loan_entry xl v)"
  by (simp add: loan_entry_def throws_obind uint32_member_no_throw validated_no_throw)

lemma processNested_Ret:
  "processNested (field k its) v = (v', Ret ()) \<longleftrightarrow>
     (\<exists>d. runProcessors its (child v k) = (d, Ret ()) \<and> v' = child_put v d)"
  by (auto simp: processNested_def field_def split: prod.splits)

lemma WithCustomError_Ret:
  "callIfProcessor (WithCustomError w c m) v = (v', Ret ()) \<longleftrightarrow> callIfProcessor w v = (v', Ret ())"
  by (auto simp: callIfProcessor_WithCustomError split: prod.splits outcome.splits)

lemma oracle_members_Ret:
  assumes o: "isObject v" and run: "run_nested (oracle_members srv xl) v = (v', Ret ())"
  shows "isObject v' \<and> present (child v' ''account'') \<and>
    string_field (is_base58_account xl) (child v' ''account'') \<and> isUint32 (child v' ''oracle_document_id'')"
proof -
  let ?d = "child v ''oracle_document_id''"
  let ?its = "[required_request srv,
         WithCustomError (type_any [TUint32, TString]) (kMalformedOracleDocumentId srv) [],
         WithCustomError toNumber (kMalformedOracleDocumentId srv) []] :: unit item list"
  obtain w where w: "processNested (address_member srv xl ''account'') v = (w, Ret ())"
    "processNested (field ''oracle_document_id'' ?its) w = (v', Ret ())"
    using run by (auto simp: oracle_members_def sbind_eq_Ret)
  have acc: "w = v" "present (child v ''account'')" "string_field (is_base58_account xl) (child v ''account'')"
    using run_nested_reads_only [of "[address_member srv xl ''account'']" v] w(1) by simp_all
  obtain d' where d': "runProcessors ?its ?d = (d', Ret ())" "v' = child_put v d'"
    using w(2) acc(1) unfolding processNested_Ret by blast
  have "present ?d" "TypeAny_verify [TUint32, TString] ?d = Ret ()"
    "runProcessors [WithCustomError toNumber (kMalformedOracleDocumentId srv) [] :: unit item] ?d = (d', Ret ())"
    using d'(1) by (simp_all add: reads_only_Cons del: runProcessors.simps(2))
  then have d: "present ?d" "isUint32 ?d \<or> isString ?d" "ToNumber_modify ?d = (d', Ret ())"
    by (auto simp: type_any.passes_iff WithCustomError_Ret sbind_eq_Ret)
  then have n: "isUint32 d'" "fv_key d' = ''oracle_document_id''" using ToNumber_uint32 [of ?d d'] by auto
  then have "fv_value (child v' ''oracle_document_id'') = fv_value d'"
    using child_put_same [of v d'] d(1) d'(2) by (auto simp: isUint32_def present_def split: option.splits)
  moreover have "fv_value (child v' ''account'') = fv_value (child v ''account'')"
    using d'(2) n(2) by simp
  ultimately show ?thesis
    using o n(1) d'(2) acc by (simp add: isUint32_def string_field_def present_def)
qed

lemma oracle_safe:
  "tfield_safe (tfield k n a (address_locator srv xl (oracle_members srv xl))
     (locator xl (account_seq xl OracleEntry ''account'' ''oracle_document_id'')))"
  unfolding address_locator_def tfield_def
proof (rule tfield_safe_bound [OF bound_either_safe])
  fix v v' assume "isObject v" "run_nested (oracle_members srv xl) v = (v', Ret ())"
  from oracle_members_Ret [OF this]
  show "\<not> isString v' \<and> \<not> throws (account_seq xl OracleEntry ''account'' ''oracle_document_id'' v')"
    by (auto simp: account_seq_no_throw isObject_value isString_value)
qed (simp_all add: oracle_members_def)

section \<open>The spec\<close>

lemma basic_safe: "list_all tfield_safe (ledger_entry_fields_basic srv xl)"
  unfolding ledger_entry_fields_basic_def OfferConverter_parse_def EscrowConverter_parse_def
    DirectoryConverter_parse_def DepositPreauthConverter_parse_def locator_defs
  by (simp, intro conjI tfield_either_reads)
    (simp_all add: verdicts account_seq_no_throw directory_no_throw deposit_preauth_no_throw
      Uint256HexString_verify_def)

lemma objects_safe: "list_all tfield_safe (ledger_entry_fields_objects srv xl)"
  unfolding ledger_entry_fields_objects_def TicketConverter_parse_def RippleStateConverter_parse_def
    AmmConverter_parse_def XChainClaimIdConverter_parse_def XChainCreateAccountClaimIdConverter_parse_def locator_defs
  by (simp add: ripple_state_safe xchain_safe bridge_safe, intro conjI tfield_either_reads)
    (simp_all add: verdicts account_seq_no_throw amm_no_throw)

lemma recent_safe: "list_all tfield_safe (ledger_entry_fields_recent srv xl)"
  unfolding ledger_entry_fields_recent_def CredentialConverter_parse_def MptokenConverter_parse_def
    PermissionedDomainConverter_parse_def VaultConverter_parse_def LoanBrokerConverter_parse_def
    LoanConverter_parse_def ledger_entry_DelegateConverter_parse_def SponsorshipConverter_parse_def
    OracleConverter_parse_def locator_defs
  by (simp add: oracle_safe [unfolded address_locator_def], intro conjI tfield_either_reads)
    (simp_all add: verdicts account_seq_no_throw account_pair_no_throw mptoken_no_throw loan_no_throw
      credential_no_throw Uint256HexString_verify_def Uint192HexString_verify_def)

lemmas ledger_entry_specs = ledger_entry_kSpec_def ledger_entry_kInputSpec_def

lemma ledger_entry_safe [simp]: "list_all (list_all tfield_safe) (ledger_entry_kSpec srv xl)"
  by (simp add: ledger_entry_specs basic_safe objects_safe recent_safe)

end
