(* ===== verification/HandlersAll.thy ===== *)
theory HandlersAll
  imports HandlersNft HandlersLedger HandlersMarket HandlersSubscribe HandlersEntrySafe
begin

text \<open>
  What holds of every handler: none throws on any request, every member of every Input is written by
  a field that counts, and on Clio none names the current or closed ledger.
\<close>

section \<open>Which members a spec writes\<close>

text \<open>
  The members bound by the fields that run, that is after overriding; \<open>typed_spec_ok\<close> is the code's
  own check, which counts overridden fields too. Both are decided on the \<open>shape\<close> of the spec, its
  keys and member indices.
\<close>

definition bound_members :: "'i typed_spec \<Rightarrow> nat set" where
  "bound_members sp = {m. \<exists>f \<in> set (effective tf_key sp). tf_member f = Some m}"

definition all_bound :: "nat \<Rightarrow> 'i typed_spec list \<Rightarrow> bool" where
  "all_bound n specs = list_all (\<lambda>sp. typed_spec_ok n sp \<and> bound_members sp = {..<n}) specs"

definition shape :: "'i typed_spec \<Rightarrow> (string \<times> nat option) list" where
  "shape sp = map (\<lambda>f. (tf_key f, tf_member f)) sp"

lemma shape_simps [simp]:
  "shape [] = []" "shape (f # sp) = (tf_key f, tf_member f) # shape sp"
  "shape (sp @ sp') = shape sp @ shape sp'"
  by (simp_all add: shape_def)

lemma map_of_rev_shape: "map_of (rev (shape sp)) k = map_option tf_member (last_def tf_key sp k)"
  by (induction sp rule: rev_induct) (auto simp: last_def_def)

lemma last_def_in: "last_def key fds k = Some f \<Longrightarrow> f \<in> set fds \<and> key f = k"
  by (induction fds rule: rev_induct) (auto simp: last_def_def split: if_splits)

lemma bound_members_map_of: "m \<in> bound_members sp \<longleftrightarrow> (\<exists>k. map_of (rev (shape sp)) k = Some (Some m))"
proof -
  have "m \<in> bound_members sp \<longleftrightarrow>
      (\<exists>k \<in> tf_key ` set sp. tf_member (the (last_def tf_key sp k)) = Some m)"
    by (simp add: bound_members_def effective_def)
  also have "\<dots> \<longleftrightarrow> (\<exists>k \<in> tf_key ` set sp. map_option tf_member (last_def tf_key sp k) = Some (Some m))"
    by (rule bex_cong [OF refl]) (drule last_def_Some, auto)
  also have "\<dots> \<longleftrightarrow> (\<exists>k. map_option tf_member (last_def tf_key sp k) = Some (Some m))"
    by (auto simp: image_iff dest: last_def_in)
  finally show ?thesis by (simp add: map_of_rev_shape)
qed

definition covers :: "nat \<Rightarrow> (string \<times> nat option) list \<Rightarrow> bool" where
  "covers n kms =
     (list_all (\<lambda>(k, mo). case mo of None \<Rightarrow> True | Some m \<Rightarrow> m < n) kms \<and>
      list_all (\<lambda>m. list_ex (\<lambda>(k, mo). mo = Some m \<and> map_of (rev kms) k = Some mo) kms) [0..<n])"

lemma bound_members_covers: "covers n (shape sp) \<Longrightarrow> bound_members sp = {..<n}"
  unfolding covers_def by (fastforce simp: list_all_iff list_ex_iff bound_members_map_of
      dest: map_of_SomeD)

lemma declared_iff:
  "m \<in> set (List.map_filter tf_member sp) \<longleftrightarrow> (\<exists>k. (k, Some m) \<in> set (shape sp))"
  by (induction sp) (auto simp: List.map_filter_def)

lemma declared_covers:
  assumes "covers n (shape sp)"
  shows "typed_spec_ok n sp"
proof -
  have "(\<exists>k. (k, Some m) \<in> set (shape sp)) \<longleftrightarrow> m < n" for m
    using assms unfolding covers_def by (fastforce simp: list_all_iff list_ex_iff)
  then have "set (List.map_filter tf_member sp) = {..<n}" by (auto simp: declared_iff)
  then show ?thesis by (simp add: typed_spec_ok_members)
qed

lemma bound_declared: "m \<in> bound_members sp \<Longrightarrow> m \<in> set (List.map_filter tf_member sp)"
  using set_effective [of tf_key sp] by (force simp: bound_members_def List.map_filter_def)

lemma covers_complete:
  assumes ok: "typed_spec_ok n sp" and bound: "bound_members sp = {..<n}"
  shows "covers n (shape sp)"
proof -
  have "{..<n} = set (List.map_filter tf_member sp)"
    using ok bound bound_declared [of _ sp]
    by (intro card_subset_eq) (auto simp: typed_spec_ok_members)
  then have "m < n" if "(k, Some m) \<in> set (shape sp)" for k m
    using that declared_iff [of m sp] by auto
  moreover have "\<exists>k. (k, Some m) \<in> set (shape sp) \<and> map_of (rev (shape sp)) k = Some (Some m)"
    if "m < n" for m
    using that bound bound_members_map_of [of m sp] by (fastforce dest: map_of_SomeD)
  ultimately show ?thesis
    unfolding covers_def by (fastforce simp: list_all_iff list_ex_iff split: option.splits)
qed

lemma all_bound_shape: "all_bound n specs \<longleftrightarrow> list_all (covers n) (map shape specs)"
  unfolding all_bound_def list_all_iff
  using bound_members_covers declared_covers covers_complete by fastforce

lemma kSpec_nonempty [simp]:
  "account_info_kSpec srv xl \<noteq> []"
  "account_channels_kSpec srv xl \<noteq> []"
  "account_currencies_kSpec srv xl \<noteq> []"
  "account_lines_kSpec srv xl \<noteq> []"
  "account_mptoken_issuances_kSpec srv xl \<noteq> []"
  "account_mptokens_kSpec srv xl \<noteq> []"
  "account_nfts_kSpec srv xl \<noteq> []"
  "account_offers_kSpec srv xl \<noteq> []"
  "account_objects_kSpec srv xl \<noteq> []"
  "account_tx_kSpec srv xl \<noteq> []"
  "amm_info_kSpec srv xl \<noteq> []"
  "book_changes_kSpec srv xl \<noteq> []"
  "book_offers_kSpec srv xl \<noteq> []"
  "deposit_authorized_kSpec srv xl \<noteq> []"
  "feature_kSpec srv xl \<noteq> []"
  "gateway_balances_kSpec srv xl \<noteq> []"
  "get_aggregate_price_kSpec srv xl \<noteq> []"
  "ledger_kSpec srv xl \<noteq> []"
  "ledger_data_kSpec srv xl \<noteq> []"
  "ledger_entry_kSpec srv xl \<noteq> []"
  "ledger_index_kSpec get_time \<noteq> []"
  "mpt_holders_kSpec srv xl \<noteq> []"
  "mptoken_issuance_history_kSpec srv xl \<noteq> []"
  "nft_history_kSpec srv xl \<noteq> []"
  "nft_info_kSpec srv xl \<noteq> []"
  "nft_offers_kSpec srv xl \<noteq> []"
  "nfts_by_issuer_kSpec srv xl \<noteq> []"
  "noripple_check_kSpec srv xl \<noteq> []"
  "server_info_kSpec \<noteq> []"
  "subscribe_kSpec srv xl \<noteq> []"
  "transaction_entry_kSpec srv xl \<noteq> []"
  "tx_kSpec srv xl \<noteq> []"
  "unsubscribe_kSpec srv xl \<noteq> []"
  "vault_info_kSpec srv xl \<noteq> []"
  by (simp_all add: account_info_kSpec_def account_channels_kSpec_def
      account_currencies_kSpec_def account_lines_kSpec_def account_mptoken_issuances_kSpec_def
      account_mptokens_kSpec_def account_nfts_kSpec_def account_offers_kSpec_def
      account_objects_kSpec_def account_tx_kSpec_def amm_info_kSpec_def book_changes_kSpec_def
      book_offers_kSpec_def deposit_authorized_kSpec_def feature_kSpec_def
      gateway_balances_kSpec_def get_aggregate_price_kSpec_def ledger_kSpec_def
      ledger_data_kSpec_def ledger_entry_kSpec_def ledger_index_kSpec_def mpt_holders_kSpec_def
      mptoken_issuance_history_kSpec_def nft_history_kSpec_def nft_info_kSpec_def
      nft_offers_kSpec_def nfts_by_issuer_kSpec_def noripple_check_kSpec_def
      server_info_kSpec_def subscribe_kSpec_def transaction_entry_kSpec_def tx_kSpec_def
      unsubscribe_kSpec_def vault_info_kSpec_def)

section \<open>The Inputs a handler can produce\<close>

definition parsed_inputs :: "'i \<Rightarrow> 'i typed_spec list \<Rightarrow> 'i set" where
  "parsed_inputs init specs = {inp. \<exists>doc v. HandlerFor_parseInput init specs doc v = Ret inp}"

lemma parsed_inputs_select:
  assumes "inp \<in> parsed_inputs init specs" and "specs \<noteq> []"
  shows "\<exists>sp \<in> set specs. \<exists>doc. snd (TypedSpec_parse init sp doc) = Ret inp"
proof -
  obtain doc v where "HandlerFor_parseInput init specs doc v = Ret inp"
    using assms(1) by (auto simp: parsed_inputs_def)
  then show ?thesis using HandlerFor_select [OF assms(2), of init doc v] by metis
qed

lemma parsed_inputs_sets:
  assumes "specs \<noteq> []" and "list_all (list_all (tf_keeps Q)) specs"
    and "list_all (\<lambda>sp. k \<in> tf_key ` set sp \<and> list_all (\<lambda>f. tf_key f = k \<longrightarrow> tf_sets Q f) sp) specs"
  shows "parsed_inputs init specs \<subseteq> {inp. Q inp}"
proof
  fix inp assume "inp \<in> parsed_inputs init specs"
  from parsed_inputs_select [OF this assms(1)] obtain sp doc
    where sp: "sp \<in> set specs" "snd (TypedSpec_parse init sp doc) = Ret inp" by blast
  then have "Q inp" using assms(2,3) TypedSpec_sets [of Q sp k init doc inp] by (auto simp:
      list_all_iff)
  then show "inp \<in> {inp. Q inp}" by simp
qed

lemma parsed_inputs_keeps:
  assumes "specs \<noteq> []" and "list_all (list_all (tf_keeps Q)) specs" and "Q init"
  shows "parsed_inputs init specs \<subseteq> {inp. Q inp}"
proof
  fix inp assume "inp \<in> parsed_inputs init specs"
  from parsed_inputs_select [OF this assms(1)] obtain sp doc
    where sp: "sp \<in> set specs" "snd (TypedSpec_parse init sp doc) = Ret inp" by blast
  then have "Q inp" using assms(2,3) TypedSpec_keeps [of Q sp init doc inp] by (auto simp: list_all_iff)
  then show "inp \<in> {inp. Q inp}" by simp
qed

section \<open>The limit of a page\<close>

text \<open>
  Behind a clamp of 32-bit numbers a field is read as a number in the range, or not as a number at
  all. \<open>limit_within\<close> collects what the three item lists of \<open>limit\<close> establish.
\<close>

lemma set_num_value:
  assumes "set_num x v = (v', Ret ())" and "present v"
  shows "number_of (num_type x) v' = Some x"
proof -
  have "fv_writable v"
    using assms by (cases x) (simp_all add: set_int64_def set_uint32_def set_double_def
      set_value_def split: if_splits)
  from number_of_set_num [OF this assms(2), of x] assms(1) show ?thesis by simp
qed

lemma std_clamp_within:
  assumes "lo \<le> hi" and "num_type x = TUint32"
  shows "\<exists>u. std_clamp x (NUint32 lo) (NUint32 hi) = NUint32 u \<and> lo \<le> u \<and> u \<le> hi"
  using assms by (cases x) (auto simp: std_clamp_def)

lemma asUint32_conv_number: "asUint32_conv v = Ret u \<Longrightarrow> number_of TUint32 v = Some (NUint32 u)"
  by (auto simp: Uint32Converter_parse_def number_of_def numericValue_def isUint32_def
      present_def split: if_splits option.splits)

lemma clamp_gives:
  assumes "lo \<le> hi"
  shows "gives (\<lambda>v. \<forall>u. asUint32_conv v = Ret u \<longrightarrow> lo \<le> u \<and> u \<le> hi) (clamp_to (NUint32 lo) (NUint32 hi))"
  unfolding gives_def
proof (intro allI impI)
  fix v v' u assume c: "callIfProcessor (clamp_to (NUint32 lo) (NUint32 hi)) v = (v', Ret ())"
    and p: "present v'" and r: "asUint32_conv v' = Ret u"
  show "lo \<le> u \<and> u \<le> hi"
  proof (cases "number_of TUint32 v")
    case None
    then have "v' = v" using c by (simp add: Clamp_modify_def numericValue_eq)
    with None asUint32_conv_number [OF r] show ?thesis by simp
  next
    case (Some x)
    obtain w where w: "std_clamp x (NUint32 lo) (NUint32 hi) = NUint32 w" "lo \<le> w" "w \<le> hi"
      using std_clamp_within [OF assms number_of_type [OF Some]] by blast
    then have "set_num (NUint32 w) v = (v', Ret ())"
      using c Some by (auto simp: Clamp_modify_def numericValue_eq sbind_eq_Ret)
    then have "number_of (num_type (NUint32 w)) v' = Some (NUint32 w)"
      using set_num_value number_of_present [OF Some] by blast
    with asUint32_conv_number [OF r] w show ?thesis by simp
  qed
qed

definition limit_within :: "uint32 \<Rightarrow> uint32 \<Rightarrow> uint32 item list \<Rightarrow> bool" where
  "limit_within lo hi its =
     (establishes its (\<lambda>v. \<forall>u. asUint32_conv v = Ret u \<longrightarrow> lo \<le> u \<and> u \<le> hi) \<and>
      defaults its (\<lambda>u. lo \<le> u \<and> u \<le> hi) \<and> list_ex (\<lambda>it. it_default it \<noteq> None) its \<and>
      list_all (\<lambda>it. it_skips it = None) its)"

lemma limit_sets:
  assumes "limit_within lo hi its" and "\<And>m out. lo \<le> m \<and> m \<le> hi \<Longrightarrow> Q (a m out)"
  shows "tf_sets Q (tfield k n a its asUint32_conv)"
  using assms by (intro tf_sets_values [where R = "\<lambda>u. lo \<le> u \<and> u \<le> hi"])
    (auto simp: limit_within_def intro: yields_establishes)

lemma clamp_clio_gives:
  "lo \<le> hi \<Longrightarrow> gives (\<lambda>v. \<forall>u. asUint32_conv v = Ret u \<longrightarrow> lo \<le> u \<and> u \<le> hi)
     (ifServerClio Clio [clamp_to (NUint32 lo) (NUint32 hi)])"
  using clamp_gives [of lo hi]
  by (auto simp: gives_def ifServerClio_def callIfProcessor_conditional sbind_eq_Ret)

lemma conditional_sel [simp]:
  "it_default (ifServerClio srv vs) = None" "it_default (ifServerXrpld srv vs) = None"
  "list_all (\<lambda>it. it_skips it = None) vs \<Longrightarrow> it_skips (ifServerClio srv vs)
      = None"
  "list_all (\<lambda>it. it_skips it = None) vs \<Longrightarrow> it_skips (ifServerXrpld srv vs) = None"
  by (auto simp: ifServerClio_def ifServerXrpld_def ServerConditional_def no_item_def list_ex_iff
      list_all_iff)

lemma limits_within:
  assumes "lo \<le> dflt" and "dflt \<le> hi"
  shows "limit_within lo hi (uniformLimit lo hi dflt)"
    and "limit_within lo hi (pagedLimit Clio lo hi dflt)"
    and "limit_within lo hi (defaultedLimit Clio lo hi dflt)"
proof -
  let ?P = "\<lambda>v. \<forall>u. asUint32_conv v = Ret u \<longrightarrow> lo \<le> u \<and> u \<le> hi"
  have le: "lo \<le> hi" using assms by simp
  have "establishes (uniformLimit lo hi dflt) ?P"
    unfolding uniformLimit_def
    by (rule establishes_later, rule establishes_later, rule establishes_here [OF clamp_gives [OF
      le]])
      (simp add: reads_only_stable)
  moreover have "establishes (pagedLimit Clio lo hi dflt) ?P"
    unfolding pagedLimit_def xrpldLimit_def append.simps
    by (rule establishes_later, rule establishes_later, rule establishes_later,
        rule establishes_here [OF clamp_clio_gives [OF le]]) (simp add: reads_only_stable)
  moreover have "establishes (defaultedLimit Clio lo hi dflt) ?P"
    unfolding defaultedLimit_def xrpldLimit_def append.simps
    by (rule establishes_later, rule establishes_later, rule establishes_later, rule
      establishes_later,
        rule establishes_here [OF clamp_clio_gives [OF le]]) simp
  ultimately show "limit_within lo hi (uniformLimit lo hi dflt)"
    "limit_within lo hi (pagedLimit Clio lo hi dflt)"
    "limit_within lo hi (defaultedLimit Clio lo hi dflt)"
    using assms by (simp_all add: limit_within_def uniformLimit_def pagedLimit_def
      defaultedLimit_def xrpldLimit_def)
qed

lemma limit_keeps:
  assumes "limit_within lo hi its" and "\<And>m out. lo \<le> m \<and> m \<le> hi \<Longrightarrow> Q out \<Longrightarrow> Q (a m out)"
  shows "tf_keeps Q (tfield k n a its asUint32_conv)"
  using assms by (intro tf_keeps_values [where R = "\<lambda>u. lo \<le> u \<and> u \<le> hi"])
    (auto simp: limit_within_def intro: yields_establishes)

text \<open>A limit without a default, behind the same clamp, or behind the lower bound alone.\<close>

lemma optional_limit_keeps:
  assumes "lo \<le> hi" and "\<And>m out. lo \<le> m \<and> m \<le> hi \<Longrightarrow> Q out \<Longrightarrow> Q (a m out)"
  shows "tf_keeps Q (tfield k n a [type TUint32, min_of x, clamp_to (NUint32 lo) (NUint32 hi)] asUint32_conv)"
proof -
  have "establishes [type TUint32, min_of x, clamp_to (NUint32 lo) (NUint32 hi)]
      (\<lambda>v. \<forall>u. asUint32_conv v = Ret u \<longrightarrow> lo \<le> u \<and> u \<le> hi)"
    by (rule establishes_later, rule establishes_later, rule establishes_here [OF clamp_gives [OF assms(1)]]) simp
  then show ?thesis
    using assms(2) by (intro tf_keeps_values [where R = "\<lambda>u. lo \<le> u \<and> u \<le> hi"]) (auto intro: yields_establishes)
qed

lemma floor_limit_keeps:
  assumes "\<And>m out. lo \<le> m \<Longrightarrow> Q out \<Longrightarrow> Q (a m out)"
  shows "tf_keeps Q (tfield k n a [type TUint32, min_of (NUint32 lo)] asUint32_conv)"
proof -
  have "lo \<le> u" if "Min_verify (NUint32 lo) v = Ret ()" "asUint32_conv v = Ret u" for v u
    using that(1) asUint32_conv_number [OF that(2)]
    by (simp add: min_of.passes_iff word_le_def del: of_int_uint)
  then have "establishes [type TUint32, min_of (NUint32 lo)] (\<lambda>v. \<forall>u. asUint32_conv v = Ret u \<longrightarrow> lo \<le> u)"
    by (intro establishes_later establishes_here gives_passes) (auto simp: reads_only_stable)
  then show ?thesis
    using assms by (intro tf_keeps_values [where R = "\<lambda>u. lo \<le> u"]) (auto intro: yields_establishes)
qed

lemmas limit_field = limits_within limit_keeps [OF limits_within(1)] limit_keeps [OF limits_within(2)]
  limit_keeps [OF limits_within(3)] limit_sets [OF limits_within(1)] limit_sets [OF limits_within(2)]
  limit_sets [OF limits_within(3)]

section \<open>The ledger on Clio\<close>

definition clio_ledger :: "LedgerSpecifier \<Rightarrow> bool" where
  "clio_ledger l = (l \<noteq> Shortcut Current \<and> l \<noteq> Shortcut Closed)"

lemma clio_ledger_unspecified [simp]: "clio_ledger Unspecified"
  by (simp add: clio_ledger_def)

lemma clio_request_ledger: "clioLedgerFromRequest Clio xl doc = Ret (Some l) \<Longrightarrow> clio_ledger l"
  by (auto simp: clioLedgerFromRequest_def Let_def obind_eq_Ret omap_eq_Ret clio_ledger_def
      split: if_splits
        dest!: hash_Ret_cases index_Ret_cases)

lemma clio_selector_keeps [simp]:
  "(\<And>l out. clio_ledger l \<Longrightarrow> Q out \<Longrightarrow> Q (asg l out))
      \<Longrightarrow> tf_keeps Q (ledgerSelector Clio xl mb asg)"
  by (auto simp: tf_keeps_def ledgerSelector_def LedgerSelectorField_parseInto_def
      clio_request_ledger
      split: if_splits outcome.splits option.splits)

lemma hex_value_no_nul: "hex_value a s \<noteq> None \<Longrightarrow> CHR 0x00 \<notin> set s"
proof (induction s arbitrary: a)
  case (Cons c s)
  have "hex_digit (CHR 0x00) = None" by code_simp
  then show ?case using Cons by (auto split: option.splits)
qed simp

lemma sample_hex: "hex_without_nul sample_lib"
  using hex_value_no_nul [of 0]
  by (auto simp: hex_without_nul_def sample_lib_def hex_exact_def split: if_splits)

definition safe_handler :: "'i \<Rightarrow> 'i typed_spec list \<Rightarrow> bool" where
  "safe_handler init specs = (\<forall>doc v. \<not> throws (HandlerFor_parseInput init specs doc v))"

section \<open>Properties\<close>

text \<open>
  C8: no handler throws, whatever the request and the API version: what a converter asks of its value,
  the items before it have checked. The libxrpl of \<open>subscribe\<close> must not read a hash from a text that
  has a NUL, since its validator and its converter cut texts differently.
\<close>

theorem handlers_never_throw:
  assumes "hex_without_nul xl"
  shows
    "safe_handler account_info_init (account_info_kSpec srv xl) \<and>
     safe_handler account_channels_init (account_channels_kSpec srv xl) \<and>
     safe_handler account_currencies_init (account_currencies_kSpec srv xl) \<and>
     safe_handler account_lines_init (account_lines_kSpec srv xl) \<and>
     safe_handler account_mptoken_issuances_init (account_mptoken_issuances_kSpec srv xl) \<and>
     safe_handler account_mptokens_init (account_mptokens_kSpec srv xl) \<and>
     safe_handler account_nfts_init (account_nfts_kSpec srv xl) \<and>
     safe_handler account_offers_init (account_offers_kSpec srv xl) \<and>
     safe_handler account_objects_init (account_objects_kSpec srv xl) \<and>
     safe_handler account_tx_init (account_tx_kSpec srv xl) \<and>
     safe_handler amm_info_init (amm_info_kSpec srv xl) \<and>
     safe_handler book_changes_init (book_changes_kSpec srv xl) \<and>
     safe_handler (book_offers_init xl) (book_offers_kSpec srv xl) \<and>
     safe_handler deposit_authorized_init (deposit_authorized_kSpec srv xl) \<and>
     safe_handler feature_init (feature_kSpec srv xl) \<and>
     safe_handler gateway_balances_init (gateway_balances_kSpec srv xl) \<and>
     safe_handler get_aggregate_price_init (get_aggregate_price_kSpec srv xl) \<and>
     safe_handler ledger_init (ledger_kSpec srv xl) \<and>
     safe_handler ledger_data_init (ledger_data_kSpec srv xl) \<and>
     safe_handler ledger_entry_init (ledger_entry_kSpec srv xl) \<and>
     safe_handler ledger_index_init (ledger_index_kSpec get_time) \<and>
     safe_handler mpt_holders_init (mpt_holders_kSpec srv xl) \<and>
     safe_handler mptoken_issuance_history_init (mptoken_issuance_history_kSpec srv xl) \<and>
     safe_handler nft_history_init (nft_history_kSpec srv xl) \<and>
     safe_handler nft_info_init (nft_info_kSpec srv xl) \<and>
     safe_handler nft_offers_init (nft_offers_kSpec srv xl) \<and>
     safe_handler nfts_by_issuer_init (nfts_by_issuer_kSpec srv xl) \<and>
     safe_handler noripple_check_init (noripple_check_kSpec srv xl) \<and>
     safe_handler server_info_init server_info_kSpec \<and>
     safe_handler subscribe_init (subscribe_kSpec srv xl) \<and>
     safe_handler transaction_entry_init (transaction_entry_kSpec srv xl) \<and>
     safe_handler tx_init (tx_kSpec srv xl) \<and>
     safe_handler subscribe_init (unsubscribe_kSpec srv xl) \<and>
     safe_handler vault_info_init (vault_info_kSpec srv xl)"
  unfolding safe_handler_def using assms by (intro conjI allI; intro HandlerFor_no_throw; simp)

theorem handlers_never_throw_witness:
  "\<not> throws (HandlerFor_parseInput ledger_entry_init (ledger_entry_kSpec Clio sample_lib)
     (JObject [(''offer'', JObject [(''account'', JString ''rXa''), (''seq'', JInt64 7)])]) 1)"
  using handlers_never_throw [OF sample_hex, of Clio] by (simp add: safe_handler_def)

text \<open>
  C9: every member of every handler's Input is bound by a field that runs, whatever the overrides of the
  newer specs; and the code's own count agrees.
\<close>

theorem handlers_bind_every_member:
  "all_bound 4 (account_info_kSpec srv xl) \<and>
   all_bound 5 (account_channels_kSpec srv xl) \<and>
   all_bound 4 (account_currencies_kSpec srv xl) \<and>
   all_bound 6 (account_lines_kSpec srv xl) \<and>
   all_bound 4 (account_mptoken_issuances_kSpec srv xl) \<and>
   all_bound 4 (account_mptokens_kSpec srv xl) \<and>
   all_bound 4 (account_nfts_kSpec srv xl) \<and>
   all_bound 4 (account_offers_kSpec srv xl) \<and>
   all_bound 7 (account_objects_kSpec srv xl) \<and>
   all_bound 11 (account_tx_kSpec srv xl) \<and>
   all_bound 5 (amm_info_kSpec srv xl) \<and>
   all_bound 1 (book_changes_kSpec srv xl) \<and>
   all_bound 6 (book_offers_kSpec srv xl) \<and>
   all_bound 4 (deposit_authorized_kSpec srv xl) \<and>
   all_bound 2 (feature_kSpec srv xl) \<and>
   all_bound 3 (gateway_balances_kSpec srv xl) \<and>
   all_bound 6 (get_aggregate_price_kSpec srv xl) \<and>
   all_bound 9 (ledger_kSpec srv xl) \<and>
   all_bound 6 (ledger_data_kSpec srv xl) \<and>
   all_bound 36 (ledger_entry_kSpec srv xl) \<and>
   all_bound 1 (ledger_index_kSpec get_time) \<and>
   all_bound 5 (mpt_holders_kSpec srv xl) \<and>
   all_bound 10 (mptoken_issuance_history_kSpec srv xl) \<and>
   all_bound 8 (nft_history_kSpec srv xl) \<and>
   all_bound 2 (nft_info_kSpec srv xl) \<and>
   all_bound 4 (nft_offers_kSpec srv xl) \<and>
   all_bound 5 (nfts_by_issuer_kSpec srv xl) \<and>
   all_bound 5 (noripple_check_kSpec srv xl) \<and>
   all_bound 1 server_info_kSpec \<and>
   all_bound 5 (subscribe_kSpec srv xl) \<and>
   all_bound 2 (transaction_entry_kSpec srv xl) \<and>
   all_bound 5 (tx_kSpec srv xl) \<and>
   all_bound 5 (unsubscribe_kSpec srv xl) \<and>
   all_bound 4 (vault_info_kSpec srv xl)"
  by (simp add: all_bound_shape account_info_specs account_channels_specs
      account_currencies_specs account_lines_specs account_mptoken_issuances_specs
      account_mptokens_specs account_nfts_specs account_offers_specs account_objects_specs
      account_tx_specs amm_info_specs book_changes_specs book_offers_specs
      deposit_authorized_specs feature_specs gateway_balances_specs get_aggregate_price_specs
      ledger_specs ledger_data_specs ledger_entry_specs ledger_index_specs mpt_holders_specs
      mptoken_issuance_history_specs nft_history_specs nft_info_specs nft_offers_specs
      nfts_by_issuer_specs noripple_check_specs server_info_specs subscribe_specs
      transaction_entry_specs tx_specs unsubscribe_specs vault_info_specs
      ledger_entry_fields_basic_def ledger_entry_fields_objects_def
      ledger_entry_fields_recent_def, code_simp)

text \<open>
  C11: every limit a handler can be given. On Clio the Input of each of the seventeen handlers that take
  a limit has one between the bounds of its handler, whatever the request holds under \<open>limit\<close>; the
  key absent, it is the default, in these bounds as well, or no limit at all in the five handlers
  that choose the default later. \<^verbatim>\<open>ledger_data\<close> sets no upper bound. Where the bounds do not depend
  on the server they hold on xrpld too.
\<close>

theorem clio_limits:
  "parsed_inputs account_channels_init (account_channels_kSpec Clio xl) \<subseteq>
     {i. 10 \<le> ac_limit i \<and> ac_limit i \<le> 400} \<and>
   parsed_inputs account_currencies_init (account_currencies_kSpec Clio xl) \<subseteq>
     {i. 10 \<le> acu_limit i \<and> acu_limit i \<le> 400} \<and>
   parsed_inputs account_lines_init (account_lines_kSpec Clio xl) \<subseteq>
     {i. 10 \<le> al_limit i \<and> al_limit i \<le> 400} \<and>
   parsed_inputs account_mptoken_issuances_init (account_mptoken_issuances_kSpec srv xl) \<subseteq>
     {i. 10 \<le> ami_limit i \<and> ami_limit i \<le> 400} \<and>
   parsed_inputs account_mptokens_init (account_mptokens_kSpec srv xl) \<subseteq>
     {i. 10 \<le> amt_limit i \<and> amt_limit i \<le> 400} \<and>
   parsed_inputs account_nfts_init (account_nfts_kSpec Clio xl) \<subseteq>
     {i. 20 \<le> an_limit i \<and> an_limit i \<le> 400} \<and>
   parsed_inputs account_objects_init (account_objects_kSpec srv xl) \<subseteq>
     {i. 10 \<le> ao_limit i \<and> ao_limit i \<le> 400} \<and>
   parsed_inputs account_offers_init (account_offers_kSpec Clio xl) \<subseteq>
     {i. 10 \<le> af_limit i \<and> af_limit i \<le> 400} \<and>
   parsed_inputs (book_offers_init xl) (book_offers_kSpec Clio xl) \<subseteq>
     {i. 1 \<le> bo_limit i \<and> bo_limit i \<le> 100} \<and>
   parsed_inputs nft_offers_init (nft_offers_kSpec Clio xl) \<subseteq>
     {i. 50 \<le> no_limit i \<and> no_limit i \<le> 500} \<and>
   parsed_inputs nfts_by_issuer_init (nfts_by_issuer_kSpec srv xl) \<subseteq>
     {i. 1 \<le> nbi_limit i \<and> nbi_limit i \<le> 100} \<and>
   parsed_inputs noripple_check_init (noripple_check_kSpec srv xl) \<subseteq>
     {i. 1 \<le> nc_limit i \<and> nc_limit i \<le> 500} \<and>
   parsed_inputs account_tx_init (account_tx_kSpec srv xl) \<subseteq>
     {i. pred_option (\<lambda>n. 1 \<le> n \<and> n \<le> 1000) (atx_limit i)} \<and>
   parsed_inputs mpt_holders_init (mpt_holders_kSpec srv xl) \<subseteq>
     {i. pred_option (\<lambda>n. 1 \<le> n \<and> n \<le> 100) (mh_limit i)} \<and>
   parsed_inputs mptoken_issuance_history_init (mptoken_issuance_history_kSpec srv xl) \<subseteq>
     {i. pred_option (\<lambda>n. 1 \<le> n \<and> n \<le> 100) (mih_limit i)} \<and>
   parsed_inputs nft_history_init (nft_history_kSpec srv xl) \<subseteq>
     {i. pred_option (\<lambda>n. 1 \<le> n \<and> n \<le> 100) (nh_limit i)} \<and>
   parsed_inputs ledger_data_init (ledger_data_kSpec srv xl) \<subseteq>
     {i. pred_option (\<lambda>n. 1 \<le> n) (ldd_limit i)}"
  apply (intro conjI)
  apply (rule parsed_inputs_sets [where k = "''limit''"]; simp add: account_channels_specs account_currencies_specs account_lines_specs
      account_mptoken_issuances_specs account_mptokens_specs account_nfts_specs
      account_objects_specs account_offers_specs book_offers_specs nft_offers_specs
      nfts_by_issuer_specs noripple_check_specs limit_field; fail)+
  apply (rule parsed_inputs_keeps; simp add: account_tx_specs account_tx_init_def mpt_holders_specs
      mpt_holders_init_def mptoken_issuance_history_specs mptoken_issuance_history_init_def
      nft_history_specs nft_history_init_def ledger_data_specs ledger_data_init_def
      optional_limit_keeps floor_limit_keeps; fail)+
  done

text \<open>
  C12: on Clio no request makes a handler serve the current or the closed ledger: in every Input that a
  handler with a ledger can produce, the ledger is unspecified, the validated one, a hash or a
  sequence.
\<close>

theorem clio_never_current_or_closed:
  "parsed_inputs account_channels_init (account_channels_kSpec Clio xl) \<subseteq>
     {i. clio_ledger (ac_ledger i)} \<and>
   parsed_inputs account_currencies_init (account_currencies_kSpec Clio xl) \<subseteq>
     {i. clio_ledger (acu_ledger i)} \<and>
   parsed_inputs account_info_init (account_info_kSpec Clio xl) \<subseteq>
     {i. clio_ledger (ai_ledger i)} \<and>
   parsed_inputs account_lines_init (account_lines_kSpec Clio xl) \<subseteq>
     {i. clio_ledger (al_ledger i)} \<and>
   parsed_inputs account_mptoken_issuances_init (account_mptoken_issuances_kSpec Clio xl) \<subseteq>
     {i. clio_ledger (ami_ledger i)} \<and>
   parsed_inputs account_mptokens_init (account_mptokens_kSpec Clio xl) \<subseteq>
     {i. clio_ledger (amt_ledger i)} \<and>
   parsed_inputs account_nfts_init (account_nfts_kSpec Clio xl) \<subseteq>
     {i. clio_ledger (an_ledger i)} \<and>
   parsed_inputs account_objects_init (account_objects_kSpec Clio xl) \<subseteq>
     {i. clio_ledger (ao_ledger i)} \<and>
   parsed_inputs account_offers_init (account_offers_kSpec Clio xl) \<subseteq>
     {i. clio_ledger (af_ledger i)} \<and>
   parsed_inputs account_tx_init (account_tx_kSpec Clio xl) \<subseteq>
     {i. clio_ledger (atx_ledger i)} \<and>
   parsed_inputs amm_info_init (amm_info_kSpec Clio xl) \<subseteq>
     {i. clio_ledger (amm_ledger i)} \<and>
   parsed_inputs book_changes_init (book_changes_kSpec Clio xl) \<subseteq>
     {i. clio_ledger (bc_ledger i)} \<and>
   parsed_inputs (book_offers_init xl) (book_offers_kSpec Clio xl) \<subseteq>
     {i. clio_ledger (bo_ledger i)} \<and>
   parsed_inputs deposit_authorized_init (deposit_authorized_kSpec Clio xl) \<subseteq>
     {i. clio_ledger (da_ledger i)} \<and>
   parsed_inputs feature_init (feature_kSpec Clio xl) \<subseteq>
     {i. clio_ledger (ft_ledger i)} \<and>
   parsed_inputs gateway_balances_init (gateway_balances_kSpec Clio xl) \<subseteq>
     {i. clio_ledger (gb_ledger i)} \<and>
   parsed_inputs get_aggregate_price_init (get_aggregate_price_kSpec Clio xl) \<subseteq>
     {i. clio_ledger (gap_ledger i)} \<and>
   parsed_inputs ledger_init (ledger_kSpec Clio xl) \<subseteq>
     {i. clio_ledger (ld_ledger i)} \<and>
   parsed_inputs ledger_data_init (ledger_data_kSpec Clio xl) \<subseteq>
     {i. clio_ledger (ldd_ledger i)} \<and>
   parsed_inputs ledger_entry_init (ledger_entry_kSpec Clio xl) \<subseteq>
     {i. clio_ledger (le_ledger i)} \<and>
   parsed_inputs mpt_holders_init (mpt_holders_kSpec Clio xl) \<subseteq>
     {i. clio_ledger (mh_ledger i)} \<and>
   parsed_inputs mptoken_issuance_history_init (mptoken_issuance_history_kSpec Clio xl) \<subseteq>
     {i. clio_ledger (mih_ledger i)} \<and>
   parsed_inputs nft_history_init (nft_history_kSpec Clio xl) \<subseteq>
     {i. clio_ledger (nh_ledger i)} \<and>
   parsed_inputs nft_info_init (nft_info_kSpec Clio xl) \<subseteq>
     {i. clio_ledger (ni_ledger i)} \<and>
   parsed_inputs nft_offers_init (nft_offers_kSpec Clio xl) \<subseteq>
     {i. clio_ledger (no_ledger i)} \<and>
   parsed_inputs nfts_by_issuer_init (nfts_by_issuer_kSpec Clio xl) \<subseteq>
     {i. clio_ledger (nbi_ledger i)} \<and>
   parsed_inputs noripple_check_init (noripple_check_kSpec Clio xl) \<subseteq>
     {i. clio_ledger (nc_ledger i)} \<and>
   parsed_inputs transaction_entry_init (transaction_entry_kSpec Clio xl) \<subseteq>
     {i. clio_ledger (te_ledger i)} \<and>
   parsed_inputs vault_info_init (vault_info_kSpec Clio xl) \<subseteq>
     {i. clio_ledger (vi_ledger i)}"
  by (intro conjI; rule parsed_inputs_keeps;
      simp add: account_channels_specs account_channels_init_def account_currencies_specs
      account_currencies_init_def account_info_specs account_info_init_def account_lines_specs
      account_lines_init_def account_mptoken_issuances_specs account_mptoken_issuances_init_def
      account_mptokens_specs account_mptokens_init_def account_nfts_specs account_nfts_init_def
      account_objects_specs account_objects_init_def account_offers_specs account_offers_init_def
      account_tx_specs account_tx_init_def amm_info_specs amm_info_init_def book_changes_specs
      book_changes_init_def book_offers_specs book_offers_init_def deposit_authorized_specs
      deposit_authorized_init_def feature_specs feature_init_def gateway_balances_specs
      gateway_balances_init_def get_aggregate_price_specs get_aggregate_price_init_def
      ledger_specs ledger_init_def ledger_data_specs ledger_data_init_def ledger_entry_specs
      ledger_entry_init_def mpt_holders_specs mpt_holders_init_def mptoken_issuance_history_specs
      mptoken_issuance_history_init_def nft_history_specs nft_history_init_def nft_info_specs
      nft_info_init_def nft_offers_specs nft_offers_init_def nfts_by_issuer_specs
      nfts_by_issuer_init_def noripple_check_specs noripple_check_init_def
      transaction_entry_specs transaction_entry_init_def vault_info_specs vault_info_init_def
 ledger_entry_fields_basic_def ledger_entry_fields_objects_def ledger_entry_fields_recent_def)

end
