(* ===== verification/HandlersRequests.thy ===== *)
theory HandlersRequests
  imports HandlersAll
begin

text \<open>
  Whole requests: what a field makes of the value the document has at its key, and from that which
  requests a handler accepts and what Input it makes of them. The fields of a spec have distinct
  keys and read only their own, so each of them sees the document as the client sent it.
\<close>

section \<open>One field\<close>

text \<open>
  The items let the value through as \<open>w\<close>, and the member is what the converter makes of it,
  \<open>None\<close> when the key is absent.
\<close>

definition field_reads :: "'m item list \<Rightarrow> 'm converter \<Rightarrow> field_view \<Rightarrow> field_view \<Rightarrow> 'm option \<Rightarrow> bool" where
  "field_reads its conv v w mo \<longleftrightarrow>
     runProcessors its v = (w, Ret ()) \<and>
     (if present w then \<exists>m. conv w = Ret m \<and> mo = Some m else mo = None)"

definition assigned :: "('m \<Rightarrow> 'i \<Rightarrow> 'i) \<Rightarrow> 'm item list \<Rightarrow> 'm option \<Rightarrow> 'i \<Rightarrow> 'i" where
  "assigned a its mo out =
     (case mo of Some m \<Rightarrow> a m out
      | None \<Rightarrow> fold (\<lambda>it out. case it_default it of Some d \<Rightarrow> a d out | None \<Rightarrow> out) its out)"

text \<open>The document with a field's value written back.\<close>

definition put_back :: "string \<Rightarrow> field_view \<Rightarrow> json \<Rightarrow> json" where
  "put_back k w doc = json_put k (fv_value w) doc"

lemma root_child_put_back [simp]: "k \<noteq> k' \<Longrightarrow> root_child (put_back k w doc) k' = root_child doc k'"
  by (simp add: root_child_def put_back_def)

lemma runProcessors_key:
  "list_all item_ok its \<Longrightarrow> runProcessors its v = (w, r) \<Longrightarrow> fv_key w = fv_key v"
  using processor.keeps_key [OF processor_runProcessors, of its v] by simp

lemma tfield_Ret:
  assumes "list_all item_ok its" and "list_all (\<lambda>it. it_skips it = None) its"
  shows "tf_parse (tfield k n a its conv) doc out = (doc', out', Ret ()) \<longleftrightarrow>
    (\<exists>w mo. field_reads its conv (root_child doc k) w mo \<and> doc' = put_back k w doc \<and>
       out' = assigned a its mo out)"
proof -
  have s: "\<not> skipsField its doc"
    using assms(2) by (auto simp: skipsField_iff list_all_iff)
  obtain w r where w: "runProcessors its (root_child doc k) = (w, r)" by fastforce
  have k: "root_put doc w = put_back k w doc"
    using runProcessors_key [OF assms(1) w] by (simp add: root_put_def put_back_def)
  have d: "fold (applyIfDefault (bfield k n a its conv)) its out = assigned a its None out"
    by (simp add: assigned_def applyIfDefault_def [abs_def] cong: option.case_cong)
  show ?thesis
    using s w d k
    by (auto simp: tfield_def bound_def BoundField_parseInto_def Let_def field_reads_def assigned_def
        split: outcome.splits option.splits)
qed

lemma vfield_Ret:
  "list_all reads_only its \<Longrightarrow> tf_parse (vfield k its) doc out = (doc', out', Ret ()) \<longleftrightarrow>
     doc' = doc \<and> out' = out \<and> list_all (\<lambda>it. passes it (root_child doc k)) its"
  using runProcessors_reads_only [of its "root_child doc k"]
  by (cases "runProcessors its (root_child doc k)")
    (auto simp: vfield_def unbound_def FieldSpec_process_def field_def root_put_def)

definition request_ledger :: "server \<Rightarrow> xrpl_lib \<Rightarrow> json \<Rightarrow> LedgerSpecifier option parsed" where
  "request_ledger srv xl doc =
     (if kIsXrpldBuild srv then omap Some (xrpldLedgerFromRequest xl doc) else clioLedgerFromRequest srv xl doc)"

lemma ledgerSelector_Ret:
  "tf_parse (ledgerSelector srv xl n a) doc out = (doc', out', Ret ()) \<longleftrightarrow>
     doc' = doc \<and> (\<exists>lo. request_ledger srv xl doc = Ret lo \<and>
       out' = (case lo of None \<Rightarrow> out | Some l \<Rightarrow> a l out))"
  by (auto simp: ledgerSelector_def LedgerSelectorField_parseInto_def request_ledger_def omap_eq_Ret
      split: outcome.splits option.splits)

section \<open>All of them\<close>

lemma HandlerFor_single:
  assumes "distinct (map tf_key sp)"
  shows "HandlerFor_parseInput init [sp] doc v = Ret inp \<longleftrightarrow>
    (\<exists>doc'. parse_fields sp doc init = (doc', inp, Ret ()))"
proof -
  have "HandlerFor_parseInput init [sp] doc v = snd (TypedSpec_parse init sp doc)"
    using HandlerFor_select [of "[sp]" init doc v] by simp
  with effective_distinct [OF assms] show ?thesis
    by (auto simp: TypedSpec_parse_fields omap_eq_Ret split: prod.splits)
qed

lemma parse_fields_Ret:
  "parse_fields (f # fs) doc out = (doc'', out'', Ret ()) \<longleftrightarrow>
     (\<exists>doc' out'. tf_parse f doc out = (doc', out', Ret ()) \<and>
        parse_fields fs doc' out' = (doc'', out'', Ret ()))"
  by (cases "tf_parse f doc out") auto

text \<open>
  A field acts as a relation between the value at its key and the Inputs before and after: it
  succeeds exactly with the Inputs the relation allows, and leaves the other keys alone.
\<close>

definition acts_as :: "'i tfield \<Rightarrow> string \<times> (field_view \<Rightarrow> 'i \<Rightarrow> 'i \<Rightarrow> bool) \<Rightarrow> bool" where
  "acts_as f kR =
     ((\<forall>doc out doc' out'. tf_parse f doc out = (doc', out', Ret ()) \<longrightarrow>
        snd kR (root_child doc (fst kR)) out out' \<and>
        (\<forall>k. k \<noteq> fst kR \<longrightarrow> root_child doc' k = root_child doc k)) \<and>
      (\<forall>doc out out'. snd kR (root_child doc (fst kR)) out out' \<longrightarrow>
        (\<exists>doc'. tf_parse f doc out = (doc', out', Ret ()))))"

fun run_relations :: "(string \<times> (field_view \<Rightarrow> 'i \<Rightarrow> 'i \<Rightarrow> bool)) list \<Rightarrow> json \<Rightarrow> 'i \<Rightarrow> 'i \<Rightarrow> bool" where
  "run_relations [] doc out out' = (out' = out)"
| "run_relations ((k, R) # rs) doc out out' =
     (\<exists>o'. R (root_child doc k) out o' \<and> run_relations rs doc o' out')"

lemma run_relations_cong:
  "\<forall>k \<in> fst ` set rs. root_child doc' k = root_child doc k \<Longrightarrow>
     run_relations rs doc' out out' = run_relations rs doc out out'"
  by (induction rs arbitrary: out) auto

lemma parse_fields_acts:
  assumes "list_all2 acts_as fs rs" and "distinct (map fst rs)"
  shows "(\<exists>doc'. parse_fields fs doc out = (doc', out', Ret ())) \<longleftrightarrow> run_relations rs doc out out'"
  using assms
proof (induction arbitrary: doc out rule: list_all2_induct)
  case (Cons f fs kR rs)
  obtain k R where kR: "kR = (k, R)" by fastforce
  have later: "(\<exists>d. parse_fields fs doc' o' = (d, out', Ret ())) \<longleftrightarrow> run_relations rs doc o' out'"
    if "\<forall>k'. k' \<noteq> k \<longrightarrow> root_child doc' k' = root_child doc k'" for doc' o'
  proof -
    have "\<forall>k' \<in> fst ` set rs. root_child doc' k' = root_child doc k'"
      using that Cons.prems kR by auto
    from run_relations_cong [OF this] show ?thesis using Cons kR by simp
  qed
  have "(\<exists>d. parse_fields (f # fs) doc out = (d, out', Ret ())) \<longleftrightarrow>
      (\<exists>doc' o'. tf_parse f doc out = (doc', o', Ret ()) \<and> (\<exists>d. parse_fields fs doc' o' = (d, out', Ret ())))"
    by (auto simp: parse_fields_Ret simp del: parse_fields.simps)
  also have "\<dots> \<longleftrightarrow> (\<exists>doc' o'. tf_parse f doc out = (doc', o', Ret ()) \<and> run_relations rs doc o' out')"
    using Cons.hyps(1) kR later unfolding acts_as_def by (metis fst_conv)
  also have "\<dots> \<longleftrightarrow> (\<exists>o'. R (root_child doc k) out o' \<and> run_relations rs doc o' out')"
    using Cons.hyps(1) kR unfolding acts_as_def by fastforce
  finally show ?case using kR by simp
qed auto

lemma acts_tfield:
  assumes "list_all item_ok its" and "list_all (\<lambda>it. it_skips it = None) its"
    and "\<And>doc out out'. (\<exists>w mo. field_reads its conv (root_child doc k) w mo \<and> out' = assigned a its mo out) \<longleftrightarrow>
      R (root_child doc k) out out'"
  shows "acts_as (tfield k n a its conv) (k, R)"
  unfolding acts_as_def tfield_Ret [OF assms(1,2)] fst_conv snd_conv assms(3) [symmetric]
  by auto

text \<open>The relations of a field that only reads, and of one that binds nothing.\<close>

definition reading ::
    "('m \<Rightarrow> 'i \<Rightarrow> 'i) \<Rightarrow> 'm item list \<Rightarrow> 'm converter \<Rightarrow> field_view \<Rightarrow> 'i \<Rightarrow> 'i \<Rightarrow> bool" where
  "reading a its conv v out out' \<longleftrightarrow>
     list_all (\<lambda>it. passes it v) its \<and>
     (if present v then \<exists>m. conv v = Ret m \<and> out' = a m out else out' = out)"

lemma acts_reading:
  assumes "list_all reads_only its" and "list_all item_ok its" and "list_all (\<lambda>it. it_skips it = None) its"
    and "list_all (\<lambda>it. it_default it = None) its"
  shows "acts_as (tfield k n a its conv) (k, reading a its conv)"
proof (rule acts_tfield [OF assms(2,3)])
  fix doc out out'
  have "assigned a its None out = out"
    using assms(4) by (induction its) (simp_all add: assigned_def)
  then show "(\<exists>w mo. field_reads its conv (root_child doc k) w mo \<and> out' = assigned a its mo out) \<longleftrightarrow>
      reading a its conv (root_child doc k) out out'"
    by (auto simp: field_reads_def reading_def runProcessors_reads_only_eq [OF assms(1)] assigned_def)
qed

definition ignoring :: "unit item list \<Rightarrow> field_view \<Rightarrow> 'i \<Rightarrow> 'i \<Rightarrow> bool" where
  "ignoring its v out out' \<longleftrightarrow> list_all (\<lambda>it. passes it v) its \<and> out' = out"

lemma acts_vfield: "list_all reads_only its \<Longrightarrow> acts_as (vfield k its) (k, ignoring its)"
  by (auto simp: acts_as_def vfield_Ret ignoring_def)

text \<open>A handler of one version whose first field is the ledger selector.\<close>

lemma HandlerFor_relations:
  assumes "list_all2 acts_as fs rs" and "distinct (map fst rs)"
    and "distinct (map tf_key (ledgerSelector srv xl n a # fs))"
  shows "HandlerFor_parseInput init [ledgerSelector srv xl n a # fs] doc v = Ret inp \<longleftrightarrow>
    (\<exists>lo. request_ledger srv xl doc = Ret lo \<and>
       run_relations rs doc (case lo of None \<Rightarrow> init | Some l \<Rightarrow> a l init) inp)"
  unfolding HandlerFor_single [OF assms(3)] parse_fields_Ret ledgerSelector_Ret
    parse_fields_acts [OF assms(1,2), symmetric]
  by blast

section \<open>The items of a page\<close>

lemma required_reads [simp]:
  "field_reads [required srv] conv v w mo \<longleftrightarrow> w = v \<and> present v \<and> (\<exists>m. conv v = Ret m \<and> mo = Some m)"
  by (auto simp: field_reads_def runProcessors_reads_only_eq required.passes_iff
      simp del: runProcessors.simps(2))

lemma uint32_field: "isUint32 v \<longleftrightarrow> (\<exists>u. number_of TUint32 v = Some (NUint32 u))"
proof -
  have "numericValue TUint32 v = Ret (number_of TUint32 v)" by (rule numericValue_eq)
  then show ?thesis
    using asUint32_isUint32 [of v] by (auto simp: numericValue_def split: if_splits dest: sym)
qed

lemma asUint32_conv_of: "number_of TUint32 v = Some (NUint32 u) \<Longrightarrow> asUint32_conv v = Ret u"
  using uint32_field [of v] numericValue_eq [of TUint32 v]
  by (auto simp: Uint32Converter_parse_def numericValue_def omap_eq_Ret split: if_splits)

text \<open>Type, lower bound, clamp, default: the limit of a page on both servers.\<close>

lemma clamp_number:
  assumes "number_of TUint32 v = Some (NUint32 u)" and "fv_writable v" and "lo \<le> hi"
  shows "\<exists>w. Clamp_modify (NUint32 lo) (NUint32 hi) v = (w, Ret ()) \<and> present w \<and>
    asUint32_conv w = Ret (max lo (min hi u))"
proof -
  have c: "std_clamp (NUint32 u) (NUint32 lo) (NUint32 hi) = NUint32 (max lo (min hi u))"
    using assms(3) by (auto simp: std_clamp_def)
  have p: "present v" using number_of_present [OF assms(1)] .
  obtain w where w: "set_num (NUint32 (max lo (min hi u))) v = (w, Ret ())"
    using set_num_ok [OF assms(2) p, of "NUint32 (max lo (min hi u))"] by auto
  then have "number_of TUint32 w = Some (NUint32 (max lo (min hi u)))"
    using number_of_set_num [OF assms(2) p, of "NUint32 (max lo (min hi u))"] by simp
  with w assms(1) c show ?thesis
    by (simp add: Clamp_modify_def numericValue_eq asUint32_conv_of number_of_present)
qed

lemma uniformLimit_reads:
  assumes "fv_writable v" and "lo \<le> hi"
  shows "(\<exists>w. field_reads (uniformLimit lo hi d) asUint32_conv v w mo) \<longleftrightarrow>
    (case mo of
       None \<Rightarrow> \<not> present v
     | Some n \<Rightarrow> \<exists>u. number_of TUint32 v = Some (NUint32 u) \<and> 1 \<le> u \<and> n = max lo (min hi u))"
proof (cases "present v")
  case False
  then show ?thesis
    using clamp.absent_skips [OF False] type_of.absent_passes [OF False] min_of.absent_passes [OF False]
    by (auto simp: field_reads_def uniformLimit_def number_of_absent split: option.splits)
next
  case p: True
  show ?thesis
  proof (cases "isUint32 v")
    case False
    with p show ?thesis
      by (auto simp: field_reads_def uniformLimit_def type_of.passes_iff uint32_field sbind_eq_Ret
          split: option.splits)
  next
    case True
    then obtain u where u: "number_of TUint32 v = Some (NUint32 u)" by (auto simp: uint32_field)
    obtain w where w: "Clamp_modify (NUint32 lo) (NUint32 hi) v = (w, Ret ())" "present w"
      "asUint32_conv w = Ret (max lo (min hi u))"
      using clamp_number [OF u assms] by blast
    have "1 \<le> u \<longleftrightarrow> real_of_int (uint (1 :: uint32)) \<le> real_of_int (uint u)"
      by (simp add: word_le_def del: of_int_uint)
    then have "Min_verify (NUint32 1) v = Ret () \<longleftrightarrow> 1 \<le> u"
      using u by (simp add: min_of.passes_iff del: of_int_uint)
    with u w p True show ?thesis
      by (auto simp: field_reads_def uniformLimit_def sbind_eq_Ret type_of.passes_iff split: option.splits)
  qed
qed

text \<open>The limit of the Input: the default, or the number sent, at least one, moved into the range.\<close>

definition page_limit :: "uint32 \<Rightarrow> uint32 \<Rightarrow> uint32 \<Rightarrow> field_view \<Rightarrow> uint32 \<Rightarrow> bool" where
  "page_limit lo hi d v n \<longleftrightarrow>
     (if present v
      then \<exists>u. number_of TUint32 v = Some (NUint32 u) \<and> 1 \<le> u \<and> n = max lo (min hi u)
      else n = d)"

definition paging ::
    "uint32 \<Rightarrow> uint32 \<Rightarrow> uint32 \<Rightarrow> (uint32 \<Rightarrow> 'i \<Rightarrow> 'i) \<Rightarrow> field_view \<Rightarrow> 'i \<Rightarrow> 'i \<Rightarrow> bool" where
  "paging lo hi d a v out out' \<longleftrightarrow> (\<exists>u. page_limit lo hi d v u \<and> out' = a u out)"

lemma acts_uniformLimit:
  assumes "lo \<le> hi"
  shows "acts_as (tfield k n a (uniformLimit lo hi d) asUint32_conv)
    (k, paging lo hi d a)"
proof (rule acts_tfield)
  fix doc out out'
  let ?v = "root_child doc k"
  have asg: "assigned a (uniformLimit lo hi d) mo out = a (case mo of Some n \<Rightarrow> n | None \<Rightarrow> d) out" for mo
    by (cases mo) (simp_all add: assigned_def uniformLimit_def)
  have "(\<exists>w. field_reads (uniformLimit lo hi d) asUint32_conv ?v w mo) \<longleftrightarrow>
      page_limit lo hi d ?v (case mo of Some n \<Rightarrow> n | None \<Rightarrow> d) \<and> (mo = None \<longleftrightarrow> \<not> present ?v)" for mo
    unfolding uniformLimit_reads [OF root_child_simps(3) assms] page_limit_def
    by (cases mo) (auto dest: number_of_present)
  note reads = this
  show "(\<exists>w mo. field_reads (uniformLimit lo hi d) asUint32_conv ?v w mo \<and>
      out' = assigned a (uniformLimit lo hi d) mo out) \<longleftrightarrow> paging lo hi d a ?v out out'"
    (is "?l \<longleftrightarrow> ?r")
  proof
    assume ?l
    then show ?r using reads unfolding asg paging_def by blast
  next
    assume ?r
    then obtain u where u: "page_limit lo hi d ?v u" "out' = a u out" by (auto simp: paging_def)
    define mo where "mo = (if present ?v then Some u else None)"
    have "(case mo of Some n \<Rightarrow> n | None \<Rightarrow> d) = u" "mo = None \<longleftrightarrow> \<not> present ?v"
      using u by (auto simp: mo_def page_limit_def)
    with u reads [of mo] show ?l unfolding asg by metis
  qed
qed (simp_all add: uniformLimit_def)

lemma reading_account:
  "reading a [required srv] (accountIdActMalformed xl) (root_child doc k) out out' \<longleftrightarrow>
     (\<exists>s i. json_get doc k = Some (JString s) \<and> accountFromStringStrict xl s = Some i \<and> out' = a i out)"
  by (auto simp: reading_def AccountIdActMalformedConverter_parse_def Let_def isString_value present_def
      required.passes_iff split: option.splits)

lemma reading_cursor:
  "reading a [accountMarker srv xl] asString_conv (root_child doc k) out out' \<longleftrightarrow>
     (case json_get doc k of
        None \<Rightarrow> out' = out
      | Some j \<Rightarrow> \<exists>t. j = JString t \<and> is_cursor xl t \<and> out' = a t out)"
  by (auto simp: reading_def account_marker.passes_iff string_field_def StringConverter_parse_def
      isString_value present_def split: option.split)

lemma ex_assigned: "(\<exists>o'. (\<exists>u. P u \<and> o' = f u) \<and> Q o') \<longleftrightarrow> (\<exists>u. P u \<and> Q (f u))"
  by blast

lemma ignoring_deprecated [simp]: "ignoring [deprecated srv] v out out' \<longleftrightarrow> out' = out"
  by (simp add: ignoring_def)

section \<open>Properties\<close>

text \<open>
  C10: which requests \<^verbatim>\<open>account_mptokens\<close> accepts, and the Input it makes of each: the ledger the
  selector reads, a text account in base58 or as a public key, the limit, moved into the range of 10
  to 400 and 200 if there is none, and a cursor if there is one. Nothing else in the request matters.
\<close>

theorem account_mptokens_accepts:
  "HandlerFor_parseInput account_mptokens_init (account_mptokens_kSpec srv xl) doc v = Ret inp \<longleftrightarrow>
     (\<exists>lo s a n marker.
        request_ledger srv xl doc = Ret lo \<and>
        json_get doc ''account'' = Some (JString s) \<and> accountFromStringStrict xl s = Some a \<and>
        page_limit 10 400 200 (root_child doc ''limit'') n \<and>
        (case json_get doc ''marker'' of
           None \<Rightarrow> marker = None
         | Some j \<Rightarrow> \<exists>t. j = JString t \<and> is_cursor xl t \<and> marker = Some t) \<and>
        inp = \<lparr>amt_ledger = (case lo of None \<Rightarrow> Unspecified | Some l \<Rightarrow> l), amt_account = a,
               amt_limit = n, amt_marker = marker\<rparr>)"
  (is "_ \<longleftrightarrow> ?R")
proof -
  let ?rs = "[(''account'', reading (\<lambda>m i. i\<lparr>amt_account := m\<rparr>) [required srv] (accountIdActMalformed xl)),
     (''limit'', paging 10 400 200 (\<lambda>m i. i\<lparr>amt_limit := m\<rparr>)),
     (''marker'', reading (\<lambda>m i. i\<lparr>amt_marker := Some m\<rparr>) [accountMarker srv xl] asString_conv),
     (''ledger'', ignoring [deprecated srv])] ::
     (string \<times> (field_view \<Rightarrow> account_mptokens_Input \<Rightarrow> account_mptokens_Input \<Rightarrow> bool)) list"
  have "HandlerFor_parseInput account_mptokens_init (account_mptokens_kSpec srv xl) doc v = Ret inp \<longleftrightarrow>
      (\<exists>lo. request_ledger srv xl doc = Ret lo \<and> run_relations ?rs doc
         (case lo of None \<Rightarrow> account_mptokens_init | Some l \<Rightarrow> account_mptokens_init\<lparr>amt_ledger := l\<rparr>) inp)"
    unfolding account_mptokens_specs
    by (intro HandlerFor_relations)
      (simp_all add: list_all2_Cons acts_uniformLimit acts_vfield acts_reading)
  also have "\<dots> \<longleftrightarrow> ?R"
  proof -
    have "run_relations ?rs doc (case lo of None \<Rightarrow> account_mptokens_init | Some l \<Rightarrow> account_mptokens_init\<lparr>amt_ledger := l\<rparr>) inp \<longleftrightarrow>
       (\<exists>s a n marker.
          json_get doc ''account'' = Some (JString s) \<and> accountFromStringStrict xl s = Some a \<and>
          page_limit 10 400 200 (root_child doc ''limit'') n \<and>
          (case json_get doc ''marker'' of
             None \<Rightarrow> marker = None
           | Some j \<Rightarrow> \<exists>t. j = JString t \<and> is_cursor xl t \<and> marker = Some t) \<and>
          inp = \<lparr>amt_ledger = (case lo of None \<Rightarrow> Unspecified | Some l \<Rightarrow> l), amt_account = a,
                 amt_limit = n, amt_marker = marker\<rparr>)" for lo
      by (cases lo; cases "json_get doc ''marker''")
        (auto simp: reading_account reading_cursor paging_def ex_assigned account_mptokens_init_def)
    then show ?thesis by simp
  qed
  finally show ?thesis .
qed

section \<open>Streams\<close>

text \<open>The name of each stream, and the streams a server serves.\<close>

primrec stream_name :: "StreamType \<Rightarrow> string" where
  "stream_name LedgerStream = ''ledger''"
| "stream_name Transactions = ''transactions''"
| "stream_name TransactionsProposed = ''transactions_proposed''"
| "stream_name BookChanges = ''book_changes''"
| "stream_name Manifests = ''manifests''"
| "stream_name Validations = ''validations''"
| "stream_name ServerStream = ''server''"
| "stream_name PeerStatus = ''peer_status''"
| "stream_name Consensus = ''consensus''"

definition serves :: "server \<Rightarrow> StreamType \<Rightarrow> bool" where
  "serves srv t \<longleftrightarrow> (srv = Clio \<longrightarrow> t \<notin> {ServerStream, PeerStatus, Consensus})"

lemma stream_of_name [simp]: "stream_of (stream_name t) = t"
  by (cases t) (simp_all add: stream_of_def)

lemma stream_verify_name: "stream_verify srv (stream_name t) = Ret () \<longleftrightarrow> serves srv t"
  by (cases t) (simp_all add: stream_verify_def serves_def kCommon_def kNotSupported_def kRippledExtra_def)

lemma streams_verify_array:
  "StreamsValidator_verify srv \<lparr>fv_key = k, fv_value = Some (JArray xs), fv_writable = b\<rparr> = Ret () \<longleftrightarrow>
     list_all (string_json (\<lambda>s. stream_verify srv s = Ret ())) xs"
proof -
  let ?v = "\<lparr>fv_key = k, fv_value = Some (JArray xs), fv_writable = b\<rparr>"
  have one: "(let elem = element ?v i
      in if \<not> isString elem then Fail (status_msg (XrpldErr RpcInvalidParams) ''streamNotString'')
         else obind (asString elem) (stream_verify srv)) = Ret () \<longleftrightarrow>
      string_json (\<lambda>s. stream_verify srv s = Ret ()) (xs ! i)" if "i < length xs" for i
    using that by (cases "xs ! i") (simp_all add: element_def isString_def asString_def string_json_def)
  have v: "present ?v" "isArray ?v" "arraySize ?v = length xs"
    by (simp_all add: present_def isArray_def arraySize_def)
  show ?thesis
    unfolding StreamsValidator_verify_def for_each_Ret list_all_length v
    using one v by (simp add: for_each_Ret Let_def Ball_def)
qed

text \<open>
  C16: subscribing to streams by their names: the list of names of any streams the server serves, in any
  order and with repetitions, passes the validator and is converted to those streams.
\<close>

theorem streams_round_trip:
  assumes "list_all (serves srv) ts"
  shows "StreamsValidator_verify srv
      \<lparr>fv_key = k, fv_value = Some (JArray (map (JString \<circ> stream_name) ts)), fv_writable = b\<rparr> = Ret () \<and>
    StreamVecConverter_parse
      \<lparr>fv_key = k, fv_value = Some (JArray (map (JString \<circ> stream_name) ts)), fv_writable = b\<rparr> = Ret (Some ts)"
proof -
  let ?v = "\<lparr>fv_key = k, fv_value = Some (JArray (map (JString \<circ> stream_name) ts)), fv_writable = b\<rparr>"
  have "push_all (\<lambda>i. omap stream_of (asString (element ?v i))) [0..<length ts] [] =
      Ret ([] @ map (\<lambda>i. ts ! i) [0..<length ts])"
    by (rule push_all_Ret) (simp add: element_def asString_def)
  then have "StreamVecConverter_parse ?v = Ret (Some ts)"
    by (simp add: StreamVecConverter_parse_def arraySize_def map_nth)
  moreover have "StreamsValidator_verify srv ?v = Ret ()"
    using assms unfolding streams_verify_array
    by (simp add: list_all_iff string_json_def stream_verify_name)
  ultimately show ?thesis by simp
qed

theorem streams_round_trip_witness:
  "StreamVecConverter_parse
      \<lparr>fv_key = ''streams'', fv_value = Some (JArray [JString ''validations'', JString ''ledger'']),
       fv_writable = True\<rparr> = Ret (Some [Validations, LedgerStream])"
  using streams_round_trip [of Clio "[Validations, LedgerStream]" "''streams''" True]
  by (simp add: serves_def)

section \<open>Books\<close>

definition sample_books :: field_view where
  "sample_books = \<lparr>fv_key = ''books'', fv_value = Some (JArray [JObject
     [(''taker_pays'', JObject [(''currency'', JString ''XRP'')]),
      (''taker_gets'', JObject [(''currency'', JString ''USD''), (''issuer'', JString ''rIssuer'')])]]),
     fv_writable = True\<rparr>"

definition sample_market_lib :: xrpl_lib where
  "sample_market_lib =
     sample_lib\<lparr>xl_toCurrency := \<lambda>s. Some (if s = ''XRP'' then 0 else 5), xl_toIssuer := \<lambda>s. Some 7\<rparr>"

lemma sample_book:
  "isObject (element sample_books 0)" "isObject (child (element sample_books 0) ''taker_pays'')"
  "isObject (child (element sample_books 0) ''taker_gets'')"
  "\<not> present (child (element sample_books 0) ''both'')" "\<not> present (child (element sample_books 0) ''snapshot'')"
  "\<not> present (child (element sample_books 0) ''taker'')" "\<not> present (child (element sample_books 0) ''domain'')"
  "isArray sample_books" "arraySize sample_books = 1"
  by (simp_all add: sample_books_def element_def child_def view_kind_defs)

lemma sample_sides:
  "denotes_side sample_market_lib (child (element sample_books 0) ''taker_pays'') i \<longleftrightarrow> i = Issue 0 0"
  "denotes_side sample_market_lib (child (element sample_books 0) ''taker_gets'') i \<longleftrightarrow> i = Issue 5 7"
  by (auto simp: denotes_side_def sample_books_def element_def child_def present_def sample_market_lib_def
      sample_lib_def)

text \<open>
  C14: the language of one order book of a subscription: an object with optional flags and taker, whose
  two sides denote different issues and whose domain, if any, is a 256-bit hex text.
\<close>

theorem book_accepts:
  "book_verify xl sn key b = Ret () \<longleftrightarrow>
     isObject b \<and> (present (child b ''both'') \<longrightarrow> isBool (child b ''both'')) \<and>
     (sn \<longrightarrow> (present (child b ''snapshot'') \<longrightarrow> isBool (child b ''snapshot'')) \<and>
       (present (child b ''taker'') \<longrightarrow>
          (\<exists>s. fv_value (child b ''taker'') = Some (JString s) \<and> is_account xl s))) \<and>
     isObject (child b ''taker_pays'') \<and> isObject (child b ''taker_gets'') \<and>
     (\<exists>pays gets. denotes_side xl (child b ''taker_pays'') pays \<and>
        denotes_side xl (child b ''taker_gets'') gets \<and> pays \<noteq> gets) \<and>
     (present (child b ''domain'') \<longrightarrow>
        (\<exists>s. fv_value (child b ''domain'') = Some (JString s) \<and> xl_parseHex256 xl s \<noteq> None))"
  by (simp add: book_verify_Ret book_market_Ret)

theorem book_accepts_witness:
  "book_verify sample_market_lib True ''books'' (element sample_books 0) = Ret ()"
  unfolding book_accepts sample_sides using sample_book by simp

text \<open>
  C13: the order books the validator passed are converted, without an exception, one for one and in
  their order, into the markets their sides denote.
\<close>

theorem books_converted:
  assumes "hex_without_nul xl" and "books_verify xl sn v = Ret ()"
  shows "\<exists>obs. BooksConverter_parse xl sn v = Ret (Some obs) \<and> length obs = arraySize v \<and>
    (\<forall>i < arraySize v. \<exists>pays gets.
       ob_book (obs ! i) = Book pays gets (book_domain xl (element v i)) \<and>
       denotes_side xl (child (element v i) ''taker_pays'') pays \<and>
       denotes_side xl (child (element v i) ''taker_gets'') gets \<and> pays \<noteq> gets)"
proof -
  have ok: "book_verify xl sn (fv_key v) (element v i) = Ret ()" if "i < arraySize v" for i
    using assms(2) that by (auto simp: books_verify_def for_each_Ret split: if_splits)
  define g where "g i = (case book_of xl sn (element v i) of Ret ob \<Rightarrow> ob)" for i
  have g: "book_of xl sn (element v i) = Ret (g i)"
    "\<exists>pays gets. ob_book (g i) = Book pays gets (book_domain xl (element v i)) \<and>
       denotes_side xl (child (element v i) ''taker_pays'') pays \<and>
       denotes_side xl (child (element v i) ''taker_gets'') gets \<and> pays \<noteq> gets"
    if "i < arraySize v" for i
    using book_of_verified [OF assms(1) ok [OF that]] by (auto simp: g_def)
  then have "push_all (\<lambda>i. book_of xl sn (element v i)) [0..<arraySize v] [] =
      Ret ([] @ map g [0..<arraySize v])"
    by (intro push_all_Ret) simp
  with g(2) show ?thesis
    by (intro exI [of _ "map g [0..<arraySize v]"]) (simp add: BooksConverter_parse_def)
qed

theorem books_converted_witness:
  "\<exists>ob. BooksConverter_parse sample_market_lib True sample_books = Ret (Some [ob]) \<and>
      ob_book ob = Book (Issue 0 0) (Issue 5 7) None"
proof -
  have h: "hex_without_nul sample_market_lib"
    using sample_hex by (simp add: hex_without_nul_def sample_market_lib_def)
  have "book_verify sample_market_lib True k (element sample_books 0) = Ret ()" for k
    unfolding book_verify_Ret book_market_Ret sample_sides using sample_book by simp
  then have "books_verify sample_market_lib True sample_books = Ret ()"
    using sample_book by (simp add: books_verify_def)
  from books_converted [OF h this] show ?thesis
    using sample_book by (auto simp: length_Suc_conv book_domain_def present_def sample_sides)
qed

section \<open>Ledger bounds of account_tx\<close>

text \<open>
  A ledger bound of \<^verbatim>\<open>account_tx\<close> is any 64-bit integer, moved to the nearest 32-bit one; minus one, and
  nothing else, stands for no bound.
\<close>

theorem int32_bound_accepts:
  "(\<exists>w. field_reads [type TInt64, clampAs I32] Int32BoundConverter_parse (root_child doc k) w mo) \<longleftrightarrow>
     (case json_get doc k of
        None \<Rightarrow> mo = None
      | Some j \<Rightarrow> \<exists>n. isInt64 (root_child doc k) \<and> int_value (root_child doc k) = Some n \<and>
          (let c = max (- (2 ^ 31)) (min (2 ^ 31 - 1) n)
           in mo = Some (if c = - 1 then None else Some (word_of_int c))))"
proof -
  let ?v = "root_child doc k"
  show ?thesis
  proof (cases "isInt64 ?v")
    case False
    then show ?thesis
      using ClampAs_skips [OF False, of I32]
      by (auto simp: field_reads_def type_of.passes_iff present_def sbind_eq_Ret split: option.splits)
  next
    case True
    then obtain n where n: "int_value ?v = Some n" using asInt64_isInt64 by blast
    define c where "c = max (- (2 ^ 31)) (min (2 ^ 31 - 1) n)"
    obtain w where w: "ClampAs_modify I32 ?v = (w, Ret ())" "int_value w = Some c"
      using ClampAs_value [of I32 ?v n] True n
      by (cases "ClampAs_modify I32 ?v") (auto simp: c_def)
    have p: "present ?v" using True by simp
    have "runProcessors [type TInt64, clampAs I32] ?v = (w, Ret ())"
      using w True p by (simp add: type_of.passes_iff)
    moreover have "present w"
      using clamp_as.keeps_presence [of I32 ?v] w p by simp
    ultimately have k: "isInt64 w" "present w"
      using int64_after_items by (auto simp: establishes_def)
    then obtain i where i: "asInt64 w = Ret i" "sint i = c"
      using asInt64_isInt64 [OF k(1)] w by auto
    have u: "ucast i = (word_of_int c :: int32)"
    proof -
      have "i = word_of_int c" unfolding i(2) [symmetric] by simp
      then show ?thesis by (simp add: ucast_down_wi is_down)
    qed
    have "- (2 ^ 31) \<le> c" "c < 2 ^ 31" by (simp_all add: c_def)
    then have "sint (word_of_int c :: int32) = c"
      by (simp add: signed_of_int signed_take_bit_int_eq_self)
    with u have conv: "Int32BoundConverter_parse w = Ret (if c = - 1 then None else Some (word_of_int c))"
      using i by (simp add: Int32BoundConverter_parse_def Let_def)
    have "field_reads [type TInt64, clampAs I32] Int32BoundConverter_parse ?v w' mo \<longleftrightarrow>
        w' = w \<and> mo = Some (if c = - 1 then None else Some (word_of_int c))" for w'
      using True w conv k p by (auto simp: field_reads_def type_of.passes_iff sbind_eq_Ret)
    with True n show ?thesis
      by (auto simp: c_def Let_def isInt64_def split: option.splits)
  qed
qed

section \<open>Locators of ledger_entry\<close>

lemma reads_passing:
  assumes "list_all reads_only its"
  shows "(\<exists>w. field_reads its conv v w mo) \<longleftrightarrow>
    list_all (\<lambda>it. passes it v) its \<and> (if present v then \<exists>m. conv v = Ret m \<and> mo = Some m else mo = None)"
  by (auto simp: field_reads_def runProcessors_reads_only_eq [OF assms])

text \<open>
  C15: the locator of an offer is its key as a 256-bit hex text, or an object with the base58 account and
  the sequence number; every other value is rejected, and both forms are read without an exception.
\<close>

theorem offer_locator_accepts:
  "(\<exists>w. field_reads (plain_locator srv xl
        [field ''account'' [required srv, accountBase58 srv xl],
         field ''seq'' [required srv, kMalformedRequestIntValidator srv]]) (OfferConverter_parse xl) v w mo) \<longleftrightarrow>
   (case fv_value v of
      None \<Rightarrow> mo = None
    | Some (JString s) \<Rightarrow> \<exists>h. xl_parseHex256 xl (c_str s) = Some h \<and> mo = Some (Inl h)
    | Some (JObject ms) \<Rightarrow>
        \<exists>s a n. map_of ms ''account'' = Some (JString s) \<and> is_base58_account xl s \<and>
          accountFromStringStrict xl s = Some a \<and>
          number_of TUint32 (child v ''seq'') = Some (NUint32 n) \<and> mo = Some (Inr (OfferEntry a n))
    | _ \<Rightarrow> False)"
proof -
  let ?sub = "[field ''account'' [required srv, accountBase58 srv xl],
      field ''seq'' [required srv, kMalformedRequestIntValidator srv]]"
  have ro: "list_all reads_only (plain_locator srv xl ?sub :: OfferEntry locator item list)"
    by (simp add: plain_locator_def either_items_def kMalformedRequestHexStringValidator_def
        kMalformedRequestIntValidator_def)
  note verdict = plain_locator_def either_items_def type_any.passes_iff
    kMalformedRequestHexStringValidator_def Uint256HexString_verify_def hex_string.passes_iff
    kMalformedRequestIntValidator_def required.passes_iff account_base58.passes_iff type_of.passes_iff
  show ?thesis
  proof (cases "fv_value v")
    case None
    then show ?thesis
      unfolding reads_passing [OF ro] by (simp add: verdict view_kind_defs)
  next
    case (Some j)
    then have p: "present v" by (simp add: present_def)
    consider s where "j = JString s" | ms where "j = JObject ms"
      | (other) "\<not> isString v" "\<not> isObject v" using Some by (cases j) (auto simp: view_kind_defs)
    then show ?thesis
    proof cases
      case (1 s)
      with Some p show ?thesis
        unfolding reads_passing [OF ro]
        by (auto simp: verdict view_kind_defs string_field_def is_hex_def OfferConverter_parse_def locator_def
            string_as_def asString_def validated_defs split: option.split)
    next
      case (2 ms)
      then have "isObject v" "\<not> isString v" using Some by (simp_all add: view_kind_defs)
      have c: "fv_value (child v ''account'') = map_of ms ''account''"
        using Some 2 by (simp add: child_def)
      have acc: "present (child v ''account'') \<and> string_field (is_base58_account xl) (child v ''account'') \<longleftrightarrow>
          (\<exists>s. map_of ms ''account'' = Some (JString s) \<and> is_base58_account xl s)"
        using c by (auto simp: string_field_def present_def)
      have seq: "present (child v ''seq'') \<and> (present (child v ''seq'') \<longrightarrow> isUint32 (child v ''seq'')) \<longleftrightarrow>
          (\<exists>n. number_of TUint32 (child v ''seq'') = Some (NUint32 n))"
        using uint32_field [of "child v ''seq''"] by auto
      have conv: "OfferConverter_parse xl v = Ret (Inr (OfferEntry a n))"
        if "map_of ms ''account'' = Some (JString s)" "accountFromStringStrict xl s = Some a"
          "number_of TUint32 (child v ''seq'') = Some (NUint32 n)" for s a n
        using that c \<open>\<not> isString v\<close> asUint32_conv_of [OF that(3)] uint32_field [of "child v ''seq''"]
        by (auto simp: OfferConverter_parse_def locator_def account_seq_def account_member_def
            uint32_member_def string_as_def asString_def validated_defs Uint32Converter_parse_def)
      have "(present (child v ''account'') \<and> string_field (is_base58_account xl) (child v ''account'') \<and>
          present (child v ''seq'') \<and> (present (child v ''seq'') \<longrightarrow> isUint32 (child v ''seq'')) \<and>
          (\<exists>m. OfferConverter_parse xl v = Ret m \<and> mo = Some m)) \<longleftrightarrow>
        (\<exists>s n. map_of ms ''account'' = Some (JString s) \<and> is_base58_account xl s \<and>
          number_of TUint32 (child v ''seq'') = Some (NUint32 n) \<and>
          (\<exists>m. OfferConverter_parse xl v = Ret m \<and> mo = Some m))"
        using acc seq by blast
      also have "\<dots> \<longleftrightarrow> (\<exists>s a n. map_of ms ''account'' = Some (JString s) \<and> is_base58_account xl s \<and>
          accountFromStringStrict xl s = Some a \<and>
          number_of TUint32 (child v ''seq'') = Some (NUint32 n) \<and> mo = Some (Inr (OfferEntry a n)))"
        using conv base58_account by fastforce
      finally show ?thesis
        unfolding reads_passing [OF ro] using Some p 2 \<open>isObject v\<close> \<open>\<not> isString v\<close>
        by (simp add: verdict)
    next
      case other
      with Some p show ?thesis
        unfolding reads_passing [OF ro] by (auto simp: verdict view_kind_defs split: json.splits)
    qed
  qed
qed

end
