(* ===== verification/RpcDump.thy ===== *)
theory RpcDump
  imports RpcVersioned RpcLedger
begin

text \<open>
  \<^verbatim>\<open>include/rpcspec/SpecDumpWriter.hpp\<close>, \<^verbatim>\<open>SpecDump.hpp\<close>, the \<^verbatim>\<open>describeParams\<close> members of the items and
  the \<^verbatim>\<open>dump\<close> members of the specs: the schema of a spec as indented text. The stream is the text
  written to it so far; a callable passed to the writer is a function on the writer.

  The text is given a meaning by a reader, which rebuilds the blocks from the indentation alone,
  and the theorem of the theory is that the reader gets back what was written: the indentation of
  a dump is never ambiguous and its top level documents exactly the fields that a request is
  parsed with.
\<close>

section \<open>The writer\<close>

definition nl :: char where
  "nl = CHR 0x0A"

definition space :: char where
  "space = CHR 0x20"

text \<open>\<^verbatim>\<open>indent_\<close> is an \<^verbatim>\<open>int\<close>; its overflow at two thousand million nested blocks is left out.\<close>

record SpecDumpWriter =
  w_os :: string
  w_indent :: int

definition SpecDumpWriter_new :: SpecDumpWriter where
  "SpecDumpWriter_new = \<lparr>w_os = [], w_indent = 0\<rparr>"

lemma SpecDumpWriter_new_indent [simp]: "w_indent SpecDumpWriter_new = 0"
  by (simp add: SpecDumpWriter_new_def)

definition push :: "SpecDumpWriter \<Rightarrow> SpecDumpWriter" where
  "push w = w\<lparr>w_indent := w_indent w + 1\<rparr>"

definition pop :: "SpecDumpWriter \<Rightarrow> SpecDumpWriter" where
  "pop w = w\<lparr>w_indent := w_indent w - 1\<rparr>"

definition put :: "string \<Rightarrow> SpecDumpWriter \<Rightarrow> SpecDumpWriter" where
  "put s w = w\<lparr>w_os := w_os w @ s\<rparr>"

definition writeIndent :: "SpecDumpWriter \<Rightarrow> SpecDumpWriter" where
  "writeIndent w = ((\<lambda>w. put ''  '' w) ^^ nat (w_indent w)) w"

definition header :: "string \<Rightarrow> (SpecDumpWriter \<Rightarrow> SpecDumpWriter) \<Rightarrow> SpecDumpWriter \<Rightarrow> SpecDumpWriter" where
  "header key body w = pop (body (push (put ('':'' @ [nl]) (put key (writeIndent w)))))"

definition bullet :: "string \<Rightarrow> (SpecDumpWriter \<Rightarrow> SpecDumpWriter) \<Rightarrow> SpecDumpWriter \<Rightarrow> SpecDumpWriter" where
  "bullet name body w = pop (body (push (put [nl] (put name (put ''- '' (writeIndent w))))))"

definition bulletGroup :: "string \<Rightarrow> (SpecDumpWriter \<Rightarrow> SpecDumpWriter) \<Rightarrow> SpecDumpWriter \<Rightarrow> SpecDumpWriter" where
  "bulletGroup name body w =
     pop (body (push (put ('':'' @ [nl]) (put name (put ''- '' (writeIndent w))))))"

text \<open>
  \<^verbatim>\<open>writeScalar\<close> by the type of the value: a bool, a text, or anything else, which goes to the
  stream as it is. Of the latter integers print in decimal; \<open>SShown\<close> is a value by the text its
  own \<^verbatim>\<open>operator<<\<close> writes.
\<close>

datatype scalar = SBool bool | SText string | SInt int | SShown string

definition int_text :: "int \<Rightarrow> string" where
  "int_text i = (if i < 0 then CHR ''-'' # dec_digits (nat (- i)) else dec_digits (nat i))"

primrec scalar_text :: "scalar \<Rightarrow> string" where
  "scalar_text (SBool b) = (if b then ''true'' else ''false'')"
| "scalar_text (SText s) = CHR 0x22 # s @ [CHR 0x22]"
| "scalar_text (SInt i) = int_text i"
| "scalar_text (SShown s) = s"

definition writeScalar :: "scalar \<Rightarrow> SpecDumpWriter \<Rightarrow> SpecDumpWriter" where
  "writeScalar v w = put (scalar_text v) w"

definition param :: "string \<Rightarrow> scalar \<Rightarrow> SpecDumpWriter \<Rightarrow> SpecDumpWriter" where
  "param key v w = put [nl] (writeScalar v (put '': '' (put key (writeIndent w))))"

fun writeList :: "bool \<Rightarrow> scalar list \<Rightarrow> SpecDumpWriter \<Rightarrow> SpecDumpWriter" where
  "writeList first [] w = w"
| "writeList first (v # vs) w =
     writeList False vs (writeScalar v (if \<not> first then put '', '' w else w))"

definition paramList :: "string \<Rightarrow> scalar list \<Rightarrow> SpecDumpWriter \<Rightarrow> SpecDumpWriter" where
  "paramList key vs w =
     put ('']'' @ [nl]) (writeList True vs (put '': ['' (put key (writeIndent w))))"

definition line :: "string \<Rightarrow> SpecDumpWriter \<Rightarrow> SpecDumpWriter" where
  "line text w = put [nl] (put text (writeIndent w))"

section \<open>Items and fields\<close>

text \<open>
  What the dump sees of an item: the first of the concepts \<^verbatim>\<open>HasSubFields\<close>, \<^verbatim>\<open>HasSubItems\<close>,
  \<^verbatim>\<open>HasWrapped\<close> and \<^verbatim>\<open>HasKName\<close> it satisfies, in the order \<^verbatim>\<open>dumpItem\<close> asks, with the \<^verbatim>\<open>kName\<close> and
  the members these name. \<^verbatim>\<open>describeParams\<close>, where an item has it, is the list of its calls.
\<close>

datatype describe_call = Param string scalar | ParamList string "scalar list"

primrec describe_one :: "describe_call \<Rightarrow> SpecDumpWriter \<Rightarrow> SpecDumpWriter" where
  "describe_one (Param k v) = param k v"
| "describe_one (ParamList k vs) = paramList k vs"

definition describe :: "describe_call list \<Rightarrow> SpecDumpWriter \<Rightarrow> SpecDumpWriter" where
  "describe ps w = fold describe_one ps w"

datatype dump_item =
    HasSubFields string "dump_field list"
  | HasSubItems string "describe_call list option" "dump_item list"
  | HasWrapped string string dump_item
  | HasKName string "describe_call list option"
  | Unnamed
and dump_field = DumpField (df_key: string) (df_items: "dump_item list")

fun dumpItem :: "dump_item \<Rightarrow> SpecDumpWriter \<Rightarrow> SpecDumpWriter"
  and dumpFieldSpec :: "dump_field \<Rightarrow> SpecDumpWriter \<Rightarrow> SpecDumpWriter"
  and dumpItems :: "dump_item list \<Rightarrow> SpecDumpWriter \<Rightarrow> SpecDumpWriter"
  and dumpFields :: "dump_field list \<Rightarrow> SpecDumpWriter \<Rightarrow> SpecDumpWriter" where
  "dumpItem (HasSubFields kName subFields) = bulletGroup kName (dumpFields subFields)"
| "dumpItem (HasSubItems kName params subItems) =
     bulletGroup kName (dumpItems subItems \<circ> (case params of Some ps \<Rightarrow> describe ps | None \<Rightarrow> id))"
| "dumpItem (HasWrapped kName msg wrapped) =
     bulletGroup kName
       (dumpItem wrapped \<circ> (if msg \<noteq> [] then param ''message'' (SText msg) else id))"
| "dumpItem (HasKName kName params) =
     (case params of Some ps \<Rightarrow> bulletGroup kName (describe ps) | None \<Rightarrow> bullet kName id)"
| "dumpItem Unnamed = bullet ''custom'' id"
| "dumpFieldSpec (DumpField key items) = bulletGroup key (dumpItems items)"
| "dumpItems [] = id"
| "dumpItems (it # its) = dumpItems its \<circ> dumpItem it"
| "dumpFields [] = id"
| "dumpFields (f # fs) = dumpFields fs \<circ> dumpFieldSpec f"

section \<open>What the items write of themselves\<close>

text \<open>The arguments are the members of the item; \<open>shown\<close> is \<^verbatim>\<open>operator<<\<close> on a double.\<close>

primrec num_scalar :: "(real \<Rightarrow> string) \<Rightarrow> num \<Rightarrow> scalar" where
  "num_scalar shown (NInt64 i) = SInt (sint i)"
| "num_scalar shown (NUint32 u) = SInt (uint u)"
| "num_scalar shown (NDouble d) = SShown (shown d)"

definition Type_describeParams :: "json_type \<Rightarrow> describe_call list" where
  "Type_describeParams t = [Param ''of'' (SText (typeNameOf t))]"

definition TypeAny_describeParams :: "json_type list \<Rightarrow> describe_call list" where
  "TypeAny_describeParams ts = [ParamList ''oneOf'' (map (\<lambda>t. SText (typeNameOf t)) ts)]"

definition Min_describeParams :: "(real \<Rightarrow> string) \<Rightarrow> num \<Rightarrow> describe_call list" where
  "Min_describeParams shown b = [Param ''bound'' (num_scalar shown b)]"

definition MinArrayLength_describeParams :: "nat \<Rightarrow> describe_call list" where
  "MinArrayLength_describeParams b = [Param ''bound'' (SInt (int b))]"

definition MaxArrayLength_describeParams :: "nat \<Rightarrow> describe_call list" where
  "MaxArrayLength_describeParams b = [Param ''bound'' (SInt (int b))]"

definition Clamp_describeParams :: "(real \<Rightarrow> string) \<Rightarrow> num \<Rightarrow> num \<Rightarrow> describe_call list" where
  "Clamp_describeParams shown lo hi =
     [Param ''lo'' (num_scalar shown lo), Param ''hi'' (num_scalar shown hi)]"

definition ClampAs_describeParams :: "string \<Rightarrow> describe_call list" where
  "ClampAs_describeParams targetName = [Param ''target'' (SText targetName)]"

definition TimeFormat_describeParams :: "string \<Rightarrow> describe_call list" where
  "TimeFormat_describeParams format = [Param ''format'' (SText format)]"

definition NotSupportedIf_describeParams :: "bool \<Rightarrow> describe_call list" where
  "NotSupportedIf_describeParams v = [Param ''value'' (SBool v)]"

definition OneOf_describeParams :: "string list \<Rightarrow> describe_call list" where
  "OneOf_describeParams values = [ParamList ''values'' (map SText values)]"

definition Between_describeParams :: "(real \<Rightarrow> string) \<Rightarrow> num \<Rightarrow> num \<Rightarrow> describe_call list" where
  "Between_describeParams shown lo hi =
     [Param ''lo'' (num_scalar shown lo), Param ''hi'' (num_scalar shown hi)]"

definition Default_describeParams :: "scalar \<Rightarrow> describe_call list" where
  "Default_describeParams v = [Param ''value'' v]"

definition NullAs_describeParams :: "scalar \<Rightarrow> describe_call list" where
  "NullAs_describeParams v = [Param ''value'' v]"

definition IfAbsent_describeParams :: "string \<Rightarrow> describe_call list" where
  "IfAbsent_describeParams guardKey = [Param ''key'' (SText guardKey)]"

definition IfType_describeParams :: "json_type \<Rightarrow> describe_call list" where
  "IfType_describeParams t = [Param ''type'' (SText (typeNameOf t))]"

definition dump_Section :: "dump_field list \<Rightarrow> dump_item" where
  "dump_Section subFields = HasSubFields ''section'' subFields"

definition dump_IfType :: "json_type \<Rightarrow> dump_item list \<Rightarrow> dump_item" where
  "dump_IfType t subItems = HasSubItems ''ifType'' (Some (IfType_describeParams t)) subItems"

definition dump_WithCustomError :: "string \<Rightarrow> dump_item \<Rightarrow> dump_item" where
  "dump_WithCustomError message wrapped = HasWrapped ''withCustomError'' message wrapped"

text \<open>
  A server conditional keeps its contents in a member \<^verbatim>\<open>inners\<close> and has no name: the dump knows
  nothing of what is in it.
\<close>

definition dump_ServerConditional :: "dump_item list \<Rightarrow> dump_item" where
  "dump_ServerConditional inners = Unnamed"

section \<open>The specs\<close>

text \<open>A field with its documentation: what the dump sees of its items and of its converter.\<close>

record doc_field_spec = field_spec +
  fs_docs :: "dump_item list"

definition doc_of :: "doc_field_spec \<Rightarrow> dump_field" where
  "doc_of f = DumpField (fs_key f) (fs_docs f)"

definition dumpRpcSpec :: "doc_field_spec list \<Rightarrow> SpecDumpWriter \<Rightarrow> SpecDumpWriter" where
  "dumpRpcSpec sp w = forEachEffectiveField fs_key sp (\<lambda>f w. (dumpFieldSpec (doc_of f) w, True)) w"

datatype field_doc =
    BoundDoc "dump_item list" dump_item
  | AliasedDoc string "dump_item list" dump_item
  | LedgerSelectorDoc
  | UnboundDoc "dump_item list"

record 'i doc_tfield = "'i tfield" +
  tf_doc :: field_doc

definition BoundField_dump ::
    "string \<Rightarrow> dump_item list \<Rightarrow> dump_item \<Rightarrow> SpecDumpWriter \<Rightarrow> SpecDumpWriter" where
  "BoundField_dump key items conv = bulletGroup key (dumpItem conv \<circ> dumpItems items)"

definition AliasedField_dump ::
    "string \<Rightarrow> string \<Rightarrow> dump_item list \<Rightarrow> dump_item \<Rightarrow> SpecDumpWriter \<Rightarrow> SpecDumpWriter" where
  "AliasedField_dump key alternateKey items conv =
     BoundField_dump alternateKey items conv \<circ> BoundField_dump key items conv"

definition LedgerSelectorField_dump :: "SpecDumpWriter \<Rightarrow> SpecDumpWriter" where
  "LedgerSelectorField_dump =
     bulletGroup ''ledger_index'' (bullet ''uint32 or shortcut (validated/current/closed)'' id) \<circ>
     bulletGroup ''ledger_hash'' (bullet ''uint256Hex'' id)"

definition dumpOne :: "string \<Rightarrow> field_doc \<Rightarrow> SpecDumpWriter \<Rightarrow> SpecDumpWriter" where
  "dumpOne key doc = (case doc of
       BoundDoc items conv \<Rightarrow> BoundField_dump key items conv
     | AliasedDoc alternateKey items conv \<Rightarrow> AliasedField_dump key alternateKey items conv
     | LedgerSelectorDoc \<Rightarrow> LedgerSelectorField_dump
     | UnboundDoc items \<Rightarrow> dumpFieldSpec (DumpField key items))"

definition TypedSpec_dump :: "'i doc_tfield list \<Rightarrow> SpecDumpWriter \<Rightarrow> SpecDumpWriter" where
  "TypedSpec_dump sp w =
     forEachEffectiveField tf_key sp (\<lambda>f w. (dumpOne (tf_key f) (tf_doc f) w, True)) w"

definition VersionedSpec_dump ::
    "'i doc_tfield list list \<Rightarrow> uint32 \<Rightarrow> SpecDumpWriter \<Rightarrow> SpecDumpWriter" where
  "VersionedSpec_dump specs apiVersion w = selected specs 0 apiVersion (\<lambda>sp. TypedSpec_dump sp w)"

section \<open>The text as blocks\<close>

text \<open>A block is a line and the blocks indented under it; \<open>render\<close> is its text at a depth.\<close>

datatype block = Block (block_line: string) (block_body: "block list")

fun flat :: "nat \<Rightarrow> block \<Rightarrow> (nat \<times> string) list"
  and flats :: "nat \<Rightarrow> block list \<Rightarrow> (nat \<times> string) list" where
  "flat d (Block t bs) = (d, t) # flats (d + 1) bs"
| "flats d [] = []"
| "flats d (b # bs) = flat d b @ flats d bs"

definition line_text :: "nat \<times> string \<Rightarrow> string" where
  "line_text l = replicate (2 * fst l) space @ snd l @ [nl]"

definition render :: "nat \<Rightarrow> block list \<Rightarrow> string" where
  "render d bs = concat (map line_text (flats d bs))"

lemma flats_append: "flats d (bs @ cs) = flats d bs @ flats d cs"
  by (induction bs) simp_all

lemma render_simps [simp]:
  "render d [] = []"
  "render d (bs @ cs) = render d bs @ render d cs"
  "render d (Block t bs # cs) = line_text (d, t) @ render (d + 1) bs @ render d cs"
  by (simp_all add: render_def flats_append)

text \<open>The reader: lines, their depth by the spaces before them, and the nesting by depth.\<close>

fun split_lines :: "string \<Rightarrow> string \<Rightarrow> string list" where
  "split_lines cur [] = (if cur = [] then [] else [cur])"
| "split_lines cur (c # cs) =
     (if c = nl then cur # split_lines [] cs else split_lines (cur @ [c]) cs)"

definition line_of :: "string \<Rightarrow> nat \<times> string" where
  "line_of l = (length (takeWhile (\<lambda>c. c = space) l) div 2, dropWhile (\<lambda>c. c = space) l)"

fun nest :: "(nat \<times> string) list \<Rightarrow> (nat \<times> block) list" where
  "nest [] = []"
| "nest ((d, t) # ls) =
     (d, Block t (map snd (takeWhile (\<lambda>b. d < fst b) (nest ls)))) #
     dropWhile (\<lambda>b. d < fst b) (nest ls)"

definition read_dump :: "string \<Rightarrow> block list" where
  "read_dump s = map snd (nest (map line_of (split_lines [] s)))"

definition text_ok :: "string \<Rightarrow> bool" where
  "text_ok s = (nl \<notin> set s)"

definition line_ok :: "string \<Rightarrow> bool" where
  "line_ok s = (text_ok s \<and> \<not> starts_with space s)"

fun block_ok :: "block \<Rightarrow> bool" where
  "block_ok (Block t bs) = (line_ok t \<and> list_all block_ok bs)"

lemma split_lines_line:
  "nl \<notin> set t \<Longrightarrow> split_lines cur (t @ nl # rest) = (cur @ t) # split_lines [] rest"
  by (induction t arbitrary: cur) auto

lemma line_of_line:
  assumes "line_ok t"
  shows "line_of (replicate (2 * d) space @ t) = (d, t)"
proof -
  have "takeWhile (\<lambda>c. c = space) t = []" "dropWhile (\<lambda>c. c = space) t = t"
    using assms by (cases t; simp add: line_ok_def starts_with_def)+
  then show ?thesis
    by (simp add: line_of_def takeWhile_append dropWhile_append)
qed

lemma lines_back:
  "list_all (\<lambda>l. line_ok (snd l)) ls \<Longrightarrow>
   map line_of (split_lines [] (concat (map line_text ls))) = ls"
proof (induction ls)
  case (Cons l ls)
  have "nl \<noteq> space" by (simp add: nl_def space_def)
  with Cons.prems have "nl \<notin> set (replicate (2 * fst l) space @ snd l)"
    by (auto simp: line_ok_def text_ok_def)
  from split_lines_line [OF this, of "[]"] Cons show ?case
    by (simp add: line_text_def line_of_line)
qed simp

lemma flats_ok:
  "block_ok b \<Longrightarrow> list_all (\<lambda>l. line_ok (snd l)) (flat d b)"
  "list_all block_ok bs \<Longrightarrow> list_all (\<lambda>l. line_ok (snd l)) (flats d bs)"
  by (induction d b and d bs rule: flat_flats.induct) simp_all

text \<open>Lines that are followed by nothing deeper nest to the block they came from.\<close>

definition low :: "nat \<Rightarrow> (nat \<times> block) list \<Rightarrow> bool" where
  "low d bs = (bs = [] \<or> fst (hd bs) \<le> d)"

lemma nest_flats:
  "low d (nest ls) \<Longrightarrow> nest (flat d b @ ls) = (d, b) # nest ls"
  "low d (nest ls) \<Longrightarrow> nest (flats d bs @ ls) = map (Pair d) bs @ nest ls"
proof (induction d b and d bs arbitrary: ls and ls rule: flat_flats.induct)
  case (1 d t bs)
  have "low (d + 1) (nest ls)" using 1 by (auto simp: low_def)
  note IH = "1.IH" [OF this, unfolded Suc_eq_plus1 [symmetric]]
  have "takeWhile (\<lambda>b. d < fst b) (nest ls) = []" "dropWhile (\<lambda>b. d < fst b) (nest ls) = nest ls"
    using "1.prems" by (cases "nest ls"; simp add: low_def)+
  then show ?case
    by (simp add: IH takeWhile_append dropWhile_append comp_def)
next
  case (3 d b bs)
  have "low d (nest (flats d bs @ ls))"
    using 3 by (cases bs) (simp_all add: low_def)
  then show ?case using 3 by simp
qed simp

theorem read_dump_render:
  assumes "list_all block_ok bs"
  shows "read_dump (render 0 bs) = bs"
  using nest_flats(2) [of 0 "[]" bs] lines_back [OF flats_ok(2) [OF assms, of 0]]
  by (simp add: read_dump_def render_def low_def comp_def)

section \<open>What a dump writes\<close>

text \<open>
  The contract of a callable passed to the writer, and of every dump function: at any depth it
  appends the text of certain blocks at that depth and leaves the depth as it was.
\<close>

locale dump_body =
  fixes body :: "SpecDumpWriter \<Rightarrow> SpecDumpWriter" and blocks :: "block list"
  assumes writes: "0 \<le> w_indent w \<Longrightarrow> body w = put (render (nat (w_indent w)) blocks) w"
begin

lemma balanced: "0 \<le> w_indent w \<Longrightarrow> w_indent (body w) = w_indent w"
  by (simp add: writes put_def)

lemma from_start: "w_os (body SpecDumpWriter_new) = render 0 blocks"
  using writes [of SpecDumpWriter_new] by (simp add: SpecDumpWriter_new_def put_def)

lemma under_line:
  assumes "0 \<le> w_indent w"
  shows "pop (body (push (put (line_text (nat (w_indent w), t)) w))) =
    put (render (nat (w_indent w)) [Block t blocks]) w"
  using assms by (simp add: writes push_def pop_def put_def nat_add_distrib)

end

lemma put_put [simp]: "put t (put s w) = put (s @ t) w"
  by (simp add: put_def)

lemma put_Nil [simp]: "put [] w = w"
  by (simp add: put_def)

lemma writeIndent_eq: "writeIndent w = put (replicate (2 * nat (w_indent w)) space) w"
proof -
  have "((\<lambda>w. put ''  '' w) ^^ n) w = put (replicate (2 * n) space) w" for n
    by (induction n) (simp_all add: space_def replicate_app_Cons_same)
  then show ?thesis by (simp add: writeIndent_def)
qed

lemma dump_body_id: "dump_body id []"
  by unfold_locales simp

lemma dump_body_comp:
  assumes "dump_body f bs" and "dump_body g cs"
  shows "dump_body (g \<circ> f) (bs @ cs)"
  using assms by (simp add: dump_body_def put_def)

lemma dump_body_bulletGroup:
  assumes "dump_body body bs"
  shows "dump_body (bulletGroup name body) [Block (''- '' @ name @ '':'') bs]"
  by unfold_locales (use dump_body.under_line [OF assms, of _ "''- '' @ name @ '':''"] in
    \<open>simp add: bulletGroup_def writeIndent_eq line_text_def\<close>)

lemma dump_body_bullet:
  assumes "dump_body body bs"
  shows "dump_body (bullet name body) [Block (''- '' @ name) bs]"
  by unfold_locales (use dump_body.under_line [OF assms, of _ "''- '' @ name"] in
    \<open>simp add: bullet_def writeIndent_eq line_text_def\<close>)

lemma dump_body_header:
  assumes "dump_body body bs"
  shows "dump_body (header key body) [Block (key @ '':'') bs]"
  by unfold_locales (use dump_body.under_line [OF assms, of _ "key @ '':''"] in
    \<open>simp add: header_def writeIndent_eq line_text_def\<close>)

definition list_text :: "scalar list \<Rightarrow> string" where
  "list_text vs = (case vs of [] \<Rightarrow> []
     | v # vs \<Rightarrow> scalar_text v @ concat (map (\<lambda>v. '', '' @ scalar_text v) vs))"

lemma writeList_eq:
  "writeList False vs w = put (concat (map (\<lambda>v. '', '' @ scalar_text v) vs)) w"
  "writeList True vs w = put (list_text vs) w"
proof -
  show rest: "writeList False vs w = put (concat (map (\<lambda>v. '', '' @ scalar_text v) vs)) w" for vs w
    by (induction vs arbitrary: w) (simp_all add: writeScalar_def)
  show "writeList True vs w = put (list_text vs) w"
    by (cases vs) (simp_all add: list_text_def writeScalar_def rest)
qed

primrec call_line :: "describe_call \<Rightarrow> string" where
  "call_line (Param k v) = k @ '': '' @ scalar_text v"
| "call_line (ParamList k vs) = k @ '': ['' @ list_text vs @ '']''"

lemma dump_body_line: "dump_body (line t) [Block t []]"
  by unfold_locales (simp add: line_def writeIndent_eq line_text_def)

lemma dump_body_describe_one: "dump_body (describe_one c) [Block (call_line c) []]"
  by (unfold_locales, cases c)
    (simp_all add: param_def paramList_def writeIndent_eq writeList_eq line_text_def writeScalar_def)

lemma dump_body_describe: "dump_body (describe cs) (map (\<lambda>c. Block (call_line c) []) cs)"
proof (induction cs)
  case Nil
  then show ?case using dump_body_id by (simp add: describe_def id_def)
next
  case (Cons c cs)
  have "describe (c # cs) = describe cs \<circ> describe_one c" by (simp add: describe_def fun_eq_iff)
  with dump_body_comp [OF dump_body_describe_one [of c] Cons] show ?case
    by (simp only: list.map append.simps)
qed

lemmas dump_bodies = dump_body_bulletGroup [simplified] dump_body_bullet [simplified]
  dump_body_describe dump_body_id

section \<open>The blocks of items, fields and specs\<close>

definition params_blocks :: "describe_call list option \<Rightarrow> block list" where
  "params_blocks params =
     (case params of Some ps \<Rightarrow> map (\<lambda>c. Block (call_line c) []) ps | None \<Rightarrow> [])"

fun item_block :: "dump_item \<Rightarrow> block"
  and field_block :: "dump_field \<Rightarrow> block"
  and items_blocks :: "dump_item list \<Rightarrow> block list"
  and fields_blocks :: "dump_field list \<Rightarrow> block list" where
  "item_block (HasSubFields kName fs) = Block (''- '' @ kName @ '':'') (fields_blocks fs)"
| "item_block (HasSubItems kName params its) =
     Block (''- '' @ kName @ '':'') (params_blocks params @ items_blocks its)"
| "item_block (HasWrapped kName msg it) =
     Block (''- '' @ kName @ '':'')
       ((if msg = [] then [] else [Block (''message: \"'' @ msg @ ''\"'') []]) @ [item_block it])"
| "item_block (HasKName kName params) =
     Block (''- '' @ kName @ (if params = None then [] else '':'')) (params_blocks params)"
| "item_block Unnamed = Block ''- custom'' []"
| "field_block (DumpField key its) = Block (''- '' @ key @ '':'') (items_blocks its)"
| "items_blocks [] = []"
| "items_blocks (it # its) = item_block it # items_blocks its"
| "fields_blocks [] = []"
| "fields_blocks (f # fs) = field_block f # fields_blocks fs"

lemma dump_body_params:
  "dump_body (case params of Some ps \<Rightarrow> describe ps | None \<Rightarrow> id) (params_blocks params)"
  by (cases params) (simp_all add: params_blocks_def dump_body_id dump_body_describe)

lemma dump_body_item:
  "dump_body (dumpItem it) [item_block it]"
  "dump_body (dumpFieldSpec f) [field_block f]"
  "dump_body (dumpItems its) (items_blocks its)"
  "dump_body (dumpFields fs) (fields_blocks fs)"
proof (induction it and f and its and fs rule: dumpItem_dumpFieldSpec_dumpItems_dumpFields.induct)
  case (1 k fs)
  then show ?case by (simp add: dump_bodies)
next
  case (2 k params its)
  from dump_body_bulletGroup [OF dump_body_comp [OF dump_body_params 2 [OF rangeI]], of k params]
  show ?case by simp
next
  case (3 k msg it)
  have "dump_body (if msg \<noteq> [] then param ''message'' (SText msg) else id)
      (if msg = [] then [] else [Block (''message: \"'' @ msg @ ''\"'') []])"
    using dump_body_describe_one [of "Param ''message'' (SText msg)"] dump_body_id
    by (simp add: fun_eq_iff)
  from dump_body_bulletGroup [OF dump_body_comp [OF this 3 [OF rangeI]], of k] show ?case by simp
next
  case (4 k params)
  then show ?case
    using dump_body_bullet [OF dump_body_id, of k]
    by (cases params) (simp_all add: params_blocks_def dump_bodies)
next
  case 5
  then show ?case using dump_body_bullet [OF dump_body_id, of "''custom''"] by simp
next
  case (6 key its)
  then show ?case by (simp add: dump_bodies)
next
  case (8 it its)
  from dump_body_comp [OF 8(1) 8(2) [OF rangeI]] show ?case by (simp add: comp_def)
next
  case (10 f fs)
  from dump_body_comp [OF 10(1) 10(2) [OF rangeI]] show ?case by (simp add: comp_def)
qed (use dump_body_id in \<open>simp_all add: id_def\<close>)

interpretation dump_item: dump_body "dumpItem it" "[item_block it]" for it
  by (rule dump_body_item)

interpretation dump_field: dump_body "dumpFieldSpec f" "[field_block f]" for f
  by (rule dump_body_item)

primrec doc_blocks :: "string \<Rightarrow> field_doc \<Rightarrow> block list" where
  "doc_blocks key (BoundDoc its conv) = [field_block (DumpField key (its @ [conv]))]"
| "doc_blocks key (AliasedDoc alternateKey its conv) =
     [field_block (DumpField key (its @ [conv])), field_block (DumpField alternateKey (its @ [conv]))]"
| "doc_blocks key LedgerSelectorDoc =
     [field_block (DumpField ''ledger_hash'' [HasKName ''uint256Hex'' None]),
      field_block (DumpField ''ledger_index''
        [HasKName ''uint32 or shortcut (validated/current/closed)'' None])]"
| "doc_blocks key (UnboundDoc its) = [field_block (DumpField key its)]"

lemma items_blocks_eq: "items_blocks its = map item_block its"
  by (induction its) simp_all

lemma dump_body_BoundField:
  "dump_body (BoundField_dump key its conv) [field_block (DumpField key (its @ [conv]))]"
  using dump_body_bulletGroup [OF dump_body_comp [OF dump_body_item(3) [of its] dump_item.dump_body_axioms]]
  by (simp add: BoundField_dump_def items_blocks_eq)

lemma dump_body_LedgerSelector:
  "dump_body LedgerSelectorField_dump (doc_blocks key LedgerSelectorDoc)"
  using dump_body_comp [OF
      dump_body_bulletGroup [OF dump_body_bullet [OF dump_body_id, of "''uint256Hex''"],
        of "''ledger_hash''"]
      dump_body_bulletGroup [OF dump_body_bullet [OF dump_body_id,
        of "''uint32 or shortcut (validated/current/closed)''"], of "''ledger_index''"]]
  by (simp add: LedgerSelectorField_dump_def params_blocks_def)

lemma dump_body_dumpOne: "dump_body (dumpOne key doc) (doc_blocks key doc)"
  using dump_body_comp [OF dump_body_BoundField dump_body_BoundField]
  by (cases doc) (simp_all add: dumpOne_def dump_body_BoundField [simplified] AliasedField_dump_def
      dump_body_LedgerSelector [simplified] dump_bodies dump_body_item)

section \<open>Texts that can be read back\<close>

text \<open>
  Names, keys and texts on one line, and parameter keys that do not begin with a space: true of
  every literal of the sources.
\<close>

primrec scalar_ok :: "scalar \<Rightarrow> bool" where
  "scalar_ok (SBool b) = True"
| "scalar_ok (SText s) = text_ok s"
| "scalar_ok (SInt i) = True"
| "scalar_ok (SShown s) = text_ok s"

primrec call_ok :: "describe_call \<Rightarrow> bool" where
  "call_ok (Param k v) = (line_ok k \<and> scalar_ok v)"
| "call_ok (ParamList k vs) = (line_ok k \<and> list_all scalar_ok vs)"

definition params_ok :: "describe_call list option \<Rightarrow> bool" where
  "params_ok params = (case params of Some ps \<Rightarrow> list_all call_ok ps | None \<Rightarrow> True)"

fun item_texts_ok :: "dump_item \<Rightarrow> bool"
  and field_texts_ok :: "dump_field \<Rightarrow> bool" where
  "item_texts_ok (HasSubFields kName fs) = (text_ok kName \<and> list_all field_texts_ok fs)"
| "item_texts_ok (HasSubItems kName params its) =
     (text_ok kName \<and> params_ok params \<and> list_all item_texts_ok its)"
| "item_texts_ok (HasWrapped kName msg it) = (text_ok kName \<and> text_ok msg \<and> item_texts_ok it)"
| "item_texts_ok (HasKName kName params) = (text_ok kName \<and> params_ok params)"
| "item_texts_ok Unnamed = True"
| "field_texts_ok (DumpField key its) = (text_ok key \<and> list_all item_texts_ok its)"

primrec doc_ok :: "string \<Rightarrow> field_doc \<Rightarrow> bool" where
  "doc_ok key (BoundDoc its conv) = (text_ok key \<and> list_all item_texts_ok (its @ [conv]))"
| "doc_ok key (AliasedDoc alternateKey its conv) =
     (text_ok key \<and> text_ok alternateKey \<and> list_all item_texts_ok (its @ [conv]))"
| "doc_ok key LedgerSelectorDoc = True"
| "doc_ok key (UnboundDoc its) = (text_ok key \<and> list_all item_texts_ok its)"

lemma text_ok_simps [simp]:
  "text_ok []" "text_ok (s @ t) \<longleftrightarrow> text_ok s \<and> text_ok t" "text_ok (c # s) \<longleftrightarrow> c \<noteq> nl \<and> text_ok s"
  by (auto simp: text_ok_def)

lemma text_ok_concat: "text_ok (concat ss) \<longleftrightarrow> list_all text_ok ss"
  by (induction ss) simp_all

lemma text_ok_int: "text_ok (int_text i)"
proof -
  have digits: "text_ok (dec_digits n)" for n
    using dec_digits_all [of n] by (auto simp: text_ok_def all_digits_def list_all_iff is_digit_def nl_def)
  then show ?thesis by (simp add: int_text_def nl_def)
qed

lemma text_ok_scalar: "scalar_ok v \<Longrightarrow> text_ok (scalar_text v)"
  by (cases v) (simp_all add: text_ok_int nl_def)

lemma text_ok_list: "list_all scalar_ok vs \<Longrightarrow> text_ok (list_text vs)"
  by (cases vs)
    (auto simp: list_text_def text_ok_concat text_ok_scalar nl_def list_all_iff)

lemma call_line_ok: "call_ok c \<Longrightarrow> line_ok (call_line c)"
  by (cases c)
    (auto simp: line_ok_def starts_with_def text_ok_scalar text_ok_list nl_def space_def hd_append)

lemma params_blocks_ok: "params_ok params \<Longrightarrow> list_all block_ok (params_blocks params)"
  by (cases params) (auto simp: params_ok_def params_blocks_def call_line_ok list_all_iff)

lemma bullet_line_ok: "text_ok s \<Longrightarrow> line_ok (''- '' @ s)"
  by (simp add: line_ok_def starts_with_def nl_def space_def)

lemma fields_blocks_eq: "fields_blocks fs = map field_block fs"
  by (induction fs) simp_all

lemma block_ok_item:
  "item_texts_ok it \<Longrightarrow> block_ok (item_block it)"
  "field_texts_ok f \<Longrightarrow> block_ok (field_block f)"
proof (induction it and f rule: item_texts_ok_field_texts_ok.induct)
  case (3 k msg it)
  then show ?case
    using bullet_line_ok [of "k @ '':''"]
    by (auto simp: line_ok_def starts_with_def nl_def space_def)
next
  case (4 k params)
  then show ?case
    using bullet_line_ok [of "k @ '':''"] bullet_line_ok [of k] params_blocks_ok [of params]
    by (auto simp: nl_def)
qed (use bullet_line_ok [simplified] params_blocks_ok in
    \<open>auto simp: fields_blocks_eq items_blocks_eq list_all_iff nl_def line_ok_def starts_with_def space_def\<close>)

lemma doc_blocks_ok: "doc_ok key doc \<Longrightarrow> list_all block_ok (doc_blocks key doc)"
  by (cases doc) (auto simp: block_ok_item list_all_iff params_ok_def nl_def simp del: field_block.simps)

section \<open>The dump of a spec\<close>

lemma dump_body_visit:
  assumes "\<And>f. dump_body (d f) (bl f)"
  shows "dump_body (\<lambda>w. visit_list (\<lambda>f w. (d f w, True)) fs w) (concat (map bl fs))"
proof (induction fs)
  case Nil
  then show ?case using dump_body_id by (simp add: id_def)
next
  case (Cons f fs)
  from dump_body_comp [OF assms [of f] Cons] show ?case by (simp add: comp_def)
qed

interpretation rpc_dump: dump_body "dumpRpcSpec sp"
  "map (\<lambda>f. field_block (doc_of f)) (effective fs_key sp)" for sp
  using dump_body_visit [where d = "\<lambda>f. dumpFieldSpec (doc_of f)" and bl = "\<lambda>f. [field_block (doc_of f)]",
      OF dump_body_item(2), of "effective fs_key sp"]
  by (simp add: dumpRpcSpec_def [abs_def] forEachEffectiveField_list concat_map_singleton)

interpretation typed_dump: dump_body "TypedSpec_dump sp"
  "concat (map (\<lambda>f. doc_blocks (tf_key f) (tf_doc f)) (effective tf_key sp))" for sp
  using dump_body_visit [where d = "\<lambda>f. dumpOne (tf_key f) (tf_doc f)"
      and bl = "\<lambda>f. doc_blocks (tf_key f) (tf_doc f)", OF dump_body_dumpOne, of "effective tf_key sp"]
  by (simp add: TypedSpec_dump_def [abs_def] forEachEffectiveField_list)

text \<open>The fields of a documented spec are those of the spec that parses requests.\<close>

lemma last_def_map: "last_def key (map g fs) k = map_option g (last_def (key \<circ> g) fs k)"
proof -
  have "find P (map g xs) = map_option g (find (P \<circ> g) xs)" for P xs
    by (induction xs) simp_all
  then show ?thesis by (simp add: last_def_def rev_map comp_def)
qed

lemma effective_map: "effective key (map g fs) = map g (effective (key \<circ> g) fs)"
proof -
  have keys: "first_keys key (map g fs) = first_keys (key \<circ> g) fs"
    by (simp add: first_keys_def)
  have "the (last_def key (map g fs) k) = g (the (last_def (key \<circ> g) fs k))"
    if "k \<in> (key \<circ> g) ` set fs" for k
  proof -
    from that obtain f where "last_def (key \<circ> g) fs k = Some f"
      by (cases "last_def (key \<circ> g) fs k") (auto simp: last_def_def find_None_iff)
    then show ?thesis by (simp add: last_def_map)
  qed
  then show ?thesis by (simp add: effective_def keys)
qed

lemma tf_key_truncate: "tf_key \<circ> tfield.truncate = tf_key"
  by (simp add: fun_eq_iff tfield.truncate_def)

lemma TypedSpec_dump_blocks:
  assumes "\<forall>f \<in> set sp. doc_ok (tf_key f) (tf_doc f)"
  shows "read_dump (w_os (TypedSpec_dump sp SpecDumpWriter_new)) =
    concat (map (\<lambda>f. doc_blocks (tf_key f) (tf_doc f)) (effective tf_key sp))"
proof -
  have "list_all block_ok
      (concat (map (\<lambda>f. doc_blocks (tf_key f) (tf_doc f)) (effective tf_key sp)))"
    using assms set_effective [of tf_key sp] doc_blocks_ok by (fastforce simp: list_all_iff)
  then show ?thesis by (simp add: typed_dump.from_start read_dump_render)
qed

section \<open>Properties\<close>

text \<open>
  C24: reading the schema of a spec back by its indentation gives, one after the other, the blocks of
  the fields that a request is parsed with: per key the last field declared with it, where the
  key first appears, each with its items in order and its converter, and nothing else. The writer
  ends at the depth it began with.
\<close>

theorem TypedSpec_dump_reads_back:
  fixes sp :: "'i doc_tfield list"
  assumes "\<forall>f \<in> set sp. doc_ok (tf_key f) (tf_doc f)"
  shows "read_dump (w_os (TypedSpec_dump sp SpecDumpWriter_new)) =
      concat (map (\<lambda>f. doc_blocks (tf_key f) (tf_doc f)) (effective tf_key sp)) \<and>
    TypedSpec_parse init (map tfield.truncate sp) doc =
      (case parse_fields (map tfield.truncate (effective tf_key sp)) doc init of
         (doc', out, result) \<Rightarrow> (doc', omap (\<lambda>_. out) result)) \<and>
    w_indent (TypedSpec_dump sp SpecDumpWriter_new) = 0"
  using typed_dump.balanced [of SpecDumpWriter_new sp]
  by (simp add: TypedSpec_dump_blocks [OF assms] TypedSpec_parse_fields effective_map tf_key_truncate)

definition documented :: "'i tfield \<Rightarrow> field_doc \<Rightarrow> 'i doc_tfield" where
  "documented f d = tfield.extend f \<lparr>tf_doc = d\<rparr>"

lemma documented_simps [simp]:
  "tf_key (documented f d) = tf_key f" "tf_doc (documented f d) = d"
  "tfield.truncate (documented f d) = f"
  by (simp_all add: documented_def tfield.defs)

definition sample_docs :: "string option doc_tfield list" where
  "sample_docs =
     [documented (bound sample_field)
        (BoundDoc [HasKName ''default'' (Some (Default_describeParams (SText ''all'')))]
           (HasKName ''string'' None)),
      documented (ledgerSelector Clio sample_lib 1 (\<lambda>_ s. s)) LedgerSelectorDoc,
      documented (bound sample_field)
        (BoundDoc [dump_IfType TString [HasKName ''required'' None]] (HasKName ''string'' None))]"

theorem TypedSpec_dump_reads_back_witness:
  "read_dump (w_os (TypedSpec_dump sample_docs SpecDumpWriter_new)) =
     [Block ''- type:'' [Block ''- ifType:'' [Block ''type: \"string\"'' [], Block ''- required'' []],
        Block ''- string'' []],
      Block ''- ledger_hash:'' [Block ''- uint256Hex'' []],
      Block ''- ledger_index:''
        [Block ''- uint32 or shortcut (validated/current/closed)'' []]]"
proof -
  have "\<forall>f \<in> set sample_docs. doc_ok (tf_key f) (tf_doc f)"
    by (simp add: sample_docs_def bound_def sample_field_def ledgerSelector_def dump_IfType_def
        params_ok_def Default_describeParams_def IfType_describeParams_def line_ok_def
        starts_with_def nl_def space_def)
  from TypedSpec_dump_reads_back [OF this, of None "JObject []"] show ?thesis
    by (simp add: sample_docs_def bound_def sample_field_def ledgerSelector_def dump_IfType_def
        effective_def first_keys_def last_def_def params_blocks_def IfType_describeParams_def)
qed

text \<open>
  The text of a guarded field, line by line.
\<close>

lemma guarded_field_text:
  "w_os (BoundField_dump ''value''
       [HasKName ''ifAbsent'' (Some (IfAbsent_describeParams ''guard'')), HasKName ''deprecated'' None]
       (HasKName ''uint32'' None) SpecDumpWriter_new) =
     ''- value:'' @ [nl] @ ''  - ifAbsent:'' @ [nl] @ ''    key: \"guard\"'' @ [nl] @
     ''  - deprecated'' @ [nl] @ ''  - uint32'' @ [nl]"
  using dump_body.from_start [OF dump_body_BoundField]
  by (simp add: params_blocks_def IfAbsent_describeParams_def line_text_def space_def
      numeral_eq_Suc)

text \<open>
  A field with a parameterised item: two spaces per level and a colon after the item, where the
  comment of the writer shows four spaces and none.
\<close>

lemma parameterised_item_text:
  "w_os (dumpFieldSpec (DumpField ''signer_lists'' [HasKName ''type'' (Some (Type_describeParams TBool))])
       SpecDumpWriter_new) =
     ''- signer_lists:'' @ [nl] @ ''  - type:'' @ [nl] @ ''    of: \"bool\"'' @ [nl]"
  unfolding dump_field.from_start
  by (simp add: params_blocks_def Type_describeParams_def line_text_def space_def numeral_eq_Suc)

text \<open>
  The schema of the ledger selector names the shortcuts \<^verbatim>\<open>current\<close> and \<^verbatim>\<open>closed\<close> on both servers;
  Clio accepts neither.
\<close>

lemma selector_schema_overstates:
  "read_dump (w_os (LedgerSelectorField_dump SpecDumpWriter_new)) =
     [Block ''- ledger_hash:'' [Block ''- uint256Hex'' []],
      Block ''- ledger_index:'' [Block ''- uint32 or shortcut (validated/current/closed)'' []]] \<and>
   (\<forall>s \<in> {''current'', ''closed''}. \<exists>e. snd (snd
      (LedgerSelectorField_parseInto Clio xl assign (JObject [(''ledger_index'', JString s)]) out)) =
        Fail e)"
proof
  have "list_all block_ok (doc_blocks k LedgerSelectorDoc)" for k
    by (rule doc_blocks_ok) simp
  from read_dump_render [OF this] dump_body.from_start [OF dump_body_LedgerSelector]
  show "read_dump (w_os (LedgerSelectorField_dump SpecDumpWriter_new)) =
     [Block ''- ledger_hash:'' [Block ''- uint256Hex'' []],
      Block ''- ledger_index:'' [Block ''- uint32 or shortcut (validated/current/closed)'' []]]"
    by (simp add: params_blocks_def)
next
  show "\<forall>s \<in> {''current'', ''closed''}. \<exists>e. snd (snd
      (LedgerSelectorField_parseInto Clio xl assign (JObject [(''ledger_index'', JString s)]) out)) =
        Fail e"
    by (simp add: LedgerSelectorField_parseInto_def clioLedgerFromRequest_def Let_def root_child_def
        json_get_def present_def ledgerSpecifierFromIndex_string all_digits_def is_digit_def)
qed

end
