(* ===== verification/HandlersDump.thy ===== *)
theory HandlersDump
  imports RpcDump HandlersSubscribe HandlersAccount
begin

text \<open>
  Schemas of handlers: the streams a subscription documents, against the validator of the same
  item, and the whole schema of \<^verbatim>\<open>account_mptokens\<close>.
\<close>

section \<open>Streams\<close>

text \<open>\<^verbatim>\<open>StreamsValidator::describeParams\<close> of \<^verbatim>\<open>subscribe\<close> and \<^verbatim>\<open>unsubscribe\<close>.\<close>

definition StreamsValidator_describeParams :: "server \<Rightarrow> describe_call list" where
  "StreamsValidator_describeParams srv =
     [ParamList ''oneOf'' (map SText kCommon),
      (if kIsClioBuild srv then ParamList ''notSupported'' (map SText kNotSupported)
       else ParamList ''alsoAllowed'' (map SText kRippledExtra))]"

text \<open>The texts a schema lists under a parameter.\<close>

definition listed :: "string \<Rightarrow> describe_call list \<Rightarrow> string set" where
  "listed k cs = {s. \<exists>c \<in> set cs. case c of ParamList k' vs \<Rightarrow> k' = k \<and> SText s \<in> set vs | _ \<Rightarrow> False}"

lemma listed_two [simp]:
  "s \<in> listed k [ParamList a (map SText xs), ParamList b (map SText ys)] \<longleftrightarrow>
     (a = k \<and> s \<in> set xs) \<or> (b = k \<and> s \<in> set ys)"
  by (auto simp: listed_def)

lemma streams_disjoint: "s \<in> set kNotSupported \<Longrightarrow> s \<notin> set kCommon"
  by (auto simp: kNotSupported_def kCommon_def)

text \<open>
  The schema of the streams is exact: on both servers a name passes the validator if and only if
  it is listed as one of the streams or as also allowed, and the names listed as not supported are
  those rejected with that very error.
\<close>

theorem streams_schema_exact:
  "(stream_verify srv s = Ret () \<longleftrightarrow>
     s \<in> listed ''oneOf'' (StreamsValidator_describeParams srv) \<union>
       listed ''alsoAllowed'' (StreamsValidator_describeParams srv)) \<and>
   (stream_verify srv s = Fail (status_of (XrpldErr RpcNotSupported)) \<longleftrightarrow>
     s \<in> listed ''notSupported'' (StreamsValidator_describeParams srv))"
  using streams_disjoint [of s]
  by (cases srv) (auto simp: stream_verify_def StreamsValidator_describeParams_def status_of_def
      status_default_def)

section \<open>account_mptokens\<close>

text \<open>The spec of the handler with the names and parameters of its items and converters.\<close>

definition account_mptokens_docs ::
    "server \<Rightarrow> xrpl_lib \<Rightarrow> account_mptokens_Input doc_tfield list" where
  "account_mptokens_docs srv xl = map (\<lambda>(f, d). documented f d)
     (zip (account_mptokens_kInputSpec srv xl)
       [LedgerSelectorDoc,
        BoundDoc [HasKName ''required'' None] (HasKName ''account'' None),
        BoundDoc
          [HasKName ''type'' (Some (Type_describeParams TUint32)),
           HasKName ''min'' (Some (Min_describeParams (\<lambda>_. []) (NUint32 1))),
           HasKName ''clamp'' (Some (Clamp_describeParams (\<lambda>_. []) (NUint32 10) (NUint32 400))),
           HasKName ''default'' (Some (Default_describeParams (SInt 200)))]
          (HasKName ''uint32'' None),
        BoundDoc [HasKName ''accountMarker'' None] (HasKName ''string'' None),
        UnboundDoc [HasKName ''deprecated'' None]])"

lemma account_mptokens_docs_spec:
  "map tfield.truncate (account_mptokens_docs srv xl) = account_mptokens_kInputSpec srv xl"
  by (simp add: account_mptokens_docs_def account_mptokens_kInputSpec_def)

text \<open>The schema, as a reader of the text sees it; the same on both servers.\<close>

lemma account_mptokens_schema:
  "read_dump (w_os (TypedSpec_dump (account_mptokens_docs srv xl) SpecDumpWriter_new)) =
     [Block ''- ledger_hash:'' [Block ''- uint256Hex'' []],
      Block ''- ledger_index:'' [Block ''- uint32 or shortcut (validated/current/closed)'' []],
      Block ''- account:'' [Block ''- required'' [], Block ''- account'' []],
      Block ''- limit:''
        [Block ''- type:'' [Block ''of: \"uint32\"'' []],
         Block ''- min:'' [Block ''bound: 1'' []],
         Block ''- clamp:'' [Block ''lo: 10'' [], Block ''hi: 400'' []],
         Block ''- default:'' [Block ''value: 200'' []],
         Block ''- uint32'' []],
      Block ''- marker:'' [Block ''- accountMarker'' [], Block ''- string'' []],
      Block ''- ledger:'' [Block ''- deprecated'' []]]"
proof -
  note item_defs = Type_describeParams_def Min_describeParams_def Clamp_describeParams_def
    Default_describeParams_def
  have ok: "\<forall>f \<in> set (account_mptokens_docs srv xl). doc_ok (tf_key f) (tf_doc f)"
    by (simp add: account_mptokens_docs_def account_mptokens_kInputSpec_def ledgerSelector_def
        params_ok_def item_defs line_ok_def starts_with_def nl_def space_def)
  have eff: "effective tf_key (account_mptokens_docs srv xl) = account_mptokens_docs srv xl"
    by (simp add: account_mptokens_docs_def account_mptokens_kInputSpec_def effective_def
        first_keys_def last_def_def ledgerSelector_def)
  have digits: "int_text 1 = ''1''" "int_text 10 = ''10''" "int_text 400 = ''400''" "int_text 200 = ''200''"
    by code_simp+
  show ?thesis
    unfolding TypedSpec_dump_blocks [OF ok] eff
    by (simp add: account_mptokens_docs_def account_mptokens_kInputSpec_def ledgerSelector_def
        params_blocks_def item_defs digits)
qed

end
