(* ===== verification/AdmTypes.thy ===== *)
theory AdmTypes
  imports RpcPrelude
begin

text \<open>
  \<^verbatim>\<open>include/admissionspec/Types.hpp\<close>, \<^verbatim>\<open>AdmissionSpec.hpp\<close>, \<^verbatim>\<open>Resolver.hpp\<close> and
  \<^verbatim>\<open>PassthroughVisitor.hpp\<close>: decisions, traversal events, size ramps, tunables and the two stages of
  an admission spec. A cost is the real number its double denotes.

  The size ramp and the payload cap are the tunables every spec must have; further tunables of a
  spec are the type parameter \<open>'x\<close>. The configuration is an argument: the function
  \<^verbatim>\<open>maybeValue\<close> from a key to the override, per value type.
\<close>

section \<open>Decisions\<close>

datatype AdmissionAction = Admit | Drop

record AdmissionDecision =
  ad_action :: AdmissionAction
  ad_tokenCost :: real
  ad_reason :: string

definition admitted :: "AdmissionDecision \<Rightarrow> bool" where
  "admitted d = (ad_action d = Admit)"

definition dropped :: "AdmissionDecision \<Rightarrow> bool" where
  "dropped d = (ad_action d = Drop)"

definition decision_admit :: "real \<Rightarrow> AdmissionDecision" where
  "decision_admit cost = \<lparr>ad_action = Admit, ad_tokenCost = cost, ad_reason = []\<rparr>"

definition decision_drop :: "string \<Rightarrow> real \<Rightarrow> AdmissionDecision" where
  "decision_drop why cost = \<lparr>ad_action = Drop, ad_tokenCost = cost, ad_reason = why\<rparr>"

lemma decision_simps [simp]:
  "admitted (decision_admit c)" "\<not> dropped (decision_admit c)"
  "\<not> admitted (decision_drop w c)" "dropped (decision_drop w c)"
  "ad_tokenCost (decision_admit c) = c" "ad_tokenCost (decision_drop w c) = c"
  "ad_reason (decision_drop w c) = w" "ad_reason (decision_admit c) = []"
  by (simp_all add: admitted_def dropped_def decision_admit_def decision_drop_def)

lemma dropped_iff: "dropped d \<longleftrightarrow> \<not> admitted d"
  by (cases "ad_action d") (simp_all add: admitted_def dropped_def)

section \<open>Events\<close>

datatype EventKind =
    ObjectBegin | ObjectEnd | ArrayBegin | ArrayEnd | KeyPart | Key | StringPart | String
  | NumberPart | Int64 | Uint64 | Double | Bool | Null | CommentPart | Comment | Bytes

datatype event_value =
    VNone | VBool bool | VInt64 int64 | VUint64 uint64 | VDouble real | VText string
  | VBytes "8 word list"

record VisitEvent =
  ev_kind :: EventKind
  ev_key :: string
  ev_size :: nat
  ev_depth :: uint32
  ev_fieldNumber :: uint64
  ev_value :: event_value

text \<open>The member initialisers; \<^verbatim>\<open>fieldNumber\<close> starts at its maximum, "not applicable".\<close>

definition event_default :: VisitEvent where
  "event_default = \<lparr>ev_kind = Null, ev_key = [], ev_size = 0, ev_depth = 0,
                    ev_fieldNumber = - 1, ev_value = VNone\<rparr>"

text \<open>
  A check carries state from one event of a message to the next; a visitor returns its decision
  and the check it leaves.
\<close>

type_synonym 's checker = "'s \<Rightarrow> VisitEvent \<Rightarrow> 's \<times> AdmissionDecision"

definition visitPassthrough ::
    "'s checker \<Rightarrow> 's \<Rightarrow> 8 word list \<Rightarrow> 's \<times> AdmissionDecision" where
  "visitPassthrough check s bytes =
     check s (event_default\<lparr>ev_kind := Bytes, ev_value := VBytes bytes\<rparr>)"

section \<open>Size ramps\<close>

record SizeTier =
  tier_upToBytes :: uint64
  tier_cost :: real

fun cost_from :: "SizeTier list \<Rightarrow> uint64 \<Rightarrow> real option" where
  "cost_from [] bytes = None"
| "cost_from (tier # tiers) bytes =
     (if bytes \<le> tier_upToBytes tier then Some (tier_cost tier) else cost_from tiers bytes)"

definition costFor :: "SizeTier list \<Rightarrow> uint64 \<Rightarrow> real" where
  "costFor tiers bytes =
     (case cost_from tiers bytes of
        Some c \<Rightarrow> c
      | None \<Rightarrow> if tiers = [] then 0 else tier_cost (last tiers))"

section \<open>Tunables\<close>

record 'a tunable =
  tn_name :: string
  tn_default :: 'a
  tn_configKey :: string

record 'x resolved_tunables =
  rt_size_ramp :: "SizeTier list"
  rt_max_payload_bytes :: uint64
  rt_others :: 'x

record ('x, 's) AdmissionSpec =
  sp_size_ramp :: "SizeTier list tunable"
  sp_max_payload_bytes :: "uint64 tunable"
  sp_others :: 'x
  sp_check :: "('s \<times> ('x resolved_tunables \<Rightarrow> 's checker)) option"

definition resolveDefaults :: "('x, 's) AdmissionSpec \<Rightarrow> 'x resolved_tunables" where
  "resolveDefaults sp =
     \<lparr>rt_size_ramp = tn_default (sp_size_ramp sp),
      rt_max_payload_bytes = tn_default (sp_max_payload_bytes sp),
      rt_others = sp_others sp\<rparr>"

text \<open>\<^verbatim>\<open>detail::resolveOne\<close>, for a scalar and for the ramp.\<close>

definition resolveOne_scalar :: "(string \<Rightarrow> 'a option) \<Rightarrow> 'a tunable \<Rightarrow> 'a" where
  "resolveOne_scalar maybeValue tn =
     (case maybeValue (tn_configKey tn) of Some value \<Rightarrow> value | None \<Rightarrow> tn_default tn)"

definition resolveOne_ramp ::
    "(string \<Rightarrow> (uint64 \<times> real) list option) \<Rightarrow> SizeTier list tunable \<Rightarrow> SizeTier list" where
  "resolveOne_ramp maybeValue tn =
     (let tiers = (case maybeValue (tn_configKey tn) of
          Some arr \<Rightarrow> map (\<lambda>(b, c). \<lparr>tier_upToBytes = b, tier_cost = c\<rparr>) arr
        | None \<Rightarrow> [])
      in if tiers = [] then tn_default tn else tiers)"

definition resolve ::
    "('x, 's) AdmissionSpec \<Rightarrow> (string \<Rightarrow> uint64 option) \<Rightarrow>
     (string \<Rightarrow> (uint64 \<times> real) list option) \<Rightarrow> ('x \<Rightarrow> 'x) \<Rightarrow> 'x resolved_tunables" where
  "resolve sp config_u64 config_ramp config_others =
     \<lparr>rt_size_ramp = resolveOne_ramp config_ramp (sp_size_ramp sp),
      rt_max_payload_bytes = resolveOne_scalar config_u64 (sp_max_payload_bytes sp),
      rt_others = config_others (sp_others sp)\<rparr>"

section \<open>The stages\<close>

definition preAdmit :: "8 word list \<Rightarrow> 'x resolved_tunables \<Rightarrow> AdmissionDecision" where
  "preAdmit payload cfg =
     (let cost = costFor (rt_size_ramp cfg) (word_of_nat (length payload))
      in if unat (rt_max_payload_bytes cfg) < length payload
         then decision_drop ''payload exceeds max bytes for this type'' cost
         else decision_admit cost)"

text \<open>
  \<^verbatim>\<open>makeChecker\<close>: a copy of the spec's check with its initial state, or the check that admits
  everything at no cost.
\<close>

definition makeChecker ::
    "('x, 's) AdmissionSpec \<Rightarrow> 's \<Rightarrow> 'x resolved_tunables \<Rightarrow> 's \<times> 's checker" where
  "makeChecker sp dflt cfg =
     (case sp_check sp of
        None \<Rightarrow> (dflt, \<lambda>s ev. (s, decision_admit 0))
      | Some (s0, check) \<Rightarrow> (s0, check cfg))"

section \<open>Costs\<close>

lemma cost_from_eq:
  "cost_from tiers b = map_option tier_cost (find (\<lambda>t. b \<le> tier_upToBytes t) tiers)"
  by (induction tiers) auto

lemma cost_from_set: "cost_from tiers b = Some c \<Longrightarrow> c \<in> tier_cost ` set tiers"
  by (induction tiers) (auto split: if_splits)

lemma cost_from_mono:
  assumes "sorted (map tier_cost tiers)" and "b \<le> b'" and "cost_from tiers b' = Some c'"
  shows "\<exists>c. cost_from tiers b = Some c \<and> c \<le> c'"
  using assms
proof (induction tiers)
  case (Cons t ts)
  then show ?case
    using cost_from_set [of ts b' c'] by (auto split: if_splits)
qed simp

lemma cost_from_le_last:
  assumes "sorted (map tier_cost tiers)" and "cost_from tiers b = Some c"
  shows "c \<le> tier_cost (last tiers)"
proof -
  obtain t where t: "t \<in> set tiers" "c = tier_cost t" using cost_from_set [OF assms(2)] by blast
  then have ne: "map tier_cost tiers \<noteq> []" by auto
  have "tier_cost t \<le> last (map tier_cost tiers)"
    using assms(1) t ne by (auto simp: last_conv_nth in_set_conv_nth sorted_iff_nth_mono)
  with ne t show ?thesis by (simp add: last_map)
qed

section \<open>Properties\<close>

text \<open>
  When the costs of a ramp do not decrease from tier to tier, a larger payload never costs
  less, whatever the tiers' bounds and also beyond the last of them.
\<close>

theorem costFor_monotone:
  assumes "sorted (map tier_cost tiers)" and "bytes \<le> bytes'"
  shows "costFor tiers bytes \<le> costFor tiers bytes'"
proof (cases "cost_from tiers bytes'")
  case (Some c')
  with cost_from_mono [OF assms Some] show ?thesis by (auto simp: costFor_def)
next
  case None
  then show ?thesis
    using cost_from_le_last [OF assms(1), of bytes]
    by (auto simp: costFor_def split: option.split)
qed

theorem costFor_monotone_witness:
  "costFor [\<lparr>tier_upToBytes = 256, tier_cost = 1\<rparr>, \<lparr>tier_upToBytes = 1024, tier_cost = 4\<rparr>] 100 \<le>
   costFor [\<lparr>tier_upToBytes = 256, tier_cost = 1\<rparr>, \<lparr>tier_upToBytes = 1024, tier_cost = 4\<rparr>] 5000"
  by (rule costFor_monotone) (simp_all add: word_le_nat_alt)

text \<open>
  The first stage drops a payload exactly when it is longer than the resolved cap, and carries
  the payload's ramp cost either way, so that an oversized message is charged as well.
\<close>

lemma preAdmit_spec:
  "(dropped (preAdmit payload cfg) \<longleftrightarrow> unat (rt_max_payload_bytes cfg) < length payload) \<and>
   ad_tokenCost (preAdmit payload cfg) = costFor (rt_size_ramp cfg) (word_of_nat (length payload))"
  by (simp add: preAdmit_def Let_def)

text \<open>
  Resolving a ramp never leaves a spec without one: an override replaces the default only when
  it has a tier, and then entirely, tier by tier in its order.
\<close>

theorem resolve_ramp:
  assumes "tn_default (sp_size_ramp sp) \<noteq> []"
  shows "rt_size_ramp (resolve sp cu cr co) \<noteq> [] \<and>
    rt_size_ramp (resolve sp cu cr co) =
      (case cr (tn_configKey (sp_size_ramp sp)) of
         Some (t # ts) \<Rightarrow> map (\<lambda>(b, c). \<lparr>tier_upToBytes = b, tier_cost = c\<rparr>) (t # ts)
       | _ \<Rightarrow> rt_size_ramp (resolveDefaults sp))"
  using assms
  by (auto simp: resolve_def resolveOne_ramp_def resolveDefaults_def Let_def
      split: option.split list.split)

definition sample_spec :: "(unit, unit) AdmissionSpec" where
  "sample_spec = \<lparr>sp_size_ramp = \<lparr>tn_name = ''size_ramp'',
       tn_default = [\<lparr>tier_upToBytes = 256, tier_cost = 1\<rparr>], tn_configKey = ''ramp''\<rparr>,
     sp_max_payload_bytes = \<lparr>tn_name = ''max_payload_bytes'', tn_default = 1024, tn_configKey = ''cap''\<rparr>,
     sp_others = (), sp_check = None\<rparr>"

theorem resolve_ramp_witness:
  "rt_size_ramp (resolve sample_spec (\<lambda>k. None) (\<lambda>k. Some []) id) =
     [\<lparr>tier_upToBytes = 256, tier_cost = 1\<rparr>]"
  using resolve_ramp [of sample_spec "\<lambda>k. None" "\<lambda>k. Some []" id]
  by (simp add: sample_spec_def resolveDefaults_def)

end
