(* ===== verification/AdmBucket.thy ===== *)
theory AdmBucket
  imports AdmTypes
begin

text \<open>
  \<^verbatim>\<open>include/admissionspec/folly/TokenBucket.hpp\<close> and the adapter \<^verbatim>\<open>include/admissionspec/TokenBucket.hpp\<close>.
  A bucket stores one time, from which its tokens are derived. Doubles are the real numbers they
  denote, with exact arithmetic; a \<^verbatim>\<open>steady_clock\<close> time point is its count of nanoseconds. The
  compare-and-exchange loops are modelled by the iteration that succeeds, which the atomic makes
  the only one with an effect.
\<close>

section \<open>Storage and the dynamic bucket\<close>

definition storage_balance :: "real \<Rightarrow> real \<Rightarrow> real \<Rightarrow> real \<Rightarrow> real" where
  "storage_balance zeroTime rate burstSize nowInSeconds =
     min ((nowInSeconds - zeroTime) * rate) burstSize"

text \<open>The new zero time with the amount consumed.\<close>

definition storage_consume ::
    "real \<Rightarrow> real \<Rightarrow> real \<Rightarrow> real \<Rightarrow> (real \<Rightarrow> real) \<Rightarrow> real \<times> real" where
  "storage_consume zeroTime rate burstSize nowInSeconds callback =
     (let tokens = min ((nowInSeconds - zeroTime) * rate) burstSize;
          consumed = callback tokens;
          tokensNew = tokens - consumed
      in if consumed = 0 then (zeroTime, consumed)
         else (nowInSeconds - tokensNew / rate, consumed))"

definition dynamic_consume :: "real \<Rightarrow> real \<Rightarrow> real \<Rightarrow> real \<Rightarrow> real \<Rightarrow> real \<times> bool" where
  "dynamic_consume zeroTime toConsume rate burstSize nowInSeconds =
     (if storage_balance zeroTime rate burstSize nowInSeconds < 0 then (zeroTime, False)
      else
        (case storage_consume zeroTime rate burstSize nowInSeconds
            (\<lambda>available. if available < toConsume then 0 else toConsume) of
          (zeroTime', consumed) \<Rightarrow> (zeroTime', consumed = toConsume)))"

definition dynamic_consumeOrDrain :: "real \<Rightarrow> real \<Rightarrow> real \<Rightarrow> real \<Rightarrow> real \<Rightarrow> real \<times> real" where
  "dynamic_consumeOrDrain zeroTime toConsume rate burstSize nowInSeconds =
     (if storage_balance zeroTime rate burstSize nowInSeconds \<le> 0 then (zeroTime, 0)
      else storage_consume zeroTime rate burstSize nowInSeconds (\<lambda>available. min available toConsume))"

definition storage_returnTokens :: "real \<Rightarrow> real \<Rightarrow> real \<Rightarrow> real" where
  "storage_returnTokens zeroTime tokensToReturn rate = zeroTime - tokensToReturn / rate"

section \<open>The adapter\<close>

record token_bucket =
  tb_zeroTime :: real
  tb_rate :: real
  tb_burst :: real

definition toSeconds :: "int \<Rightarrow> real" where
  "toSeconds tp = of_int tp / 10 ^ 9"

definition fullStartZeroTime :: "real \<Rightarrow> real \<Rightarrow> real \<Rightarrow> real" where
  "fullStartZeroTime capacity refillRatePerSecond nowSeconds =
     (if refillRatePerSecond \<le> 0 then nowSeconds
      else nowSeconds - capacity / refillRatePerSecond)"

definition TokenBucket_new :: "real \<Rightarrow> real \<Rightarrow> int \<Rightarrow> token_bucket" where
  "TokenBucket_new capacity refillRatePerSecond now =
     \<lparr>tb_zeroTime = fullStartZeroTime capacity refillRatePerSecond (toSeconds now),
      tb_rate = refillRatePerSecond, tb_burst = capacity\<rparr>"

definition tryConsume :: "real \<Rightarrow> int \<Rightarrow> token_bucket \<Rightarrow> token_bucket \<times> bool" where
  "tryConsume cost now b =
     (if cost \<le> 0 then (b, True)
      else
        (case dynamic_consume (tb_zeroTime b) cost (tb_rate b) (tb_burst b) (toSeconds now) of
          (zeroTime', ok) \<Rightarrow> (b\<lparr>tb_zeroTime := zeroTime'\<rparr>, ok)))"

definition available :: "int \<Rightarrow> token_bucket \<Rightarrow> real" where
  "available now b = max 0 (storage_balance (tb_zeroTime b) (tb_rate b) (tb_burst b) (toSeconds now))"

text \<open>The asserted preconditions: \<^verbatim>\<open>rate > 0\<close> and \<^verbatim>\<open>burstSize > 0\<close>.\<close>

definition bucket_ok :: "token_bucket \<Rightarrow> bool" where
  "bucket_ok b = (0 < tb_rate b \<and> 0 < tb_burst b)"

section \<open>The contract of a token source\<close>

text \<open>
  Requests in order, each a cost and the time it arrives at: \<open>run_requests\<close> is the state they
  leave and the total cost that passed. What a limiter relies on: a source holds at most its capacity, gains at most its rate per
  second, and a positive cost passes exactly when it is covered and is then debited.
\<close>

fun run_requests ::
    "(real \<Rightarrow> int \<Rightarrow> 'b \<Rightarrow> 'b \<times> bool) \<Rightarrow> (real \<times> int) list \<Rightarrow> 'b \<Rightarrow> 'b \<times> real" where
  "run_requests consume [] b = (b, 0)"
| "run_requests consume ((c, t) # rs) b =
     (case consume c t b of (b', ok) \<Rightarrow>
        (case run_requests consume rs b' of (b'', passed) \<Rightarrow>
           (b'', (if ok then max 0 c else 0) + passed)))"

locale token_source =
  fixes consume :: "real \<Rightarrow> int \<Rightarrow> 'b \<Rightarrow> 'b \<times> bool"
    and tokens :: "int \<Rightarrow> 'b \<Rightarrow> real"
    and rate :: "'b \<Rightarrow> real"
    and cap :: "'b \<Rightarrow> real"
    and good :: "'b \<Rightarrow> bool"
  assumes consume_iff: "good b \<Longrightarrow> 0 < c \<Longrightarrow> snd (consume c t b) \<longleftrightarrow> c \<le> tokens t b"
    and consume_free: "c \<le> 0 \<Longrightarrow> consume c t b = (b, True)"
    and consume_debits: "good b \<Longrightarrow> 0 < c \<Longrightarrow> snd (consume c t b) \<Longrightarrow>
      tokens t (fst (consume c t b)) = tokens t b - c"
    and consume_fails: "good b \<Longrightarrow> \<not> snd (consume c t b) \<Longrightarrow> fst (consume c t b) = b"
    and consume_frame: "good b \<Longrightarrow> good (fst (consume c t b)) \<and>
      rate (fst (consume c t b)) = rate b \<and> cap (fst (consume c t b)) = cap b"
    and tokens_cap: "good b \<Longrightarrow> tokens t b \<le> cap b"
    and refill: "good b \<Longrightarrow> t \<le> t' \<Longrightarrow>
      tokens t' b \<le> tokens t b + rate b * (toSeconds t' - toSeconds t)"
    and tokens_nonneg: "0 \<le> tokens t b"
begin

lemma run_bound:
  assumes "good b" and "sorted (t0 # map snd rs)"
  shows "snd (run_requests consume rs b) \<le> tokens t0 b + rate b * (toSeconds (last (t0 # map snd rs)) - toSeconds t0)"
  using assms
proof (induction rs arbitrary: b t0)
  case Nil
  then show ?case using tokens_nonneg by simp
next
  case (Cons r rs)
  obtain c t where r: "r = (c, t)" by fastforce
  obtain b' ok where e: "consume c t b = (b', ok)" by fastforce
  have le: "t0 \<le> t" and s: "sorted (t # map snd rs)" using Cons.prems r by auto
  have g: "good b'" "rate b' = rate b" using consume_frame [OF Cons.prems(1), of c t] e by auto
  have step: "(if ok then max 0 c else 0) + tokens t b' \<le> tokens t b"
  proof (cases "0 < c")
    case True
    then show ?thesis
      using consume_debits [OF Cons.prems(1) True, of t] consume_fails [OF Cons.prems(1), of c t] e
      by (cases ok) auto
  next
    case False
    then show ?thesis using consume_free [of c t b] e by auto
  qed
  have "snd (run_requests consume rs b') \<le>
      tokens t b' + rate b * (toSeconds (last (t # map snd rs)) - toSeconds t)"
    using Cons.IH [OF g(1) s] g(2) by simp
  moreover have "tokens t b \<le> tokens t0 b + rate b * (toSeconds t - toSeconds t0)"
    by (rule refill [OF Cons.prems(1) le])
  moreover have "snd (run_requests consume (r # rs) b) = (if ok then max 0 c else 0) + snd (run_requests consume rs b')"
    using r e by (simp split: prod.split)
  ultimately show ?case
    using step r by (simp add: algebra_simps)
qed

lemma run_bound_cap:
  assumes "good b" and "sorted (t0 # map snd rs)"
  shows "snd (run_requests consume rs b) \<le> cap b + rate b * (toSeconds (last (t0 # map snd rs)) - toSeconds t0)"
  using run_bound [OF assms] tokens_cap [OF assms(1), of t0] by linarith

end

section \<open>The model's bucket is a token source\<close>

lemma tryConsume_pos:
  assumes "bucket_ok b" and "0 < cost"
  shows "tryConsume cost now b =
    (if cost \<le> available now b
     then (b\<lparr>tb_zeroTime := toSeconds now - (available now b - cost) / tb_rate b\<rparr>, True)
     else (b, False))"
  using assms
  by (auto simp: tryConsume_def dynamic_consume_def storage_consume_def storage_balance_def
      available_def bucket_ok_def Let_def)

lemma toSeconds_mono: "t \<le> t' \<Longrightarrow> toSeconds t \<le> toSeconds t'"
  by (simp add: toSeconds_def divide_right_mono)

interpretation bucket: token_source tryConsume available tb_rate tb_burst bucket_ok
proof
  fix b :: token_bucket and c :: real and t t' :: int
  show "bucket_ok b \<Longrightarrow> 0 < c \<Longrightarrow> snd (tryConsume c t b) \<longleftrightarrow> c \<le> available t b"
    by (simp add: tryConsume_pos)
  show "c \<le> 0 \<Longrightarrow> tryConsume c t b = (b, True)"
    by (simp add: tryConsume_def)
  show "bucket_ok b \<Longrightarrow> available t b \<le> tb_burst b"
    by (simp add: available_def storage_balance_def bucket_ok_def)
  then show "bucket_ok b \<Longrightarrow> 0 < c \<Longrightarrow> snd (tryConsume c t b) \<Longrightarrow>
      available t (fst (tryConsume c t b)) = available t b - c"
    by (simp add: tryConsume_pos split: if_splits)
      (simp add: available_def [of _ "b\<lparr>tb_zeroTime := _\<rparr>"] storage_balance_def bucket_ok_def)
  show "bucket_ok b \<Longrightarrow> \<not> snd (tryConsume c t b) \<Longrightarrow> fst (tryConsume c t b) = b"
  proof (cases "0 < c")
    case True
    then show "bucket_ok b \<Longrightarrow> \<not> snd (tryConsume c t b) \<Longrightarrow> ?thesis"
      by (simp add: tryConsume_pos split: if_splits)
  next
    case False
    then show "bucket_ok b \<Longrightarrow> \<not> snd (tryConsume c t b) \<Longrightarrow> ?thesis"
      by (simp add: tryConsume_def)
  qed
  show "bucket_ok b \<Longrightarrow> bucket_ok (fst (tryConsume c t b)) \<and>
      tb_rate (fst (tryConsume c t b)) = tb_rate b \<and> tb_burst (fst (tryConsume c t b)) = tb_burst b"
    by (auto simp: tryConsume_def bucket_ok_def split: prod.split)
  show "0 \<le> available t b" by (simp add: available_def)
  show "available t' b \<le> available t b + tb_rate b * (toSeconds t' - toSeconds t)"
    if "bucket_ok b" "t \<le> t'"
  proof -
    have "0 \<le> tb_rate b * (toSeconds t' - toSeconds t)"
      using that toSeconds_mono by (simp add: bucket_ok_def)
    then show ?thesis
      by (simp add: available_def storage_balance_def algebra_simps)
  qed
qed

section \<open>Properties\<close>

text \<open>
  The rate limit holds over every window. Whatever costs are asked for, at whatever times in
  order, and whatever state the bucket was in, the cost that passes between a time and the last
  request is at most the burst size plus the rate times the time between.
\<close>

theorem token_bucket_rate_limit:
  assumes "0 < tb_rate b" and "0 < tb_burst b" and "sorted (t0 # map snd rs)"
  shows "snd (run_requests tryConsume rs b) \<le>
    tb_burst b + tb_rate b * (toSeconds (last (t0 # map snd rs)) - toSeconds t0)"
  by (rule bucket.run_bound_cap) (use assms in \<open>simp_all add: bucket_ok_def\<close>)

theorem token_bucket_rate_limit_witness:
  "snd (run_requests tryConsume [(4, 0), (4, 1000000000), (4, 2000000000)] (TokenBucket_new 5 1 0)) \<le> 7"
  using token_bucket_rate_limit [of "TokenBucket_new 5 1 0" 0
      "[(4, 0), (4, 1000000000), (4, 2000000000)]"]
  by (simp add: TokenBucket_new_def toSeconds_def)

text \<open>
  A new bucket is full, and a request passes exactly when its cost is covered by the tokens
  available at its time; passing debits exactly the cost and failing changes nothing.
\<close>

theorem tryConsume_spec:
  assumes "0 < rate" and "0 < capacity" and "0 < cost" and "b = TokenBucket_new capacity rate now"
    and "(b', ok) = tryConsume cost t b"
  shows "available now b = capacity \<and> ok = (cost \<le> available t b) \<and>
    available t b' = (if ok then available t b - cost else available t b)"
proof -
  have g: "bucket_ok b" using assms(1,2,4) by (simp add: bucket_ok_def TokenBucket_new_def)
  have full: "available now b = capacity"
    using assms(1,2,4)
    by (simp add: available_def TokenBucket_new_def storage_balance_def fullStartZeroTime_def)
  have b': "b' = fst (tryConsume cost t b)" "ok = snd (tryConsume cost t b)"
    using assms(5) by (metis fst_conv, metis snd_conv)
  then show ?thesis
    using full bucket.consume_iff [OF g assms(3), of t] bucket.consume_debits [OF g assms(3), of t]
      bucket.consume_fails [OF g, of cost t] by auto
qed

theorem tryConsume_spec_witness:
  "snd (tryConsume 3 0 (TokenBucket_new 5 1 0)) \<and> \<not> snd (tryConsume 6 0 (TokenBucket_new 5 1 0))"
  using tryConsume_spec [of 1 5 3 "TokenBucket_new 5 1 0" 0 "fst (tryConsume 3 0 (TokenBucket_new 5 1 0))"
      "snd (tryConsume 3 0 (TokenBucket_new 5 1 0))" 0]
    tryConsume_spec [of 1 5 6 "TokenBucket_new 5 1 0" 0 "fst (tryConsume 6 0 (TokenBucket_new 5 1 0))"
      "snd (tryConsume 6 0 (TokenBucket_new 5 1 0))" 0]
  by simp

text \<open>A bucket that no request of its past has overdrawn.\<close>

definition caught_up :: "int \<Rightarrow> token_bucket \<Rightarrow> bool" where
  "caught_up t b = (tb_zeroTime b \<le> toSeconds t)"

lemma caught_up_new: "bucket_ok (TokenBucket_new c r t) \<Longrightarrow> caught_up t (TokenBucket_new c r t)"
  by (simp add: caught_up_def TokenBucket_new_def bucket_ok_def fullStartZeroTime_def)

lemma caught_up_mono: "caught_up t b \<Longrightarrow> t \<le> t' \<Longrightarrow> caught_up t' b"
  using toSeconds_mono [of t t'] by (simp add: caught_up_def)

lemma caught_up_consume:
  assumes "bucket_ok b" and "caught_up t b"
  shows "caught_up t (fst (tryConsume c t b))"
proof (cases "0 < c")
  case True
  have "0 < tb_rate b" using assms(1) by (simp add: bucket_ok_def)
  with assms True show ?thesis
    by (simp add: tryConsume_pos caught_up_def split: if_splits)
next
  case False
  then show ?thesis using assms(2) by (simp add: tryConsume_def)
qed

lemma caught_up_run:
  assumes "bucket_ok b" and "caught_up t0 b" and "sorted (t0 # map snd rs)"
  shows "bucket_ok (fst (run_requests tryConsume rs b)) \<and>
    tb_rate (fst (run_requests tryConsume rs b)) = tb_rate b \<and>
    tb_burst (fst (run_requests tryConsume rs b)) = tb_burst b \<and>
    caught_up (last (t0 # map snd rs)) (fst (run_requests tryConsume rs b))"
  using assms
proof (induction rs arbitrary: b t0)
  case (Cons r rs)
  obtain c t where r: "r = (c, t)" by fastforce
  let ?b = "fst (tryConsume c t b)"
  have "bucket_ok ?b \<and> tb_rate ?b = tb_rate b \<and> tb_burst ?b = tb_burst b"
    using bucket.consume_frame [OF Cons.prems(1)] by blast
  moreover have "caught_up t ?b"
    using Cons.prems r by (intro caught_up_consume caught_up_mono [of t0 b t]) auto
  moreover have "sorted (t # map snd rs)" using Cons.prems r by simp
  moreover have "fst (run_requests tryConsume (r # rs) b) = fst (run_requests tryConsume rs ?b)"
    by (simp add: r split: prod.split)
  moreover have "last (t0 # map snd (r # rs)) = last (t # map snd rs)"
    by (simp add: r)
  ultimately show ?case
    using Cons.IH [of ?b t] by metis
qed simp

text \<open>
  C29: a client that waits is served. From any state a bucket reaches by requests up to some time,
  a cost of at most the burst size passes once the bucket has been left alone for the time the
  rate takes to earn it.
\<close>

theorem waiting_client_is_served:
  assumes "0 < rate" and "0 < capacity" and "sorted (now # map snd rs)"
    and "0 < cost" and "cost \<le> capacity"
    and "toSeconds (last (now # map snd rs)) + cost / rate \<le> toSeconds t"
  shows "snd (tryConsume cost t
    (fst (run_requests tryConsume rs (TokenBucket_new capacity rate now))))"
proof -
  let ?b = "fst (run_requests tryConsume rs (TokenBucket_new capacity rate now))"
  have g: "bucket_ok (TokenBucket_new capacity rate now)"
    using assms(1,2) by (simp add: bucket_ok_def TokenBucket_new_def)
  note r = caught_up_run [OF g caught_up_new [OF g] assms(3)]
  then have b: "bucket_ok ?b" "tb_rate ?b = rate" "tb_burst ?b = capacity"
    by (simp_all add: TokenBucket_new_def)
  have "cost / rate \<le> toSeconds t - tb_zeroTime ?b"
    using r assms(6) by (simp add: caught_up_def)
  then have "cost \<le> (toSeconds t - tb_zeroTime ?b) * rate"
    using assms(1) by (simp add: pos_divide_le_eq)
  then have "cost \<le> available t ?b"
    using b assms(5) by (simp add: available_def storage_balance_def)
  then show ?thesis using bucket.consume_iff [OF b(1) assms(4), of t] by simp
qed

theorem waiting_client_is_served_witness:
  "snd (tryConsume 2 3000000000 (fst (run_requests tryConsume [(5, 0), (5, 1000000000)]
     (TokenBucket_new 5 1 0))))"
  by (rule waiting_client_is_served) (simp_all add: toSeconds_def)

end
