(* ===== verification/AdmBorrow.thy ===== *)
theory AdmBorrow
  imports AdmBucket
begin

text \<open>
  The rest of the API of \<^verbatim>\<open>include/admissionspec/folly/TokenBucket.hpp\<close>: setting and returning tokens,
  and borrowing from the future. \<^verbatim>\<open>BasicTokenBucket\<close> is the record \<open>token_bucket\<close> of \<open>AdmBucket\<close>. The
  borrowing loop is a partial function; that it returns, and within two rounds, is a theorem.
\<close>

section \<open>Storage and the dynamic bucket\<close>

definition timeWhenBucket :: "real \<Rightarrow> real \<Rightarrow> real \<Rightarrow> real" where
  "timeWhenBucket zeroTime rate target = zeroTime + target / rate"

text \<open>The loop of \<^verbatim>\<open>consumeWithBorrowNonBlocking\<close>: the zero time and the time to wait.\<close>

partial_function (option) borrow_loop ::
    "real \<Rightarrow> real \<Rightarrow> real \<Rightarrow> real \<Rightarrow> real \<Rightarrow> (real \<times> real) option" where
  "borrow_loop zeroTime toConsume rate burstSize nowInSeconds =
     (if 0 < toConsume then
        (let (zeroTime', consumed) =
           dynamic_consumeOrDrain zeroTime toConsume rate burstSize nowInSeconds
         in if 0 < consumed
            then borrow_loop zeroTime' (toConsume - consumed) rate burstSize nowInSeconds
            else
              (let zeroTime'' = storage_returnTokens zeroTime' (- toConsume) rate;
                   debtPaid = timeWhenBucket zeroTime'' rate 0
               in Some (zeroTime'', max 0 (debtPaid - nowInSeconds))))
      else Some (zeroTime, 0))"

text \<open>The outer \<open>option\<close> is the return of the call, the inner one the \<^verbatim>\<open>std::optional\<close> it returns.\<close>

definition dynamic_borrow :: "real \<Rightarrow> real \<Rightarrow> real \<Rightarrow> real \<Rightarrow> real \<Rightarrow> (real \<times> real option) option" where
  "dynamic_borrow zeroTime toConsume rate burstSize nowInSeconds =
     (if burstSize < toConsume then Some (zeroTime, None)
      else map_option (\<lambda>(z, nap). (z, Some nap))
        (borrow_loop zeroTime toConsume rate burstSize nowInSeconds))"

definition dynamic_available :: "real \<Rightarrow> real \<Rightarrow> real \<Rightarrow> real \<Rightarrow> real" where
  "dynamic_available zeroTime rate burstSize nowInSeconds =
     max 0 (storage_balance zeroTime rate burstSize nowInSeconds)"

section \<open>The bucket with a fixed rate and burst\<close>

definition basic_new :: "real \<Rightarrow> real \<Rightarrow> real \<Rightarrow> token_bucket" where
  "basic_new genRate burstSize zeroTime =
     \<lparr>tb_zeroTime = zeroTime, tb_rate = genRate, tb_burst = burstSize\<rparr>"

definition basic_balance :: "real \<Rightarrow> token_bucket \<Rightarrow> real" where
  "basic_balance now b = storage_balance (tb_zeroTime b) (tb_rate b) (tb_burst b) now"

definition basic_available :: "real \<Rightarrow> token_bucket \<Rightarrow> real" where
  "basic_available now b = max 0 (basic_balance now b)"

definition basic_setCapacity :: "real \<Rightarrow> real \<Rightarrow> token_bucket \<Rightarrow> token_bucket" where
  "basic_setCapacity tokens now b = b\<lparr>tb_zeroTime := now - tokens / tb_rate b\<rparr>"

definition basic_reset :: "real \<Rightarrow> real \<Rightarrow> real \<Rightarrow> token_bucket \<Rightarrow> token_bucket" where
  "basic_reset genRate burstSize now b =
     (let availTokens = basic_available now b
      in basic_setCapacity availTokens now (b\<lparr>tb_rate := genRate, tb_burst := burstSize\<rparr>))"

definition basic_consume :: "real \<Rightarrow> real \<Rightarrow> token_bucket \<Rightarrow> token_bucket \<times> bool" where
  "basic_consume toConsume now b =
     (case dynamic_consume (tb_zeroTime b) toConsume (tb_rate b) (tb_burst b) now of
        (z, ok) \<Rightarrow> (b\<lparr>tb_zeroTime := z\<rparr>, ok))"

definition basic_consumeOrDrain :: "real \<Rightarrow> real \<Rightarrow> token_bucket \<Rightarrow> token_bucket \<times> real" where
  "basic_consumeOrDrain toConsume now b =
     (case dynamic_consumeOrDrain (tb_zeroTime b) toConsume (tb_rate b) (tb_burst b) now of
        (z, consumed) \<Rightarrow> (b\<lparr>tb_zeroTime := z\<rparr>, consumed))"

definition basic_returnTokens :: "real \<Rightarrow> token_bucket \<Rightarrow> token_bucket" where
  "basic_returnTokens tokensToReturn b =
     b\<lparr>tb_zeroTime := storage_returnTokens (tb_zeroTime b) tokensToReturn (tb_rate b)\<rparr>"

definition basic_borrow :: "real \<Rightarrow> real \<Rightarrow> token_bucket \<Rightarrow> (token_bucket \<times> real option) option" where
  "basic_borrow toConsume now b =
     map_option (\<lambda>(z, res). (b\<lparr>tb_zeroTime := z\<rparr>, res))
       (dynamic_borrow (tb_zeroTime b) toConsume (tb_rate b) (tb_burst b) now)"

text \<open>
  The blocking form: whether the reservation was made and the microseconds slept, the cast
  dropping the fraction.
\<close>

definition basic_borrowAndWait ::
    "real \<Rightarrow> real \<Rightarrow> token_bucket \<Rightarrow> (token_bucket \<times> bool \<times> int) option" where
  "basic_borrowAndWait toConsume now b =
     map_option (\<lambda>(b', res).
         (b', res \<noteq> None,
          case res of Some nap \<Rightarrow> if 0 < nap then \<lfloor>nap * 1000000\<rfloor> else 0 | None \<Rightarrow> 0))
       (basic_borrow toConsume now b)"

section \<open>Balances\<close>

lemma basic_consume_adapter:
  "0 < cost \<Longrightarrow> tryConsume cost now b = basic_consume cost (toSeconds now) b"
  by (simp add: tryConsume_def basic_consume_def)

lemma shift_zero: "0 < r \<Longrightarrow> (t - (z - x / r)) * r = (t - z) * r + x" for r :: real
  by (simp add: field_simps)

text \<open>Moving the zero time sets the tokens up to the burst size.\<close>

lemma balance_at:
  "0 < rate \<Longrightarrow> storage_balance (now - tokens / rate) rate burst now = min tokens burst"
  by (simp add: storage_balance_def)

lemma setCapacity_balance:
  "bucket_ok b \<Longrightarrow> basic_balance now (basic_setCapacity tokens now b) = min tokens (tb_burst b)"
  by (simp add: basic_balance_def basic_setCapacity_def bucket_ok_def balance_at)

lemma reset_keeps_tokens:
  assumes "0 < genRate" and "0 < burstSize"
  shows "basic_available now (basic_reset genRate burstSize now b) =
    min (basic_available now b) burstSize"
proof -
  have "bucket_ok (b\<lparr>tb_rate := genRate, tb_burst := burstSize\<rparr>)"
    using assms by (simp add: bucket_ok_def)
  from setCapacity_balance [OF this, of now "basic_available now b"] show ?thesis
    using assms by (simp add: basic_available_def basic_reset_def Let_def)
qed

lemma returnTokens_balance:
  assumes "bucket_ok b" and "(now - tb_zeroTime b) * tb_rate b \<le> tb_burst b"
  shows "basic_balance now (basic_returnTokens n b) =
    min (basic_balance now b + n) (tb_burst b)"
  using assms
  by (simp add: basic_balance_def basic_returnTokens_def storage_balance_def storage_returnTokens_def
      bucket_ok_def shift_zero)

section \<open>The borrowing loop\<close>

lemma borrow_loop_stop: "toConsume \<le> 0 \<Longrightarrow> borrow_loop z toConsume rate burst now = Some (z, 0)"
  by (simp add: borrow_loop.simps)

lemma borrow_loop_debt:
  assumes "0 < rate" and "0 < burst" and "0 < toConsume" and "storage_balance z rate burst now \<le> 0"
  shows "borrow_loop z toConsume rate burst now =
    Some (z + toConsume / rate, max 0 (z + toConsume / rate - now))"
  using assms
  by (simp add: borrow_loop.simps [of z] dynamic_consumeOrDrain_def storage_returnTokens_def
      timeWhenBucket_def Let_def)

lemma borrow_loop_tokens:
  assumes bal: "bal = storage_balance z rate burst now" and "0 < bal" and "0 < toConsume"
  shows "borrow_loop z toConsume rate burst now =
    borrow_loop (now - (bal - min bal toConsume) / rate) (toConsume - min bal toConsume) rate burst now"
proof -
  have pos: "0 < min bal toConsume" "min bal toConsume \<noteq> 0" using assms by (auto simp: min_def)
  then have "dynamic_consumeOrDrain z toConsume rate burst now =
      (now - (bal - min bal toConsume) / rate, min bal toConsume)"
    using \<open>0 < bal\<close> pos(2) unfolding dynamic_consumeOrDrain_def storage_consume_def
      storage_balance_def [symmetric] bal [symmetric] by (simp add: Let_def)
  with pos \<open>0 < toConsume\<close> show ?thesis
    by (subst borrow_loop.simps) (simp add: Let_def del: min_less_iff_conj)
qed

text \<open>Two rounds at most: the bucket is drained in the first and the rest borrowed in the second.\<close>

lemma borrow_loop_eq:
  assumes "0 < rate" and "0 < burst" and "0 < toConsume"
    and bal: "bal = storage_balance z rate burst now"
  shows "borrow_loop z toConsume rate burst now =
    Some (now - (bal - toConsume) / rate, max 0 ((toConsume - bal) / rate))"
proof (cases "bal \<le> 0")
  case True
  then have "bal = (now - z) * rate"
    using assms(2) by (auto simp: bal storage_balance_def min_def split: if_splits)
  then have "z = now - bal / rate" using assms(1) by simp
  then show ?thesis
    using True borrow_loop_debt [OF assms(1-3), of z now] by (simp add: bal diff_divide_distrib)
next
  case False
  then have step: "borrow_loop z toConsume rate burst now =
      borrow_loop (now - (bal - min bal toConsume) / rate) (toConsume - min bal toConsume) rate burst now"
    using borrow_loop_tokens [OF bal _ assms(3)] by simp
  show ?thesis
  proof (cases "toConsume \<le> bal")
    case True
    then have "(toConsume - bal) / rate \<le> 0" using assms(1) by (simp add: divide_le_0_iff)
    with True step show ?thesis by (simp add: borrow_loop_stop min_def)
  next
    case less: False
    then have "borrow_loop now (toConsume - bal) rate burst now =
        Some (now + (toConsume - bal) / rate, max 0 ((toConsume - bal) / rate))"
      using borrow_loop_debt [OF assms(1,2), of "toConsume - bal" now now] assms(2)
      by (simp add: storage_balance_def)
    with less step show ?thesis by (simp add: min_def diff_divide_distrib)
  qed
qed

section \<open>Reservations\<close>

lemma balance_le_burst: "basic_balance now b \<le> tb_burst b"
  by (simp add: basic_balance_def storage_balance_def)

lemma basic_borrow_eq:
  assumes "bucket_ok b" and "0 < n" and "n \<le> tb_burst b"
  shows "basic_borrow n now b =
    Some (b\<lparr>tb_zeroTime := now - (basic_balance now b - n) / tb_rate b\<rparr>,
      Some (max 0 ((n - basic_balance now b) / tb_rate b)))"
  using assms
  by (simp add: basic_borrow_def dynamic_borrow_def borrow_loop_eq bucket_ok_def basic_balance_def)

lemma borrowed_balance:
  assumes "bucket_ok b" and "0 < n"
  shows "basic_balance t (b\<lparr>tb_zeroTime := now - (basic_balance now b - n) / tb_rate b\<rparr>) =
    min ((t - now) * tb_rate b + basic_balance now b - n) (tb_burst b)"
  using assms by (simp add: basic_balance_def [of _ "_\<lparr>tb_zeroTime := _\<rparr>"] storage_balance_def
      bucket_ok_def shift_zero)

lemma borrowed_balance_now:
  assumes "bucket_ok b" and "0 < n"
  shows "basic_balance now (b\<lparr>tb_zeroTime := now - (basic_balance now b - n) / tb_rate b\<rparr>) =
    basic_balance now b - n"
  using borrowed_balance [OF assms, of now now] balance_le_burst [of now b] assms(2)
  by (simp add: min_def)

text \<open>
  C40: a request to borrow always returns. It is refused, and changes nothing, exactly when it exceeds
  the burst size. Otherwise it debits the whole amount at once, whatever the bucket holds, and the
  time it tells the caller to wait is the first one at which the bucket is out of debt: at no
  earlier time does it hold a token, and from then on its balance is not negative.
\<close>

theorem borrow_outcome:
  assumes "bucket_ok b" and "0 < n"
  shows "(tb_burst b < n \<longrightarrow> basic_borrow n now b = Some (b, None)) \<and>
    (n \<le> tb_burst b \<longrightarrow>
      (\<exists>b' nap. basic_borrow n now b = Some (b', Some nap) \<and> 0 \<le> nap \<and>
         basic_balance now b' = basic_balance now b - n \<and>
         (\<forall>t. now \<le> t \<longrightarrow> (0 \<le> basic_balance t b' \<longleftrightarrow> now + nap \<le> t))))"
proof (intro conjI impI)
  assume "tb_burst b < n"
  then show "basic_borrow n now b = Some (b, None)"
    by (simp add: basic_borrow_def dynamic_borrow_def)
next
  assume n: "n \<le> tb_burst b"
  let ?bal = "basic_balance now b" and ?r = "tb_rate b"
  let ?b = "b\<lparr>tb_zeroTime := now - (?bal - n) / ?r\<rparr>" and ?nap = "max 0 ((n - ?bal) / ?r)"
  have r: "0 < ?r" "0 < tb_burst b" using assms(1) by (simp_all add: bucket_ok_def)
  have "basic_balance now ?b = ?bal - n" by (rule borrowed_balance_now [OF assms])
  moreover have "0 \<le> basic_balance t ?b \<longleftrightarrow> now + ?nap \<le> t" if "now \<le> t" for t
  proof -
    have "0 \<le> basic_balance t ?b \<longleftrightarrow> n - ?bal \<le> (t - now) * ?r"
      using borrowed_balance [OF assms, of t now] r by auto
    also have "\<dots> \<longleftrightarrow> (n - ?bal) / ?r \<le> t - now" using r by (simp add: pos_divide_le_eq)
    finally show ?thesis using that by auto
  qed
  ultimately show "\<exists>b' nap. basic_borrow n now b = Some (b', Some nap) \<and> 0 \<le> nap \<and>
         basic_balance now b' = ?bal - n \<and>
         (\<forall>t. now \<le> t \<longrightarrow> (0 \<le> basic_balance t b' \<longleftrightarrow> now + nap \<le> t))"
    using basic_borrow_eq [OF assms n, of now] by (intro exI conjI) auto
qed

theorem borrow_outcome_witness:
  "\<exists>b' nap. basic_borrow 3 10 (basic_new 2 4 10) = Some (b', Some nap) \<and> 0 \<le> nap \<and>
     basic_balance 10 b' = - 3 \<and>
     (\<forall>t. 10 \<le> t \<longrightarrow> (0 \<le> basic_balance t b' \<longleftrightarrow> 10 + nap \<le> t))"
proof -
  have "basic_balance 10 (basic_new 2 4 10) = 0" "bucket_ok (basic_new 2 4 10)"
    by (simp_all add: basic_balance_def storage_balance_def basic_new_def bucket_ok_def)
  then show ?thesis
    using borrow_outcome [of "basic_new 2 4 10" 3 10] by (simp add: basic_new_def)
qed

text \<open>
  Borrowers are served in their order: one that has to wait delays the next by its whole amount,
  so that reservations never overlap.
\<close>

lemma borrowers_queue:
  assumes "bucket_ok b" and "0 < n" "n \<le> tb_burst b" and "0 < m" "m \<le> tb_burst b"
    and "basic_borrow n now b = Some (b', Some nap)" and "0 < nap"
    and "basic_borrow m now b' = Some (b'', Some nap')"
  shows "nap' = nap + m / tb_rate b"
proof -
  have b': "b' = b\<lparr>tb_zeroTime := now - (basic_balance now b - n) / tb_rate b\<rparr>"
    and nap: "nap = max 0 ((n - basic_balance now b) / tb_rate b)"
    using basic_borrow_eq [OF assms(1-3), of now] assms(6) by auto
  have "bucket_ok b'" "tb_rate b' = tb_rate b" "tb_burst b' = tb_burst b" using b' assms(1) by (auto simp: bucket_ok_def)
  moreover have "basic_balance now b' = basic_balance now b - n"
    using borrowed_balance_now [OF assms(1,2)] b' by simp
  ultimately have "nap' = max 0 ((m - (basic_balance now b - n)) / tb_rate b)"
    using basic_borrow_eq [of b' m now] assms(4,5,8) by auto
  moreover have "(m - (basic_balance now b - n)) / tb_rate b = (n - basic_balance now b) / tb_rate b + m / tb_rate b"
    by (simp add: diff_divide_distrib add_divide_distrib)
  ultimately show ?thesis using nap assms by (auto simp: bucket_ok_def max_def split: if_splits)
qed

text \<open>
  The blocking form drops the fraction of a microsecond, so that it wakes up to one early: it
  sleeps not at all for a reservation that becomes valid within the microsecond.
\<close>

lemma borrowAndWait_truncates:
  assumes "bucket_ok b" and "0 < n" and "n \<le> tb_burst b"
    and "basic_borrow n now b = Some (b', Some nap)"
  shows "\<exists>us. basic_borrowAndWait n now b = Some (b', True, us) \<and>
    us / 1000000 \<le> nap \<and> nap < (us + 1) / 1000000"
proof -
  have "0 \<le> nap" using basic_borrow_eq [OF assms(1-3), of now] assms(4) by auto
  moreover have "\<lfloor>nap * 1000000\<rfloor> \<le> nap * 1000000" "nap * 1000000 < \<lfloor>nap * 1000000\<rfloor> + 1"
    by (simp_all add: floor_less_iff)
  ultimately show ?thesis
    using assms(4) by (auto simp: basic_borrowAndWait_def)
qed

end
