(* ===== verification/AdmConcurrent.thy ===== *)
theory AdmConcurrent
  imports AdmBorrow
begin

text \<open>
  The lock-free bucket of \<^verbatim>\<open>include/admissionspec/folly/TokenBucket.hpp\<close> shared by any number of
  threads. The bucket is one atomic double; a call is a sequence of atomic accesses to it, each a
  step of the thread that makes it, and the steps of the threads interleave freely: the read of
  \<^verbatim>\<open>balance\<close>, the read that opens a round of the compare-and-exchange loop, and the exchange, which
  is the weak one and may fail for no reason. All accesses are to one location, so that relaxed
  ordering allows no more than an order of them.

  The theorem is that calls to \<^verbatim>\<open>consume\<close> and \<^verbatim>\<open>returnTokens\<close> are linearizable: the replies of any
  execution are those of the same calls made one after the other. It justifies the sequential
  model of \<open>AdmBucket\<close>. The rate limit follows for every interleaving and whatever clock values
  the threads bring, in order or not.
\<close>

section \<open>Calls that take effect at one step\<close>

fun replay :: "('c \<Rightarrow> 'v \<Rightarrow> 'v \<times> 'r) \<Rightarrow> 'c list \<Rightarrow> 'v \<Rightarrow> 'v \<times> 'r list" where
  "replay seq [] v = (v, [])"
| "replay seq (c # cs) v =
     (case seq c v of (v', r) \<Rightarrow> (case replay seq cs v' of (v'', rs) \<Rightarrow> (v'', r # rs)))"

lemma replay_snoc:
  assumes "replay seq cs v = (v', rs)" and "seq c v' = (v'', r)"
  shows "replay seq (cs @ [c]) v = (v'', rs @ [r])"
  using assms by (induction cs arbitrary: v rs) (auto split: prod.splits)

text \<open>
  What is needed of a concurrent object: every step either leaves the shared value and the log of
  replies alone, or is the whole effect of one call of the sequential object.
\<close>

locale committing =
  fixes step :: "'s \<Rightarrow> 's \<Rightarrow> bool"
    and shared :: "'s \<Rightarrow> 'v"
    and replies :: "'s \<Rightarrow> ('c \<times> 'r) list"
    and inv :: "'s \<Rightarrow> bool"
    and seq :: "'c \<Rightarrow> 'v \<Rightarrow> 'v \<times> 'r"
  assumes inv_step: "inv s \<Longrightarrow> step s s' \<Longrightarrow> inv s'"
    and commits: "inv s \<Longrightarrow> step s s' \<Longrightarrow>
      (shared s' = shared s \<and> replies s' = replies s) \<or>
      (\<exists>c r. replies s' = replies s @ [(c, r)] \<and> seq c (shared s) = (shared s', r))"
begin

lemma linearizable:
  assumes "step\<^sup>*\<^sup>* s0 s" and "inv s0" and "replies s0 = []"
  shows "inv s \<and> replay seq (map fst (replies s)) (shared s0) = (shared s, map snd (replies s))"
  using assms
proof (induction rule: rtranclp_induct)
  case (step s s')
  then have inv: "inv s" and eq: "replay seq (map fst (replies s)) (shared s0) = (shared s, map snd (replies s))"
    by blast+
  from commits [OF inv step.hyps(2)] show ?case
    using inv_step [OF inv step.hyps(2)] eq replay_snoc [OF eq] by auto
qed simp

end

section \<open>The bucket\<close>

text \<open>A call with the amount and, where it has one, the caller's time.\<close>

datatype call = Consume real real | Drain real real | Return real

datatype reply = RBool bool | RAmount real | RUnit

primrec call_now :: "call \<Rightarrow> real" where
  "call_now (Consume n now) = now"
| "call_now (Drain n now) = now"
| "call_now (Return n) = 0"

primrec callback :: "call \<Rightarrow> real \<Rightarrow> real" where
  "callback (Consume n now) avail = (if avail < n then 0 else n)"
| "callback (Drain n now) avail = min avail n"
| "callback (Return n) avail = 0"

primrec reply_of :: "call \<Rightarrow> real \<Rightarrow> reply" where
  "reply_of (Consume n now) consumed = RBool (consumed = n)"
| "reply_of (Drain n now) consumed = RAmount consumed"
| "reply_of (Return n) consumed = RUnit"

text \<open>The test of the balance before the loop; \<^verbatim>\<open>returnTokens\<close> has none.\<close>

primrec turned_away :: "real \<Rightarrow> real \<Rightarrow> real \<Rightarrow> call \<Rightarrow> bool" where
  "turned_away rate burst z (Consume n now) = (storage_balance z rate burst now < 0)"
| "turned_away rate burst z (Drain n now) = (storage_balance z rate burst now \<le> 0)"
| "turned_away rate burst z (Return n) = False"

text \<open>
  Where a thread is: not in a call, before its first access, before the read that opens a round,
  and before the exchange, with the value it read, the value to write and the amount consumed.
\<close>

datatype pc = Idle | Start call | Loop call | Cas call real real real

record 't cstate =
  cs_zero :: real
  cs_pc :: "'t \<Rightarrow> pc"
  cs_log :: "(call \<times> reply) list"

definition goto :: "'t \<Rightarrow> pc \<Rightarrow> 't cstate \<Rightarrow> 't cstate" where
  "goto t p s = s\<lparr>cs_pc := (cs_pc s)(t := p)\<rparr>"

definition respond :: "'t \<Rightarrow> call \<Rightarrow> reply \<Rightarrow> 't cstate \<Rightarrow> 't cstate" where
  "respond t c r s = goto t Idle (s\<lparr>cs_log := cs_log s @ [(c, r)]\<rparr>)"

text \<open>One round of the loops: what the exchange will be asked to write.\<close>

definition consume_round :: "real \<Rightarrow> real \<Rightarrow> call \<Rightarrow> real \<Rightarrow> real \<times> real" where
  "consume_round rate burst c z = storage_consume z rate burst (call_now c) (callback c)"

definition return_round :: "real \<Rightarrow> real \<Rightarrow> real \<Rightarrow> pc" where
  "return_round rate n z = Cas (Return n) z (storage_returnTokens z n rate) 0"

inductive cstep :: "real \<Rightarrow> real \<Rightarrow> call set \<Rightarrow> 't cstate \<Rightarrow> 't cstate \<Rightarrow> bool"
  for rate burst calls where
  invoke: "cs_pc s t = Idle \<Longrightarrow> c \<in> calls \<Longrightarrow> cstep rate burst calls s (goto t (Start c) s)"
| refuse: "cs_pc s t = Start c \<Longrightarrow> turned_away rate burst (cs_zero s) c \<Longrightarrow>
    cstep rate burst calls s (respond t c (reply_of c 0) s)"
| enter: "cs_pc s t = Start c \<Longrightarrow> \<not> turned_away rate burst (cs_zero s) c \<Longrightarrow> \<forall>n. c \<noteq> Return n \<Longrightarrow>
    cstep rate burst calls s (goto t (Loop c) s)"
| enter_return: "cs_pc s t = Start (Return n) \<Longrightarrow>
    cstep rate burst calls s (goto t (return_round rate n (cs_zero s)) s)"
| load_nothing: "cs_pc s t = Loop c \<Longrightarrow> snd (consume_round rate burst c (cs_zero s)) = 0 \<Longrightarrow>
    cstep rate burst calls s (respond t c (reply_of c 0) s)"
| load: "cs_pc s t = Loop c \<Longrightarrow> consume_round rate burst c (cs_zero s) = (z', consumed) \<Longrightarrow>
    consumed \<noteq> 0 \<Longrightarrow> cstep rate burst calls s (goto t (Cas c (cs_zero s) z' consumed) s)"
| exchange: "cs_pc s t = Cas c old z' consumed \<Longrightarrow> cs_zero s = old \<Longrightarrow>
    cstep rate burst calls s (respond t c (reply_of c consumed) (s\<lparr>cs_zero := z'\<rparr>))"
| fail: "cs_pc s t = Cas c old z' consumed \<Longrightarrow> \<forall>n. c \<noteq> Return n \<Longrightarrow>
    cstep rate burst calls s (goto t (Loop c) s)"
| fail_return: "cs_pc s t = Cas (Return n) old z' consumed \<Longrightarrow>
    cstep rate burst calls s (goto t (return_round rate n (cs_zero s)) s)"

inductive_cases cstepE: "cstep rate burst calls s s'"

definition cstart :: "real \<Rightarrow> 't cstate" where
  "cstart z = \<lparr>cs_zero = z, cs_pc = (\<lambda>t. Idle), cs_log = []\<rparr>"

section \<open>The sequential object\<close>

primrec seq_call :: "real \<Rightarrow> real \<Rightarrow> call \<Rightarrow> real \<Rightarrow> real \<times> reply" where
  "seq_call rate burst (Consume n now) z =
     (case dynamic_consume z n rate burst now of (z', ok) \<Rightarrow> (z', RBool ok))"
| "seq_call rate burst (Drain n now) z =
     (case dynamic_consumeOrDrain z n rate burst now of (z', consumed) \<Rightarrow> (z', RAmount consumed))"
| "seq_call rate burst (Return n) z = (storage_returnTokens z n rate, RUnit)"

text \<open>The calls the theorem covers: positive amounts, and no \<^verbatim>\<open>consumeOrDrain\<close>.\<close>

definition safe_call :: "call \<Rightarrow> bool" where
  "safe_call c = (case c of Consume n now \<Rightarrow> 0 < n | Drain n now \<Rightarrow> False | Return n \<Rightarrow> 0 < n)"

text \<open>What a thread knows: the call it makes, and how the value it will write came about.\<close>

primrec pc_ok :: "real \<Rightarrow> real \<Rightarrow> call set \<Rightarrow> pc \<Rightarrow> bool" where
  "pc_ok rate burst calls Idle = True"
| "pc_ok rate burst calls (Start c) = (c \<in> calls)"
| "pc_ok rate burst calls (Loop c) = (c \<in> calls \<and> (\<forall>n. c \<noteq> Return n))"
| "pc_ok rate burst calls (Cas c old z' consumed) =
     (c \<in> calls \<and>
      (case c of Return n \<Rightarrow> z' = storage_returnTokens old n rate
       | _ \<Rightarrow> consume_round rate burst c old = (z', consumed) \<and> consumed \<noteq> 0))"

definition cinv :: "real \<Rightarrow> real \<Rightarrow> call set \<Rightarrow> 't cstate \<Rightarrow> bool" where
  "cinv rate burst calls s = (\<forall>t. pc_ok rate burst calls (cs_pc s t))"

lemma goto_simps [simp]:
  "cs_zero (goto t p s) = cs_zero s" "cs_log (goto t p s) = cs_log s"
  "cs_pc (goto t p s) = (cs_pc s)(t := p)"
  by (simp_all add: goto_def)

lemma respond_simps [simp]:
  "cs_zero (respond t c r s) = cs_zero s" "cs_log (respond t c r s) = cs_log s @ [(c, r)]"
  "cs_pc (respond t c r s) = (cs_pc s)(t := Idle)"
  by (simp_all add: respond_def)

lemma cinv_goto: "cinv rate burst calls s \<Longrightarrow> pc_ok rate burst calls p \<Longrightarrow> cinv rate burst calls (goto t p s)"
  by (simp add: cinv_def)

lemma cinv_zero [simp]: "cinv rate burst calls (s\<lparr>cs_zero := z\<rparr>) = cinv rate burst calls s"
  by (simp add: cinv_def)

lemma callback_Consume: "callback (Consume n now) = (\<lambda>av. if av < n then 0 else n)"
  by (simp add: fun_eq_iff)

lemma cinv_respond:
  "cinv rate burst calls s \<Longrightarrow> cinv rate burst calls (respond t c r s)"
  by (simp_all add: cinv_def)

lemma cinv_pc: "cinv rate burst calls s \<Longrightarrow> cs_pc s t = p \<Longrightarrow> pc_ok rate burst calls p"
  by (auto simp: cinv_def)

lemma cstep_inv: "cstep rate burst calls s s' \<Longrightarrow> cinv rate burst calls s \<Longrightarrow> cinv rate burst calls s'"
  by (induction rule: cstep.induct)
    (auto intro!: cinv_goto cinv_respond dest: cinv_pc simp: return_round_def split: call.splits)

section \<open>Each reply is one sequential call\<close>

lemma refuse_seq:
  assumes "safe_call c" and "turned_away rate burst z c"
  shows "seq_call rate burst c z = (z, reply_of c 0)"
  using assms by (cases c) (auto simp: safe_call_def dynamic_consume_def)

lemma load_nothing_seq:
  assumes "safe_call c" and "\<forall>n. c \<noteq> Return n" and "snd (consume_round rate burst c z) = 0"
  shows "seq_call rate burst c z = (z, reply_of c 0)"
  using assms
  by (cases c) (auto simp: safe_call_def dynamic_consume_def consume_round_def storage_consume_def Let_def
      split: if_splits)

lemma exchange_seq:
  assumes "0 < rate" and "0 < burst" and "safe_call c" and "pc_ok rate burst calls (Cas c z z' consumed)"
  shows "seq_call rate burst c z = (z', reply_of c consumed)"
proof (cases c)
  case (Consume n now)
  then have "0 < n" and r: "storage_consume z rate burst now (\<lambda>av. if av < n then 0 else n) = (z', consumed)"
    and "consumed \<noteq> 0"
    using assms(3,4) by (auto simp: safe_call_def consume_round_def callback_Consume simp del: callback.simps)
  moreover from this have "\<not> storage_balance z rate burst now < 0"
    by (auto simp: storage_consume_def storage_balance_def Let_def split: if_splits)
  ultimately show ?thesis using Consume by (simp add: dynamic_consume_def)
qed (use assms(3,4) in \<open>auto simp: safe_call_def\<close>)

text \<open>The calls of an execution are fixed beforehand, as a set; then every step commits.\<close>

lemma cstep_commits:
  assumes "0 < rate" and "0 < burst" and "\<forall>c \<in> calls. safe_call c"
    and "cinv rate burst calls s" and "cstep rate burst calls s s'"
  shows "(cs_zero s' = cs_zero s \<and> cs_log s' = cs_log s) \<or>
    (\<exists>c r. cs_log s' = cs_log s @ [(c, r)] \<and> seq_call rate burst c (cs_zero s) = (cs_zero s', r))"
  using assms(5)
proof cases
  case (refuse t c)
  with assms(3) cinv_pc [OF assms(4) refuse(2)] show ?thesis by (auto simp: refuse_seq)
next
  case (load_nothing t c)
  with assms(3) cinv_pc [OF assms(4) load_nothing(2)] show ?thesis by (auto simp: load_nothing_seq)
next
  case (exchange t c old z' consumed)
  with assms(3) cinv_pc [OF assms(4) exchange(2)] exchange_seq [OF assms(1,2), of c calls old z' consumed]
  show ?thesis by auto
qed (simp_all add: return_round_def)

definition bucket_params_ok :: "real \<Rightarrow> real \<Rightarrow> call set \<Rightarrow> bool" where
  "bucket_params_ok rate burst calls = (0 < rate \<and> 0 < burst \<and> (\<forall>c \<in> calls. safe_call c))"

text \<open>Outside of the parameters the assertions ask for, the invariant is taken to be false.\<close>

interpretation shared_bucket: committing "cstep rate burst calls" cs_zero cs_log
  "\<lambda>s. bucket_params_ok rate burst calls \<and> cinv rate burst calls s" "seq_call rate burst"
  for rate burst calls
proof
  fix s s' :: "'t cstate"
  assume inv: "bucket_params_ok rate burst calls \<and> cinv rate burst calls s" and "cstep rate burst calls s s'"
  then show "bucket_params_ok rate burst calls \<and> cinv rate burst calls s'"
    using cstep_inv by blast
  from inv have "0 < rate" "0 < burst" "\<forall>c \<in> calls. safe_call c" "cinv rate burst calls s"
    by (simp_all add: bucket_params_ok_def)
  from cstep_commits [OF this \<open>cstep rate burst calls s s'\<close>]
  show "(cs_zero s' = cs_zero s \<and> cs_log s' = cs_log s) \<or>
      (\<exists>c r. cs_log s' = cs_log s @ [(c, r)] \<and> seq_call rate burst c (cs_zero s) = (cs_zero s', r))" .
qed

lemma cinv_start: "cinv rate burst calls (cstart z)"
  by (simp add: cinv_def cstart_def)

section \<open>The rate limit without an order of the clocks\<close>

text \<open>What the log of an execution has taken and given back.\<close>

fun taken :: "(call \<times> reply) list \<Rightarrow> real" where
  "taken [] = 0"
| "taken ((c, r) # es) =
     (case c of Consume n now \<Rightarrow> if r = RBool True then n else 0
      | Drain n now \<Rightarrow> (case r of RAmount a \<Rightarrow> a | _ \<Rightarrow> 0) | Return n \<Rightarrow> 0) + taken es"

fun given_back :: "(call \<times> reply) list \<Rightarrow> real" where
  "given_back [] = 0"
| "given_back ((c, r) # es) = (case c of Return n \<Rightarrow> n | _ \<Rightarrow> 0) + given_back es"

definition times_within :: "real \<Rightarrow> real \<Rightarrow> call set \<Rightarrow> bool" where
  "times_within t0 t1 calls =
     (\<forall>c \<in> calls. case c of Return n \<Rightarrow> True | _ \<Rightarrow> t0 \<le> call_now c \<and> call_now c \<le> t1)"

text \<open>
  The zero time, but no earlier than a bucket that is full at the first time has it. A successful
  call moves it forward by at least what its amount takes to earn, and never past its own time.
\<close>

definition level :: "real \<Rightarrow> real \<Rightarrow> real \<Rightarrow> real \<Rightarrow> real" where
  "level rate burst t0 z = max z (t0 - burst / rate)"

lemma consume_level:
  assumes "0 < rate" and "0 < burst" and "0 < n" and "t0 \<le> now"
    and "dynamic_consume z n rate burst now = (z', True)"
  shows "level rate burst t0 z + n / rate \<le> level rate burst t0 z' \<and> z' \<le> now"
proof -
  let ?bal = "min ((now - z) * rate) burst"
  have z': "z' = now - (?bal - n) / rate" and le: "n \<le> ?bal"
    using assms(3,5) by (auto simp: dynamic_consume_def storage_consume_def Let_def split: if_splits)
  have "z' \<le> now" using assms(1) le by (simp add: z')
  moreover have "z + n / rate \<le> z'"
  proof -
    have "?bal / rate \<le> now - z" using assms(1) by (simp add: pos_divide_le_eq)
    then show ?thesis by (simp add: z' diff_divide_distrib)
  qed
  moreover have "t0 - burst / rate + n / rate \<le> z'"
  proof -
    have "?bal / rate \<le> burst / rate" using assms(1) by (simp add: divide_right_mono)
    then show ?thesis using assms(4) by (simp add: z' diff_divide_distrib)
  qed
  ultimately show ?thesis by (auto simp: level_def)
qed

lemma return_level:
  assumes "0 < rate" and "0 \<le> n"
  shows "level rate burst t0 z - n / rate \<le> level rate burst t0 (storage_returnTokens z n rate)"
proof -
  have "0 \<le> n / rate" using assms by simp
  then show ?thesis by (simp add: level_def storage_returnTokens_def max_def)
qed

lemma seq_rate_bound:
  assumes "0 < rate" and "0 < burst" and "t0 \<le> t1"
    and "replay (seq_call rate burst) (map fst es) z = (z', map snd es)"
    and "\<forall>c \<in> fst ` set es. safe_call c" and "times_within t0 t1 (fst ` set es)"
  shows "taken es \<le> max 0 (rate * (t1 - level rate burst t0 z)) + given_back es"
  using assms(4-6)
proof (induction es arbitrary: z)
  case (Cons e es)
  obtain c r where e: "e = (c, r)" by fastforce
  obtain z1 where s: "seq_call rate burst c z = (z1, r)"
      and rest: "replay (seq_call rate burst) (map fst es) z1 = (z', map snd es)"
    using Cons.prems(1) by (auto simp: e split: prod.splits)
  have IH: "taken es \<le> max 0 (rate * (t1 - level rate burst t0 z1)) + given_back es"
    using Cons.prems(2,3) by (intro Cons.IH [OF rest]) (auto simp: times_within_def)
  show ?case
  proof (cases c)
    case (Consume n now)
    then have n: "0 < n" "t0 \<le> now" "now \<le> t1"
      using Cons.prems(2,3) by (auto simp: e safe_call_def times_within_def)
    obtain ok where d: "dynamic_consume z n rate burst now = (z1, ok)" and r: "r = RBool ok"
      using s Consume by (auto split: prod.splits)
    show ?thesis
    proof (cases ok)
      case True
      have up: "level rate burst t0 z + n / rate \<le> level rate burst t0 z1" and "z1 \<le> now"
        using consume_level [OF assms(1,2) n(1,2)] d True by auto
      have "0 \<le> burst / rate" using assms(1,2) by simp
      then have "t0 - burst / rate \<le> t1" using assms(3) by linarith
      then have "level rate burst t0 z1 \<le> t1" using \<open>z1 \<le> now\<close> n(3) by (simp add: level_def)
      moreover have "rate * (level rate burst t0 z + n / rate) \<le> rate * level rate burst t0 z1"
        using up assms(1) by simp
      then have "n + rate * (t1 - level rate burst t0 z1) \<le> rate * (t1 - level rate burst t0 z)"
        using assms(1) by (simp add: algebra_simps)
      ultimately show ?thesis using IH Consume r True e assms(1) by simp
    next
      case False
      then have "z1 = z" using d by (auto simp: dynamic_consume_def storage_consume_def Let_def split: if_splits)
      with IH Consume r False e show ?thesis by simp
    qed
  next
    case (Return n)
    then have n: "0 \<le> n" and z1: "z1 = storage_returnTokens z n rate"
      using Cons.prems(2) s by (auto simp: e safe_call_def)
    have "rate * (level rate burst t0 z - n / rate) \<le> rate * level rate burst t0 z1"
      using return_level [OF assms(1) n] assms(1) z1 by simp
    then have "rate * (t1 - level rate burst t0 z1) \<le> rate * (t1 - level rate burst t0 z) + n"
      using assms(1) by (simp add: algebra_simps)
    with IH Return n e show ?thesis by auto
  next
    case (Drain n now)
    then show ?thesis using Cons.prems(2) by (auto simp: e safe_call_def)
  qed
qed simp

lemma logged_calls:
  assumes "(cstep rate burst calls)\<^sup>*\<^sup>* s0 s" and "cs_log s0 = []" and "cinv rate burst calls s0"
  shows "fst ` set (cs_log s) \<subseteq> calls \<and> cinv rate burst calls s"
  using assms
proof (induction rule: rtranclp_induct)
  case (step s s')
  then have inv: "cinv rate burst calls s" and sub: "fst ` set (cs_log s) \<subseteq> calls" by blast+
  from step.hyps(2) have "fst ` set (cs_log s') \<subseteq> calls"
    by cases (use sub in \<open>auto dest: cinv_pc [OF inv] simp: return_round_def\<close>)
  with cstep_inv [OF step.hyps(2) inv] show ?case by blast
qed simp

section \<open>Properties\<close>

text \<open>
  C27: the lock-free bucket is linearizable. In any execution of any number of threads that consume and
  return tokens, from any state of the bucket, the calls that have replied, in the order in which
  they replied, would have got the same replies and left the same bucket had they been made one
  after the other.
\<close>

theorem bucket_linearizable:
  assumes "(cstep rate burst calls)\<^sup>*\<^sup>* (cstart z :: 't cstate) s"
    and "0 < rate" and "0 < burst" and "\<forall>c \<in> calls. safe_call c"
  shows "replay (seq_call rate burst) (map fst (cs_log s)) z = (cs_zero s, map snd (cs_log s))"
  using shared_bucket.linearizable [OF assms(1)] assms(2-4)
  by (simp add: bucket_params_ok_def cinv_start) (simp add: cstart_def)

text \<open>
  C28: the rate limit of the shared bucket: whatever the threads do and however their steps interleave,
  and whatever times between \<open>t0\<close> and \<open>t1\<close> they read off their clocks, in order or not, the tokens
  taken are at most a full bucket, what the rate gives between the two times, and what was given
  back.
\<close>

theorem shared_rate_limit:
  assumes "(cstep rate burst calls)\<^sup>*\<^sup>* (cstart z :: 't cstate) s"
    and "0 < rate" and "0 < burst" and "\<forall>c \<in> calls. safe_call c"
    and "t0 \<le> t1" and "times_within t0 t1 calls"
  shows "taken (cs_log s) \<le> burst + rate * (t1 - t0) + given_back (cs_log s)"
proof -
  have "replay (seq_call rate burst) (map fst (cs_log s)) z = (cs_zero s, map snd (cs_log s))"
    using shared_bucket.linearizable [OF assms(1)] assms(2-4)
    by (simp add: bucket_params_ok_def cinv_start) (simp add: cstart_def)
  moreover have sub: "fst ` set (cs_log s) \<subseteq> calls"
    using logged_calls [OF assms(1) _ cinv_start] by (simp add: cstart_def)
  ultimately have "taken (cs_log s) \<le> max 0 (rate * (t1 - level rate burst t0 z)) + given_back (cs_log s)"
    using assms(4,6) by (intro seq_rate_bound [OF assms(2,3,5)]) (auto simp: times_within_def)
  moreover have "rate * (t1 - level rate burst t0 z) \<le> burst + rate * (t1 - t0)"
  proof -
    have "rate * (t1 - level rate burst t0 z) \<le> rate * (t1 - (t0 - burst / rate))"
      using assms(2) by (simp add: level_def)
    also have "\<dots> = burst + rate * (t1 - t0)" using assms(2) by (simp add: field_simps)
    finally show ?thesis .
  qed
  moreover have "0 \<le> burst + rate * (t1 - t0)" using assms(2,3,5) by simp
  ultimately show ?thesis by linarith
qed

section \<open>Executions\<close>

text \<open>States of two threads, for examples.\<close>

definition pair_state :: "pc \<Rightarrow> pc \<Rightarrow> real \<Rightarrow> (call \<times> reply) list \<Rightarrow> bool cstate" where
  "pair_state a b z es = \<lparr>cs_zero = z, cs_pc = (\<lambda>t. if t then a else b), cs_log = es\<rparr>"

lemma pair_state_simps [simp]:
  "cs_zero (pair_state a b z es) = z" "cs_log (pair_state a b z es) = es"
  "cs_pc (pair_state a b z es) t = (if t then a else b)"
  "pair_state a b z es\<lparr>cs_zero := z'\<rparr> = pair_state a b z' es"
  "goto t p (pair_state a b z es) = pair_state (if t then p else a) (if t then b else p) z es"
  "respond t c r (pair_state a b z es) =
     pair_state (if t then Idle else a) (if t then b else Idle) z (es @ [(c, r)])"
  by (auto simp: pair_state_def goto_def respond_def fun_eq_iff)

lemma cstart_pair: "cstart z = pair_state Idle Idle z []"
  by (simp add: cstart_def pair_state_def)

lemmas first_steps = cstep.intros [of "pair_state a b z es" True for a b z es, simplified]
lemmas second_steps = cstep.intros [of "pair_state a b z es" False for a b z es, simplified]
lemmas more_steps = rtranclp.rtrancl_into_rtrancl

text \<open>
  Two threads that ask a bucket of five tokens for four each at the same time: both read it full,
  one exchange succeeds, the other fails and its second round finds one token.
\<close>

definition contenders :: "call set" where
  "contenders = {Consume 4 5}"

definition race_end :: "bool cstate" where
  "race_end = pair_state Idle Idle 4 [(Consume 4 5, RBool True), (Consume 4 5, RBool False)]"

lemma race_execution: "(cstep 1 5 contenders)\<^sup>*\<^sup>* (cstart 0) race_end"
proof -
  let ?R = "(cstep 1 5 contenders)\<^sup>*\<^sup>*" and ?c = "Consume 4 5"
  have in_calls: "?c \<in> contenders" by (simp add: contenders_def)
  have full: "consume_round 1 5 ?c 0 = (4, 4)" "\<not> turned_away 1 5 0 ?c"
    and less: "snd (consume_round 1 5 ?c 4) = 0"
    by (simp_all add: consume_round_def storage_consume_def storage_balance_def Let_def)
  have "?R (cstart 0) (pair_state Idle Idle 0 [])" by (simp add: cstart_pair)
  then have "?R (cstart 0) (pair_state (Start ?c) Idle 0 [])"
    using first_steps(1) in_calls by (auto intro: more_steps)
  then have "?R (cstart 0) (pair_state (Start ?c) (Start ?c) 0 [])"
    using second_steps(1) in_calls by (auto intro: more_steps)
  then have "?R (cstart 0) (pair_state (Loop ?c) (Start ?c) 0 [])"
    using first_steps(3) full by (auto intro: more_steps)
  then have "?R (cstart 0) (pair_state (Loop ?c) (Loop ?c) 0 [])"
    using second_steps(3) full by (auto intro: more_steps)
  then have "?R (cstart 0) (pair_state (Cas ?c 0 4 4) (Loop ?c) 0 [])"
    using first_steps(6) [OF _ full(1)] by (auto intro: more_steps)
  then have "?R (cstart 0) (pair_state (Cas ?c 0 4 4) (Cas ?c 0 4 4) 0 [])"
    using second_steps(6) [OF _ full(1)] by (auto intro: more_steps)
  then have "?R (cstart 0) (pair_state Idle (Cas ?c 0 4 4) 4 [(?c, RBool True)])"
    using first_steps(7) [of "Cas ?c 0 4 4" ?c 0 4 4, where es = "[]"] by (auto intro: more_steps)
  then have "?R (cstart 0) (pair_state Idle (Loop ?c) 4 [(?c, RBool True)])"
    using second_steps(8) [of "Cas ?c 0 4 4" ?c 0 4 4] by (auto intro: more_steps)
  then have "?R (cstart 0) (pair_state Idle Idle 4 [(?c, RBool True), (?c, RBool False)])"
    using second_steps(5) [of "Loop ?c" ?c 1 5 4, where es = "[(?c, RBool True)]"] less
    by (auto intro: more_steps)
  then show ?thesis by (simp add: race_end_def)
qed

theorem bucket_linearizable_witness:
  "replay (seq_call 1 5) [Consume 4 5, Consume 4 5] 0 = (4, [RBool True, RBool False])"
  using bucket_linearizable [OF race_execution] by (simp add: contenders_def safe_call_def race_end_def)

theorem shared_rate_limit_witness: "taken (cs_log race_end) \<le> 5"
  using shared_rate_limit [OF race_execution, of 5 5]
  by (simp add: contenders_def safe_call_def times_within_def race_end_def)

text \<open>
  \<^verbatim>\<open>consumeOrDrain\<close> is not linearizable. Its test of the balance and the read of its loop are two
  accesses: when another thread overdraws the bucket in between, here by having a later time, the
  balance in the loop is negative, the call "consumes" a negative amount and sets the bucket back,
  and the other's tokens can be spent again. No sequential call ever replies so.
\<close>

definition drainers :: "call set" where
  "drainers = {Drain 1 1, Consume 3 3}"

lemma drain_race:
  "(cstep 1 10 drainers)\<^sup>*\<^sup>* (cstart 0)
     (pair_state Idle Idle 1 [(Consume 3 3, RBool True), (Drain 1 1, RAmount (- 2))])"
proof -
  let ?R = "(cstep 1 10 drainers)\<^sup>*\<^sup>*" and ?d = "Drain 1 1" and ?c = "Consume 3 3"
  have in_calls: "?c \<in> drainers" "?d \<in> drainers" by (simp_all add: drainers_def)
  have rounds: "consume_round 1 10 ?c 0 = (3, 3)" "consume_round 1 10 ?d 3 = (1, - 2)"
    "\<not> turned_away 1 10 0 ?c" "\<not> turned_away 1 10 0 ?d"
    by (simp_all add: consume_round_def storage_consume_def storage_balance_def Let_def)
  have "?R (cstart 0) (pair_state Idle Idle 0 [])" by (simp add: cstart_pair)
  then have "?R (cstart 0) (pair_state (Start ?d) Idle 0 [])"
    using first_steps(1) in_calls by (auto intro: more_steps)
  then have "?R (cstart 0) (pair_state (Loop ?d) Idle 0 [])"
    using first_steps(3) rounds by (auto intro: more_steps)
  then have "?R (cstart 0) (pair_state (Loop ?d) (Start ?c) 0 [])"
    using second_steps(1) in_calls by (auto intro: more_steps)
  then have "?R (cstart 0) (pair_state (Loop ?d) (Loop ?c) 0 [])"
    using second_steps(3) rounds by (auto intro: more_steps)
  then have "?R (cstart 0) (pair_state (Loop ?d) (Cas ?c 0 3 3) 0 [])"
    using second_steps(6) [OF _ rounds(1)] by (auto intro: more_steps)
  then have "?R (cstart 0) (pair_state (Loop ?d) Idle 3 [(?c, RBool True)])"
    using second_steps(7) [of "Cas ?c 0 3 3" ?c 0 3 3, where es = "[]"] by (auto intro: more_steps)
  then have "?R (cstart 0) (pair_state (Cas ?d 3 1 (- 2)) Idle 3 [(?c, RBool True)])"
    using first_steps(6) [OF _ rounds(2)] by (auto intro: more_steps)
  then show ?thesis
    using first_steps(7) [of "Cas ?d 3 1 (- 2)" ?d 3 1 "- 2", where es = "[(?c, RBool True)]"]
    by (auto intro: more_steps)
qed

lemma drain_never_negative:
  assumes "0 < n" and "seq_call rate burst (Drain n now) z = (z', RAmount a)"
  shows "0 \<le> a"
  using assms
  by (auto simp: dynamic_consumeOrDrain_def storage_consume_def storage_balance_def Let_def
      split: if_splits prod.splits)

end
