(* ===== verification/AdmLimiter.thy ===== *)
theory AdmLimiter
  imports AdmBucket "HOL-Library.Multiset"
begin

text \<open>
  \<^verbatim>\<open>include/admissionspec/ConnectionLimiter.hpp\<close>: one token bucket per connection. The
  \<^verbatim>\<open>unordered_map\<close> is a list of its entries in iteration order, which the standard leaves open, so
  the step relation lets the order change between any two operations and the invariants hold for
  every order. The mutex makes each operation on the map one step.
\<close>

record bucket_entry =
  be_bucket :: token_bucket
  be_lastSeen :: int

record BucketSettings =
  bs_capacity :: real
  bs_refillRatePerSecond :: real

type_synonym 'c buckets = "('c \<times> bucket_entry) list"

record 'c limiter =
  lm_settings :: BucketSettings
  lm_maxConnections :: nat
  lm_buckets :: "'c buckets"

definition limiter_new :: "BucketSettings \<Rightarrow> nat \<Rightarrow> 'c limiter" where
  "limiter_new settings maxConnections =
     \<lparr>lm_settings = settings, lm_maxConnections = maxConnections, lm_buckets = []\<rparr>"

definition limiter_size :: "'c limiter \<Rightarrow> nat" where
  "limiter_size l = length (lm_buckets l)"

section \<open>The map\<close>

definition erase :: "'c \<Rightarrow> 'c buckets \<Rightarrow> 'c buckets" where
  "erase conn bs = filter (\<lambda>e. fst e \<noteq> conn) bs"

definition set_entry :: "'c \<Rightarrow> bucket_entry \<Rightarrow> 'c buckets \<Rightarrow> 'c buckets" where
  "set_entry conn be bs = map (\<lambda>e. if fst e = conn then (conn, be) else e) bs"

fun oldest_from :: "'c \<times> bucket_entry \<Rightarrow> 'c buckets \<Rightarrow> 'c \<times> bucket_entry" where
  "oldest_from oldest [] = oldest"
| "oldest_from oldest (it # its) =
     oldest_from (if be_lastSeen (snd it) < be_lastSeen (snd oldest) then it else oldest) its"

definition evictOldest :: "'c buckets \<Rightarrow> 'c buckets" where
  "evictOldest bs = (case bs of [] \<Rightarrow> [] | b # _ \<Rightarrow> erase (fst (oldest_from b bs)) bs)"

section \<open>Operations\<close>

text \<open>The buckets with the connection's entry stamped, and that entry's bucket.\<close>

definition touchBucket :: "'c limiter \<Rightarrow> 'c \<Rightarrow> int \<Rightarrow> 'c buckets \<times> token_bucket" where
  "touchBucket l conn now =
     (case map_of (lm_buckets l) conn of
        Some be \<Rightarrow> (set_entry conn (be\<lparr>be_lastSeen := now\<rparr>) (lm_buckets l), be_bucket be)
      | None \<Rightarrow>
          let bs = (if lm_maxConnections l \<le> length (lm_buckets l)
                then evictOldest (lm_buckets l) else lm_buckets l);
              b = TokenBucket_new (bs_capacity (lm_settings l))
                (bs_refillRatePerSecond (lm_settings l)) now
          in ((conn, \<lparr>be_bucket = b, be_lastSeen = now\<rparr>) # bs, b))"

definition debit :: "'c limiter \<Rightarrow> 'c \<Rightarrow> real \<Rightarrow> int \<Rightarrow> 'c limiter \<times> bool" where
  "debit l conn cost now =
     (case touchBucket l conn now of (bs, b) \<Rightarrow>
       (case tryConsume cost now b of (b', ok) \<Rightarrow>
         (l\<lparr>lm_buckets := set_entry conn \<lparr>be_bucket = b', be_lastSeen = now\<rparr> bs\<rparr>, ok)))"

definition charge ::
    "'c limiter \<Rightarrow> 'c \<Rightarrow> AdmissionDecision \<Rightarrow> int \<Rightarrow> 'c limiter \<times> AdmissionDecision" where
  "charge l conn decision now =
     (case debit l conn (ad_tokenCost decision) now of (l', ok) \<Rightarrow>
       (l', if \<not> ok then decision_drop ''connection rate limit exceeded'' 0
            else decision_admit (ad_tokenCost decision)))"

definition penalize ::
    "'c limiter \<Rightarrow> 'c \<Rightarrow> AdmissionDecision \<Rightarrow> int \<Rightarrow> 'c limiter \<times> AdmissionDecision" where
  "penalize l conn decision now =
     (if 0 < ad_tokenCost decision
      then (fst (debit l conn (ad_tokenCost decision) now), decision)
      else (l, decision))"

text \<open>
  \<^verbatim>\<open>preAdmit<T>\<close> and \<^verbatim>\<open>makeChecker<T>\<close> read \<^verbatim>\<open>resolvedFor<T>\<close>, the spec's compile-time defaults.
\<close>

definition admitPre ::
    "('x, 's) AdmissionSpec \<Rightarrow> 'c limiter \<Rightarrow> 'c \<Rightarrow> 8 word list \<Rightarrow> int \<Rightarrow> 'c limiter \<times> AdmissionDecision"
  where
  "admitPre sp l conn payload now =
     (let decision = preAdmit payload (resolveDefaults sp)
      in if dropped decision then penalize l conn decision now else charge l conn decision now)"

text \<open>The visitor is given the fresh check and its initial state.\<close>

definition admit ::
    "('x, 's) AdmissionSpec \<Rightarrow> 's \<Rightarrow> 'c limiter \<Rightarrow> 'c \<Rightarrow>
     ('s \<Rightarrow> 's checker \<Rightarrow> AdmissionDecision) \<Rightarrow> int \<Rightarrow> 'c limiter \<times> AdmissionDecision" where
  "admit sp dflt l conn visitor now =
     (case makeChecker sp dflt (resolveDefaults sp) of (s0, check) \<Rightarrow>
       (let decision = visitor s0 check
        in if dropped decision then penalize l conn decision now else charge l conn decision now))"

definition onDisconnect :: "'c limiter \<Rightarrow> 'c \<Rightarrow> 'c limiter" where
  "onDisconnect l conn = l\<lparr>lm_buckets := erase conn (lm_buckets l)\<rparr>"

definition sweepIdle :: "'c limiter \<Rightarrow> int \<Rightarrow> int \<Rightarrow> 'c limiter" where
  "sweepIdle l now idleFor =
     l\<lparr>lm_buckets := filter (\<lambda>e. \<not> idleFor \<le> now - be_lastSeen (snd e)) (lm_buckets l)\<rparr>"

section \<open>Lemmas of the map\<close>

abbreviation keys :: "'c buckets \<Rightarrow> 'c list" where
  "keys \<equiv> map fst"

lemma keys_set_entry [simp]: "keys (set_entry conn be bs) = keys bs"
  by (induction bs) (auto simp: set_entry_def)

lemma length_set_entry [simp]: "length (set_entry conn be bs) = length bs"
  by (simp add: set_entry_def)

lemma map_of_set_entry:
  "map_of (set_entry conn be bs) c =
     (if c = conn \<and> map_of bs conn \<noteq> None then Some be else map_of bs c)"
  by (induction bs) (auto simp: set_entry_def)

lemma distinct_erase: "distinct (keys bs) \<Longrightarrow> distinct (keys (erase conn bs))"
  by (induction bs) (auto simp: erase_def)

lemma map_of_erase: "map_of (erase conn bs) c = (if c = conn then None else map_of bs c)"
  by (induction bs) (auto simp: erase_def)

lemma length_erase_less:
  "conn \<in> set (keys bs) \<Longrightarrow> length (erase conn bs) < length bs"
  unfolding erase_def by (auto intro: length_filter_less)

lemma oldest_from_in: "oldest_from o1 bs \<in> insert o1 (set bs)"
  by (induction bs arbitrary: o1) (auto split: if_splits)

lemma oldest_from_min:
  "be_lastSeen (snd (oldest_from o1 bs)) \<le> be_lastSeen (snd o1) \<and>
   (\<forall>e \<in> set bs. be_lastSeen (snd (oldest_from o1 bs)) \<le> be_lastSeen (snd e))"
proof (induction bs arbitrary: o1)
  case (Cons b bs)
  let ?o = "if be_lastSeen (snd b) < be_lastSeen (snd o1) then b else o1"
  have "be_lastSeen (snd ?o) \<le> be_lastSeen (snd o1)" "be_lastSeen (snd ?o) \<le> be_lastSeen (snd b)"
    by auto
  moreover have "oldest_from o1 (b # bs) = oldest_from ?o bs" by simp
  ultimately show ?case
    using Cons.IH [of ?o] by (metis (no_types) order_trans set_ConsD)
qed simp

lemma evictOldest_oldest:
  assumes "bs \<noteq> []"
  shows "\<exists>e \<in> set bs. evictOldest bs = erase (fst e) bs \<and>
    (\<forall>e' \<in> set bs. be_lastSeen (snd e) \<le> be_lastSeen (snd e'))"
proof (cases bs)
  case (Cons b rest)
  let ?e = "oldest_from b bs"
  have "?e \<in> set bs" using oldest_from_in [of b bs] Cons by auto
  moreover have "\<forall>e' \<in> set bs. be_lastSeen (snd ?e) \<le> be_lastSeen (snd e')"
    using oldest_from_min [of b bs] by blast
  ultimately show ?thesis using Cons by (intro bexI [of _ ?e]) (auto simp: evictOldest_def)
qed (use assms in simp)

lemma distinct_evictOldest: "distinct (keys bs) \<Longrightarrow> distinct (keys (evictOldest bs))"
  by (cases bs) (auto simp: evictOldest_def distinct_erase simp del: oldest_from.simps)

lemma keys_evictOldest: "set (keys (evictOldest bs)) \<subseteq> set (keys bs)"
  by (cases bs) (auto simp: evictOldest_def erase_def)

lemma length_evictOldest: "bs \<noteq> [] \<Longrightarrow> length (evictOldest bs) < length bs"
  using evictOldest_oldest [of bs] length_erase_less [of _ bs] by fastforce

section \<open>The limiter as a state machine\<close>

inductive limiter_step :: "'c limiter \<Rightarrow> 'c limiter \<Rightarrow> bool" where
  rehash: "mset bs = mset (lm_buckets l) \<Longrightarrow> limiter_step l (l\<lparr>lm_buckets := bs\<rparr>)"
| charge: "limiter_step l (fst (charge l conn decision now))"
| penalize: "limiter_step l (fst (penalize l conn decision now))"
| disconnect: "limiter_step l (onDisconnect l conn)"
| sweep: "limiter_step l (sweepIdle l now idleFor)"

inductive_cases limiter_stepE: "limiter_step l l'"

inductive limiter_reach :: "BucketSettings \<Rightarrow> nat \<Rightarrow> 'c limiter \<Rightarrow> bool" for settings n where
  start: "limiter_reach settings n (limiter_new settings n)"
| next_step: "limiter_reach settings n l \<Longrightarrow> limiter_step l l' \<Longrightarrow> limiter_reach settings n l'"

definition entry_ok :: "BucketSettings \<Rightarrow> bucket_entry \<Rightarrow> bool" where
  "entry_ok settings be =
     (tb_rate (be_bucket be) = bs_refillRatePerSecond settings \<and>
      tb_burst (be_bucket be) = bs_capacity settings)"

definition limiter_inv :: "BucketSettings \<Rightarrow> nat \<Rightarrow> 'c limiter \<Rightarrow> bool" where
  "limiter_inv settings n l =
     (lm_settings l = settings \<and> lm_maxConnections l = n \<and> distinct (keys (lm_buckets l)) \<and>
      length (lm_buckets l) \<le> max 1 n \<and>
      (\<forall>e \<in> set (lm_buckets l). entry_ok settings (snd e)))"

lemma tryConsume_frame:
  "tb_rate (fst (tryConsume c t b)) = tb_rate b" "tb_burst (fst (tryConsume c t b)) = tb_burst b"
  by (simp_all add: tryConsume_def split: prod.split)

lemma touchBucket_inv:
  assumes "limiter_inv settings n l"
  shows "distinct (keys (fst (touchBucket l conn now)))"
    and "length (fst (touchBucket l conn now)) \<le> max 1 n"
    and "\<forall>e \<in> set (fst (touchBucket l conn now)). entry_ok settings (snd e)"
    and "map_of (fst (touchBucket l conn now)) conn =
      Some \<lparr>be_bucket = snd (touchBucket l conn now), be_lastSeen = now\<rparr>"
    and "entry_ok settings \<lparr>be_bucket = snd (touchBucket l conn now), be_lastSeen = now\<rparr>"
proof -
  let ?bs = "lm_buckets l"
  let ?ev = "if lm_maxConnections l \<le> length ?bs then evictOldest ?bs else ?bs"
  have i: "lm_settings l = settings" "lm_maxConnections l = n" "distinct (keys ?bs)"
    "length ?bs \<le> max 1 n" "\<forall>e \<in> set ?bs. entry_ok settings (snd e)"
    using assms by (simp_all add: limiter_inv_def)
  have sub: "set ?ev \<subseteq> set ?bs" by (cases ?bs) (auto simp: evictOldest_def erase_def)
  have len: "length ?ev < max 1 n"
    using length_evictOldest [of ?bs] i(2,4) by (cases "?bs = []") (auto simp: evictOldest_def)
  have dk: "distinct (keys ?ev)" using i(3) distinct_evictOldest by auto
  have "distinct (keys (fst (touchBucket l conn now))) \<and>
      length (fst (touchBucket l conn now)) \<le> max 1 n \<and>
      (\<forall>e \<in> set (fst (touchBucket l conn now)). entry_ok settings (snd e)) \<and>
      map_of (fst (touchBucket l conn now)) conn =
        Some \<lparr>be_bucket = snd (touchBucket l conn now), be_lastSeen = now\<rparr> \<and>
      entry_ok settings \<lparr>be_bucket = snd (touchBucket l conn now), be_lastSeen = now\<rparr>"
  proof (cases "map_of ?bs conn")
    case None
    have "conn \<notin> set (keys ?ev)"
      using None sub by (auto simp: map_of_eq_None_iff image_iff)
    then show ?thesis
      using None i sub len dk
      by (auto simp: touchBucket_def Let_def entry_ok_def TokenBucket_new_def image_iff)
  next
    case (Some be)
    have "entry_ok settings be" using map_of_SomeD [OF Some] i(5) by auto
    then have ok: "\<And>t. entry_ok settings (be\<lparr>be_lastSeen := t\<rparr>)" by (simp add: entry_ok_def)
    have "\<forall>e \<in> set (set_entry conn (be\<lparr>be_lastSeen := now\<rparr>) ?bs). entry_ok settings (snd e)"
      using i(5) ok by (auto simp: set_entry_def)
    with Some i ok [of now] show ?thesis
      by (auto simp: touchBucket_def map_of_set_entry entry_ok_def)
  qed
  then show "distinct (keys (fst (touchBucket l conn now)))"
    "length (fst (touchBucket l conn now)) \<le> max 1 n"
    "\<forall>e \<in> set (fst (touchBucket l conn now)). entry_ok settings (snd e)"
    "map_of (fst (touchBucket l conn now)) conn =
      Some \<lparr>be_bucket = snd (touchBucket l conn now), be_lastSeen = now\<rparr>"
    "entry_ok settings \<lparr>be_bucket = snd (touchBucket l conn now), be_lastSeen = now\<rparr>"
    by blast+
qed

lemma debit_inv:
  assumes "limiter_inv settings n l"
  shows "limiter_inv settings n (fst (debit l conn cost now))"
proof -
  obtain bs b where t: "touchBucket l conn now = (bs, b)" by fastforce
  obtain b' ok where c: "tryConsume cost now b = (b', ok)" by fastforce
  note ti = touchBucket_inv [OF assms, of conn now, unfolded t fst_conv snd_conv]
  have "entry_ok settings \<lparr>be_bucket = b', be_lastSeen = now\<rparr>"
    using ti(5) tryConsume_frame [of cost now b] c by (simp add: entry_ok_def)
  then have "\<forall>e \<in> set (set_entry conn \<lparr>be_bucket = b', be_lastSeen = now\<rparr> bs). entry_ok settings (snd e)"
    using ti(3) by (auto simp: set_entry_def)
  with assms ti(1,2) show ?thesis by (simp add: debit_def t c limiter_inv_def)
qed

lemma charge_inv: "limiter_inv settings n l \<Longrightarrow> limiter_inv settings n (fst (charge l conn d now))"
  using debit_inv [of settings n l conn "ad_tokenCost d" now]
  by (auto simp: charge_def split: prod.split)

lemma penalize_inv: "limiter_inv settings n l \<Longrightarrow> limiter_inv settings n (fst (penalize l conn d now))"
  using debit_inv [of settings n l conn "ad_tokenCost d" now] by (simp add: penalize_def)

lemma filter_inv:
  assumes "limiter_inv settings n l"
  shows "limiter_inv settings n (l\<lparr>lm_buckets := filter P (lm_buckets l)\<rparr>)"
proof -
  have "length (filter P (lm_buckets l)) \<le> length (lm_buckets l)" by (rule length_filter_le)
  moreover have "distinct (keys (lm_buckets l))" "length (lm_buckets l) \<le> max 1 n"
    using assms by (simp_all only: limiter_inv_def)
  ultimately have "distinct (keys (filter P (lm_buckets l)))" "length (filter P (lm_buckets l)) \<le> max 1 n"
    by (simp_all only: distinct_map_filter order_trans)
  with assms show ?thesis by (simp add: limiter_inv_def)
qed

lemma rehash_inv:
  assumes "limiter_inv settings n l" and "mset bs = mset (lm_buckets l)"
  shows "limiter_inv settings n (l\<lparr>lm_buckets := bs\<rparr>)"
proof -
  have "mset (keys bs) = mset (keys (lm_buckets l))" using assms(2) by simp
  moreover have "distinct (keys (lm_buckets l))" using assms(1) by (simp add: limiter_inv_def)
  ultimately have "distinct (keys bs)" using mset_eq_imp_distinct_iff by blast
  moreover have "set bs = set (lm_buckets l)" "length bs = length (lm_buckets l)"
    using assms(2) mset_eq_setD mset_eq_length by blast+
  ultimately show ?thesis using assms(1) by (simp add: limiter_inv_def)
qed

lemma limiter_step_inv:
  assumes "limiter_step l l'" and "limiter_inv settings n l"
  shows "limiter_inv settings n l'"
  using assms
proof (induction rule: limiter_step.induct)
  case (disconnect l conn)
  then show ?case unfolding onDisconnect_def erase_def by (rule filter_inv)
next
  case (sweep l now idleFor)
  then show ?case unfolding sweepIdle_def by (rule filter_inv)
qed (simp_all add: rehash_inv charge_inv penalize_inv)

lemma limiter_new_inv: "limiter_inv settings n (limiter_new settings n)"
  by (simp add: limiter_inv_def limiter_new_def)

lemma limiter_reach_inv: "limiter_reach settings n l \<Longrightarrow> limiter_inv settings n l"
  by (induction rule: limiter_reach.induct) (blast intro: limiter_new_inv limiter_step_inv)+

text \<open>Both admission stages are one charge or one penalty.\<close>

lemma admitPre_step: "limiter_step l (fst (admitPre sp l conn payload now))"
  by (auto simp: admitPre_def Let_def intro: limiter_step.intros)

lemma admit_step: "limiter_step l (fst (admit sp dflt l conn visitor now))"
  by (auto simp: admit_def Let_def intro: limiter_step.intros split: prod.split)

section \<open>Tokens of a connection\<close>

text \<open>What a connection could spend: an untracked one would get a full bucket.\<close>

definition tokens_for :: "'c limiter \<Rightarrow> 'c \<Rightarrow> int \<Rightarrow> real" where
  "tokens_for l conn now =
     (case map_of (lm_buckets l) conn of
        Some be \<Rightarrow> available now (be_bucket be)
      | None \<Rightarrow> bs_capacity (lm_settings l))"

definition settings_ok :: "BucketSettings \<Rightarrow> bool" where
  "settings_ok settings = (0 < bs_capacity settings \<and> 0 < bs_refillRatePerSecond settings)"

lemma entry_bucket_ok: "settings_ok settings \<Longrightarrow> entry_ok settings be \<Longrightarrow> bucket_ok (be_bucket be)"
  by (simp add: settings_ok_def entry_ok_def bucket_ok_def)

lemma touchBucket_tokens:
  assumes "settings_ok (lm_settings l)"
  shows "available now (snd (touchBucket l conn now)) = tokens_for l conn now"
  using assms
  by (auto simp: touchBucket_def tokens_for_def Let_def available_def TokenBucket_new_def
      storage_balance_def fullStartZeroTime_def settings_ok_def split: option.split)

lemma debit_ok:
  assumes "limiter_inv settings n l" and "settings_ok settings"
  shows "snd (debit l conn cost now) \<longleftrightarrow> cost \<le> 0 \<or> cost \<le> tokens_for l conn now"
proof -
  obtain bs b where t: "touchBucket l conn now = (bs, b)" by fastforce
  have "bucket_ok b"
    using entry_bucket_ok [OF assms(2) touchBucket_inv(5) [OF assms(1), of conn now]] t by simp
  moreover have "available now b = tokens_for l conn now"
    using touchBucket_tokens [of l now conn] assms t by (simp add: limiter_inv_def)
  ultimately show ?thesis
    using bucket.consume_iff [of b cost now] bucket.consume_free [of cost now b] t
    by (cases "0 < cost") (auto simp: debit_def split: prod.split)
qed

lemma debit_own:
  assumes "limiter_inv settings n l" and "settings_ok settings"
  shows "tokens_for (fst (debit l conn cost now)) conn now +
      (if snd (debit l conn cost now) then max 0 cost else 0) = tokens_for l conn now"
proof -
  obtain bs b where t: "touchBucket l conn now = (bs, b)" by fastforce
  obtain b' ok where c: "tryConsume cost now b = (b', ok)" by fastforce
  have "map_of bs conn = Some \<lparr>be_bucket = b, be_lastSeen = now\<rparr>"
    using touchBucket_inv(4) [OF assms(1), of conn now] t by simp
  then have m: "map_of (set_entry conn \<lparr>be_bucket = b', be_lastSeen = now\<rparr> bs) conn =
      Some \<lparr>be_bucket = b', be_lastSeen = now\<rparr>"
    by (simp add: map_of_set_entry)
  have g: "bucket_ok b"
    using entry_bucket_ok [OF assms(2) touchBucket_inv(5) [OF assms(1), of conn now]] t by simp
  have "available now b = tokens_for l conn now"
    using touchBucket_tokens [of l now conn] assms t by (simp add: limiter_inv_def)
  moreover have "available now b' + (if ok then max 0 cost else 0) = available now b"
    using bucket.consume_debits [OF g, of cost now] bucket.consume_fails [OF g, of cost now]
      bucket.consume_free [of cost now b] c
    by (cases "0 < cost"; cases ok) auto
  ultimately show ?thesis
    by (simp add: debit_def t c tokens_for_def m)
qed

text \<open>A connection's tokens are its own: without an eviction the others' requests leave them alone.\<close>

definition has_room :: "'c limiter \<Rightarrow> 'c \<Rightarrow> bool" where
  "has_room l conn =
     (conn \<in> set (keys (lm_buckets l)) \<or> length (lm_buckets l) < lm_maxConnections l)"

lemma touchBucket_other:
  assumes "has_room l conn" and "conn' \<noteq> conn"
  shows "map_of (fst (touchBucket l conn now)) conn' = map_of (lm_buckets l) conn'"
  using assms
  by (auto simp: touchBucket_def has_room_def Let_def map_of_set_entry map_of_eq_None_iff
      split: option.split)

lemma debit_other:
  assumes "has_room l conn" and "conn' \<noteq> conn"
  shows "tokens_for (fst (debit l conn cost now)) conn' t = tokens_for l conn' t"
proof -
  obtain bs b where t: "touchBucket l conn now = (bs, b)" by fastforce
  obtain b' ok where c: "tryConsume cost now b = (b', ok)" by fastforce
  show ?thesis
    using touchBucket_other [OF assms, of now] assms(2)
    by (simp add: debit_def t c tokens_for_def map_of_set_entry split: option.split)
qed

lemma set_keys_set_entry [simp]: "fst ` set (set_entry conn be bs) = fst ` set bs"
  by (metis keys_set_entry set_map)

lemma touchBucket_keys:
  assumes "has_room l conn"
  shows "fst ` set (fst (touchBucket l conn now)) = insert conn (fst ` set (lm_buckets l))"
proof (cases "map_of (lm_buckets l) conn")
  case None
  then have "conn \<notin> fst ` set (lm_buckets l)" by (simp add: map_of_eq_None_iff)
  with None assms show ?thesis by (simp add: touchBucket_def has_room_def Let_def)
next
  case (Some be)
  then have "conn \<in> fst ` set (lm_buckets l)" using map_of_SomeD [OF Some] by (force simp: image_iff)
  with Some show ?thesis by (simp add: touchBucket_def insert_absorb)
qed

lemma debit_keys:
  assumes "has_room l conn"
  shows "set (keys (lm_buckets (fst (debit l conn cost now)))) = insert conn (set (keys (lm_buckets l)))"
  using touchBucket_keys [OF assms, of now]
  by (cases "touchBucket l conn now") (simp add: debit_def split: prod.split)

lemma refill_tokens_for:
  assumes "limiter_inv settings n l" and "settings_ok settings" and "t \<le> t'"
  shows "tokens_for l conn t' \<le>
    tokens_for l conn t + bs_refillRatePerSecond settings * (toSeconds t' - toSeconds t)"
proof (cases "map_of (lm_buckets l) conn")
  case None
  have "0 \<le> bs_refillRatePerSecond settings * (toSeconds t' - toSeconds t)"
    using assms(2,3) toSeconds_mono by (simp add: settings_ok_def)
  with None show ?thesis by (simp add: tokens_for_def)
next
  case (Some be)
  then have e: "entry_ok settings be"
    using assms(1) map_of_SomeD [OF Some] by (auto simp: limiter_inv_def)
  with bucket.refill [OF entry_bucket_ok [OF assms(2) e] assms(3)] Some show ?thesis
    by (simp add: tokens_for_def entry_ok_def)
qed

lemma tokens_for_cap:
  assumes "limiter_inv settings n l" and "settings_ok settings"
  shows "tokens_for l conn t \<le> bs_capacity settings" and "0 \<le> tokens_for l conn t"
proof -
  show "tokens_for l conn t \<le> bs_capacity settings"
  proof (cases "map_of (lm_buckets l) conn")
    case None
    with assms show ?thesis by (simp add: tokens_for_def limiter_inv_def)
  next
    case (Some be)
    then have e: "entry_ok settings be"
      using assms(1) map_of_SomeD [OF Some] by (auto simp: limiter_inv_def)
    with bucket.tokens_cap [OF entry_bucket_ok [OF assms(2) e], of t] Some show ?thesis
      by (simp add: tokens_for_def entry_ok_def)
  qed
  show "0 \<le> tokens_for l conn t"
    using assms by (auto simp: tokens_for_def limiter_inv_def settings_ok_def available_def
        split: option.split)
qed

text \<open>Requests of many connections in order, and the total cost that passed for one of them.\<close>

fun run_charges :: "'c limiter \<Rightarrow> ('c \<times> real \<times> int) list \<Rightarrow> 'c \<Rightarrow> 'c limiter \<times> real" where
  "run_charges l [] conn = (l, 0)"
| "run_charges l ((c, cost, now) # rs) conn =
     (case charge l c (decision_admit cost) now of (l', d) \<Rightarrow>
        (case run_charges l' rs conn of (l'', passed) \<Rightarrow>
           (l'', (if c = conn \<and> admitted d then max 0 cost else 0) + passed)))"

lemma charge_debit:
  "fst (charge l c (decision_admit cost) now) = fst (debit l c cost now)"
  "admitted (snd (charge l c (decision_admit cost) now)) \<longleftrightarrow> snd (debit l c cost now)"
  by (simp_all add: charge_def split: prod.split)

lemma run_charges_bound:
  assumes "limiter_inv settings n l" and "settings_ok settings"
    and "card (set (keys (lm_buckets l)) \<union> fst ` set rs) \<le> n"
    and "sorted (t0 # map (\<lambda>r. snd (snd r)) rs)"
  shows "snd (run_charges l rs conn) \<le> tokens_for l conn t0 +
    bs_refillRatePerSecond settings *
      (toSeconds (last (t0 # map (\<lambda>r. snd (snd r)) rs)) - toSeconds t0)"
  using assms(1,3,4)
proof (induction rs arbitrary: l t0)
  case Nil
  then show ?case using tokens_for_cap(2) [OF _ assms(2)] by simp
next
  case (Cons r rs)
  obtain c cost t where r: "r = (c, cost, t)" by (cases r)
  let ?l = "fst (debit l c cost t)"
  let ?K = "set (keys (lm_buckets l))"
  have inv: "limiter_inv settings n ?l" by (rule debit_inv) fact
  have room: "has_room l c"
  proof (cases "c \<in> ?K")
    case False
    have "card (insert c ?K) \<le> card (?K \<union> fst ` set (r # rs))"
      using r by (intro card_mono) auto
    with False have "Suc (card ?K) \<le> n" using Cons.prems(2) by simp
    moreover have "card ?K = length (lm_buckets l)"
      using Cons.prems(1) distinct_card [of "keys (lm_buckets l)"] by (simp add: limiter_inv_def)
    ultimately show ?thesis using Cons.prems(1) by (simp add: has_room_def limiter_inv_def)
  qed (simp add: has_room_def)
  have k: "set (keys (lm_buckets ?l)) \<union> fst ` set rs = ?K \<union> fst ` set (r # rs)"
    using debit_keys [OF room, of cost t] r by auto
  have s: "t0 \<le> t" "sorted (t # map (\<lambda>r. snd (snd r)) rs)" using Cons.prems(3) r by auto
  have own: "tokens_for ?l conn t + (if c = conn \<and> snd (debit l c cost t) then max 0 cost else 0) =
      tokens_for l conn t"
    using debit_own [OF Cons.prems(1) assms(2), of c cost t] debit_other [OF room, of conn cost t t]
    by (cases "c = conn") auto
  have "snd (run_charges ?l rs conn) \<le> tokens_for ?l conn t + bs_refillRatePerSecond settings *
      (toSeconds (last (t # map (\<lambda>r. snd (snd r)) rs)) - toSeconds t)"
    using Cons.IH [OF inv _ s(2)] Cons.prems(2) k by simp
  moreover have "snd (run_charges l (r # rs) conn) =
      (if c = conn \<and> snd (debit l c cost t) then max 0 cost else 0) + snd (run_charges ?l rs conn)"
  proof -
    obtain l' d where c: "charge l c (decision_admit cost) t = (l', d)" by fastforce
    with charge_debit [of l c cost t] have "l' = ?l" "admitted d \<longleftrightarrow> snd (debit l c cost t)" by simp_all
    then show ?thesis by (simp add: r c split: prod.split)
  qed
  moreover have "last (t0 # map (\<lambda>r. snd (snd r)) (r # rs)) = last (t # map (\<lambda>r. snd (snd r)) rs)"
    by (simp add: r)
  ultimately show ?case
    using own refill_tokens_for [OF Cons.prems(1) assms(2) s(1), of conn]
    by (simp add: algebra_simps del: last.simps)
qed

lemma map_of_erase_filter: "map_of (erase c bs) = (map_of bs)(c := None)"
  by (rule ext) (simp add: map_of_erase)

lemma charge_map:
  assumes "limiter_inv settings n l" and "c' \<noteq> conn"
  shows "map_of (lm_buckets (fst (charge l conn d now))) c' =
    map_of (fst (touchBucket l conn now)) c'"
  using assms(2) by (simp add: charge_def debit_def map_of_set_entry split: prod.split)

lemma charge_own_tracked:
  assumes "limiter_inv settings n l"
  shows "\<exists>be. map_of (lm_buckets (fst (charge l conn d now))) conn = Some be \<and> be_lastSeen be = now"
  using touchBucket_inv(4) [OF assms, of conn now]
  by (cases "touchBucket l conn now")
    (simp add: charge_def debit_def map_of_set_entry split: prod.split)

section \<open>Properties\<close>

text \<open>
  C30: whatever requests, penalties, disconnects and sweeps arrive, in any order and for any order
  of the hash map, the limiter tracks each connection at most once and no more connections than
  its cap, one when the cap is zero.
\<close>

theorem limiter_size_bound:
  assumes "limiter_reach settings n l"
  shows "limiter_size l \<le> max 1 n \<and> distinct (map fst (lm_buckets l))"
  using limiter_reach_inv [OF assms] by (simp add: limiter_inv_def limiter_size_def)

definition sample_settings :: BucketSettings where
  "sample_settings = \<lparr>bs_capacity = 10, bs_refillRatePerSecond = 1\<rparr>"

definition sample_limiter :: "nat \<Rightarrow> nat limiter" where
  "sample_limiter n = fst (charge (limiter_new sample_settings n) 7 (decision_admit 3) 0)"

lemma sample_limiter_reach: "limiter_reach sample_settings n (sample_limiter n)"
  unfolding sample_limiter_def by (rule next_step [OF start limiter_step.charge])

theorem limiter_size_bound_witness:
  "limiter_size (sample_limiter 0) \<le> max 1 0 \<and> distinct (map fst (lm_buckets (sample_limiter 0)))"
  by (rule limiter_size_bound [OF sample_limiter_reach])

text \<open>
  A limiter that was given a cap of zero connections tracks one after its first charge: the
  eviction that makes room finds nothing to evict and the connection is inserted all the same.
\<close>

lemma limiter_zero_cap:
  "limiter_size (fst (charge (limiter_new settings 0) conn decision now)) = 1"
  by (simp add: limiter_size_def charge_def debit_def touchBucket_def limiter_new_def Let_def
      evictOldest_def split: prod.split)

text \<open>
  C31: a request of an untracked connection, when the map is full, forgets one connection, one of
  those seen least recently, and no other; the new one is tracked with the request's time.
\<close>

theorem limiter_evicts_oldest:
  assumes "limiter_reach settings n l" and "lm_buckets l \<noteq> []" and "n \<le> limiter_size l"
    and "conn \<notin> set (map fst (lm_buckets l))"
  shows "\<exists>old \<in> set (lm_buckets l).
    (\<forall>e \<in> set (lm_buckets l). be_lastSeen (snd old) \<le> be_lastSeen (snd e)) \<and>
    (\<forall>c. c \<noteq> conn \<longrightarrow> map_of (lm_buckets (fst (charge l conn decision now))) c =
      (if c = fst old then None else map_of (lm_buckets l) c)) \<and>
    (\<exists>be. map_of (lm_buckets (fst (charge l conn decision now))) conn = Some be \<and>
      be_lastSeen be = now)"
proof -
  have inv: "limiter_inv settings n l" by (rule limiter_reach_inv) fact
  then have n: "lm_maxConnections l = n" by (simp add: limiter_inv_def)
  obtain old where old: "old \<in> set (lm_buckets l)" "evictOldest (lm_buckets l) = erase (fst old) (lm_buckets l)"
      "\<forall>e \<in> set (lm_buckets l). be_lastSeen (snd old) \<le> be_lastSeen (snd e)"
    using evictOldest_oldest [OF assms(2)] by blast
  have "map_of (lm_buckets l) conn = None" using assms(4) by (simp add: map_of_eq_None_iff)
  then have t: "map_of (fst (touchBucket l conn now)) c = (if c = fst old then None else map_of (lm_buckets l) c)"
    if "c \<noteq> conn" for c
    using that n assms(3) old(2) by (simp add: touchBucket_def Let_def limiter_size_def map_of_erase_filter)
  show ?thesis
    using old(1,3) charge_map [OF inv] t charge_own_tracked [OF inv] by (intro bexI [of _ old]) auto
qed

theorem limiter_evicts_oldest_witness:
  "\<exists>old \<in> set (lm_buckets (sample_limiter 1)).
    (\<forall>e \<in> set (lm_buckets (sample_limiter 1)). be_lastSeen (snd old) \<le> be_lastSeen (snd e)) \<and>
    (\<forall>c. c \<noteq> 8 \<longrightarrow> map_of (lm_buckets (fst (charge (sample_limiter 1) 8 (decision_admit 2) 5))) c =
      (if c = fst old then None else map_of (lm_buckets (sample_limiter 1)) c)) \<and>
    (\<exists>be. map_of (lm_buckets (fst (charge (sample_limiter 1) 8 (decision_admit 2) 5))) 8 = Some be \<and>
      be_lastSeen be = 5)"
  by (rule limiter_evicts_oldest [OF sample_limiter_reach])
    (simp_all add: sample_limiter_def limiter_size_def charge_def debit_def touchBucket_def
      limiter_new_def Let_def evictOldest_def set_entry_def split: prod.split)

text \<open>
  A message passes the first stage exactly when its bytes fit under the cap and its
  connection can pay the ramp cost for them.
\<close>

theorem admitPre_gate:
  assumes "limiter_reach settings n l" and "settings_ok settings"
  shows "admitted (snd (admitPre sp l conn payload now)) \<longleftrightarrow>
    length payload \<le> unat (rt_max_payload_bytes (resolveDefaults sp)) \<and>
    (let cost = costFor (rt_size_ramp (resolveDefaults sp)) (word_of_nat (length payload))
     in cost \<le> 0 \<or> cost \<le> tokens_for l conn now)"
proof -
  let ?cost = "costFor (rt_size_ramp (resolveDefaults sp)) (word_of_nat (length payload))"
  have inv: "limiter_inv settings n l" by (rule limiter_reach_inv) fact
  show ?thesis
    using debit_ok [OF inv assms(2), of conn ?cost now]
    by (auto simp: admitPre_def preAdmit_def Let_def penalize_def charge_def dropped_iff
        split: prod.split)
qed

theorem admitPre_gate_witness:
  "admitted (snd (admitPre sample_spec (sample_limiter 1) 7 [1, 2, 3] 0)) \<longleftrightarrow>
    length [1, 2, 3 :: 8 word] \<le> unat (rt_max_payload_bytes (resolveDefaults sample_spec)) \<and>
    (let cost = costFor (rt_size_ramp (resolveDefaults sample_spec)) (word_of_nat (length [1, 2, 3 :: 8 word]))
     in cost \<le> 0 \<or> cost \<le> tokens_for (sample_limiter 1) 7 0)"
  by (rule admitPre_gate [OF sample_limiter_reach]) (simp add: settings_ok_def sample_settings_def)

text \<open>
  C26: for any requests in time order, as long as the connections that ask and those tracked fit
  under the cap, so that none is evicted, the cost that passes for one connection is at most a
  full bucket and what the refill rate gives over the time observed, however the requests of the
  others interleave with its own.
\<close>

theorem connection_rate_limit:
  assumes "limiter_reach settings n l" and "settings_ok settings"
    and "card (set (map fst (lm_buckets l)) \<union> fst ` set rs) \<le> n"
    and "sorted (t0 # map (\<lambda>r. snd (snd r)) rs)"
  shows "snd (run_charges l rs conn) \<le> bs_capacity settings + bs_refillRatePerSecond settings *
    (toSeconds (last (t0 # map (\<lambda>r. snd (snd r)) rs)) - toSeconds t0)"
proof -
  have inv: "limiter_inv settings n l" by (rule limiter_reach_inv) fact
  show ?thesis
    using run_charges_bound [OF inv assms(2,3,4), of conn] tokens_for_cap(1) [OF inv assms(2), of conn t0]
    by linarith
qed

theorem connection_rate_limit_witness:
  "snd (run_charges (sample_limiter 2) [(7, 4, 0), (8, 9, 5), (7, 4, 10 ^ 9)] 7) \<le>
    bs_capacity sample_settings + bs_refillRatePerSecond sample_settings *
    (toSeconds (last (0 # map (\<lambda>r. snd (snd r)) [(7, 4, 0), (8, 9, 5), (7 :: nat, 4 :: real, 10 ^ 9)]))
      - toSeconds 0)"
  by (rule connection_rate_limit [OF sample_limiter_reach])
    (simp_all add: settings_ok_def sample_settings_def sample_limiter_def charge_def debit_def
      touchBucket_def limiter_new_def Let_def set_entry_def insert_commute [of 7 8] split: prod.split)

end
