(* ===== verification/AdmProtobuf.thy ===== *)
theory AdmProtobuf
  imports AdmTypes
begin

text \<open>
  \<^verbatim>\<open>include/admissionspec/ProtobufVisitor.hpp\<close>: the traversal of a serialized protobuf message and of
  packed fields. A span is a list of bytes and a position in it. A visit returns the state of the
  check and its decision, or \<open>Inl\<close> of what the language does not define: a shift by the width of
  the type or more, a subspan that leaves its span. The visit is over there, since the language says
  nothing of what follows; \<open>AdmOverrun\<close> has the visitor as it is compiled, which goes on. \<^verbatim>\<open>size_t\<close> is 64 bits wide and
  \<^verbatim>\<open>memcpy\<close> reads the little-endian order of the supported targets.
\<close>

unbundle bit_operations_syntax

section \<open>Varints\<close>

text \<open>\<^verbatim>\<open>readVarint\<close>: the new position, and the value unless the bytes ended first.\<close>

function readVarint_from :: "8 word list \<Rightarrow> nat \<Rightarrow> uint64 \<Rightarrow> nat \<Rightarrow> exn + nat \<times> uint64 option" where
  "readVarint_from bytes pos result shift =
     (if pos < length bytes then
        (let byte = bytes ! pos in
         if 64 \<le> shift then Inl BadShift
         else
           (let result' = result OR push_bit shift (ucast (byte AND 0x7F)) in
            if byte AND 0x80 = 0 then Inr (pos + 1, Some result')
            else readVarint_from bytes (pos + 1) result' (shift + 7)))
      else Inr (pos, None))"
  by pat_completeness auto
termination by (relation "measure (\<lambda>(bytes, pos, _, _). length bytes - pos)") auto

declare readVarint_from.simps [simp del]

definition readVarint :: "8 word list \<Rightarrow> nat \<Rightarrow> exn + nat \<times> uint64 option" where
  "readVarint bytes pos = readVarint_from bytes pos 0 0"

lemma readVarint_from_pos:
  "readVarint_from bytes pos result shift = Inr (pos', out) \<Longrightarrow>
     pos \<le> pos' \<and> (out \<noteq> None \<longrightarrow> pos < pos' \<and> pos' \<le> length bytes)"
proof (induction bytes pos result shift rule: readVarint_from.induct)
  case (1 bytes pos result shift)
  from "1.prems" have "(if pos < length bytes then
        (let byte = bytes ! pos in
         if 64 \<le> shift then Inl BadShift
         else
           (let result' = result OR push_bit shift (ucast (byte AND 0x7F)) in
            if byte AND 0x80 = 0 then Inr (pos + 1, Some result')
            else readVarint_from bytes (pos + 1) result' (shift + 7)))
      else Inr (pos, None)) = Inr (pos', out)"
    by (simp only: readVarint_from.simps [of bytes pos result shift])
  with "1.IH" [OF _ refl _ refl] show ?case by (auto simp: Let_def split: if_splits)
qed

lemma readVarint_pos:
  "readVarint bytes pos = Inr (pos', Some x) \<Longrightarrow> pos < pos' \<and> pos' \<le> length bytes"
  using readVarint_from_pos [of bytes pos 0 0] by (simp add: readVarint_def)

section \<open>The message visitor\<close>

type_synonym 's visit = "'s \<times> (exn + AdmissionDecision)"

definition invalid_payload :: "real \<Rightarrow> AdmissionDecision" where
  "invalid_payload cost = decision_drop ''Invalid protobuf payload'' cost"

definition scalar_event :: "uint64 \<Rightarrow> int64 \<Rightarrow> VisitEvent" where
  "scalar_event field x = event_default\<lparr>ev_kind := Int64, ev_fieldNumber := field, ev_value := VInt64 x\<rparr>"

definition bytes_event :: "uint64 \<Rightarrow> 8 word list \<Rightarrow> VisitEvent" where
  "bytes_event field body =
     event_default\<lparr>ev_kind := Bytes, ev_fieldNumber := field, ev_value := VBytes body\<rparr>"

fun le_value :: "8 word list \<Rightarrow> nat" where
  "le_value [] = 0"
| "le_value (b # bs) = unat b + 256 * le_value bs"

definition handleInt ::
    "real \<Rightarrow> 's checker \<Rightarrow> 8 word list \<Rightarrow> nat \<Rightarrow> uint64 \<Rightarrow> nat \<Rightarrow> 's \<Rightarrow> 's \<times> nat \<times> AdmissionDecision" where
  "handleInt cost check bytes pos field width s =
     (if length bytes < pos + width then (s, pos, invalid_payload cost)
      else
        (case check s (scalar_event field (word_of_nat (le_value (take width (drop pos bytes))))) of
          (s', decision) \<Rightarrow> (s', pos + width, decision)))"

text \<open>The switch over the wire type: the state, the position and the decision it leaves.\<close>

definition visit_field ::
    "real \<Rightarrow> 's checker \<Rightarrow> 8 word list \<Rightarrow> nat \<Rightarrow> uint64 \<Rightarrow> uint64 \<Rightarrow> 's \<Rightarrow>
     's \<times> (exn + nat \<times> AdmissionDecision)" where
  "visit_field cost check bytes pos field wireType s =
     (if wireType = 0 then
        (case readVarint bytes pos of
           Inl e \<Rightarrow> (s, Inl e)
         | Inr (pos', None) \<Rightarrow> (s, Inr (pos', invalid_payload cost))
         | Inr (pos', Some x) \<Rightarrow>
             (case check s (scalar_event field x) of (s', decision) \<Rightarrow> (s', Inr (pos', decision))))
      else if wireType = 1 then
        (case handleInt cost check bytes pos field 8 s of (s', r) \<Rightarrow> (s', Inr r))
      else if wireType = 5 then
        (case handleInt cost check bytes pos field 4 s of (s', r) \<Rightarrow> (s', Inr r))
      else if wireType = 2 then
        (case readVarint bytes pos of
           Inl e \<Rightarrow> (s, Inl e)
         | Inr (pos', None) \<Rightarrow> (s, Inr (pos', invalid_payload cost))
         | Inr (pos', Some len) \<Rightarrow>
             if length bytes < unat (word_of_nat pos' + len) then (s, Inr (pos', invalid_payload cost))
             else if length bytes < pos' + unat len then (s, Inl BadSpan)
             else
               (case check s (bytes_event field (take (unat len) (drop pos' bytes))) of
                  (s', decision) \<Rightarrow> (s', Inr (pos' + unat len, decision))))
      else (s, Inr (pos, decision_admit 0)))"

lemma handleInt_pos: "handleInt cost check bytes pos field w s = (s', pos', d) \<Longrightarrow> pos \<le> pos'"
  by (auto simp: handleInt_def split: if_splits prod.splits)

lemma visit_field_pos:
  assumes "visit_field cost check bytes pos field wireType s = (s', Inr (pos', d))"
  shows "pos \<le> pos'"
proof -
  have "pos \<le> p" if "readVarint bytes pos = Inr (p, out)" for p out
    using that readVarint_from_pos [of bytes pos 0 0] by (simp add: readVarint_def)
  with assms show ?thesis
    by (auto simp: visit_field_def split: if_splits sum.splits prod.splits option.splits
        dest: handleInt_pos)
qed

function visitProtobuf_from ::
    "real \<Rightarrow> 's checker \<Rightarrow> 8 word list \<Rightarrow> nat \<Rightarrow> 's \<Rightarrow> 's visit" where
  "visitProtobuf_from cost check bytes pos s =
     (if pos < length bytes then
        (case readVarint bytes pos of
           Inl e \<Rightarrow> (s, Inl e)
         | Inr (pos1, None) \<Rightarrow> (s, Inr (invalid_payload cost))
         | Inr (pos1, Some tag) \<Rightarrow>
             (case visit_field cost check bytes pos1 (drop_bit 3 tag) (tag AND 0x07) s of
                (s', Inl e) \<Rightarrow> (s', Inl e)
              | (s', Inr (pos2, decision)) \<Rightarrow>
                  if dropped decision then (s', Inr decision)
                  else visitProtobuf_from cost check bytes pos2 s'))
      else (s, Inr (decision_admit 0)))"
  by pat_completeness auto
termination
  by (relation "measure (\<lambda>(_, _, bytes, pos, _). length bytes - pos)")
    (auto dest!: readVarint_pos visit_field_pos [OF sym] intro: diff_less_mono2)

declare visitProtobuf_from.simps [simp del]

text \<open>\<^verbatim>\<open>costForInvalidPayload\<close> is the option \<open>cost\<close>.\<close>

definition visitProtobuf :: "real \<Rightarrow> 's checker \<Rightarrow> 8 word list \<Rightarrow> 's \<Rightarrow> 's visit" where
  "visitProtobuf cost check bytes s = visitProtobuf_from cost check bytes 0 s"

section \<open>Packed fields\<close>

function visitPackedVarint_from ::
    "real \<Rightarrow> 's checker \<Rightarrow> 8 word list \<Rightarrow> uint64 \<Rightarrow> nat \<Rightarrow> 's \<Rightarrow> 's visit" where
  "visitPackedVarint_from cost check body field pos s =
     (if pos < length body then
        (case readVarint body pos of
           Inl e \<Rightarrow> (s, Inl e)
         | Inr (pos', None) \<Rightarrow> (s, Inr (invalid_payload cost))
         | Inr (pos', Some varint) \<Rightarrow>
             (case check s (scalar_event field varint) of
                (s', decision) \<Rightarrow>
                  if dropped decision then (s', Inr decision)
                  else visitPackedVarint_from cost check body field pos' s'))
      else (s, Inr (decision_admit 0)))"
  by pat_completeness auto
termination
  by (relation "measure (\<lambda>(_, _, body, _, pos, _). length body - pos)")
    (auto dest!: readVarint_pos)

declare visitPackedVarint_from.simps [simp del]

definition visitPackedVarint ::
    "real \<Rightarrow> 's checker \<Rightarrow> 8 word list \<Rightarrow> uint64 \<Rightarrow> 's \<Rightarrow> 's visit" where
  "visitPackedVarint cost check body field s = visitPackedVarint_from cost check body field 0 s"

text \<open>
  \<^verbatim>\<open>PackedTrait\<close>: the element is read unsigned at its width and written signed at the same width,
  whichever sign the schema's type has.
\<close>

datatype packed_type = PU32 | PI32 | PU64 | PI64

definition packed_size :: "packed_type \<Rightarrow> nat" where
  "packed_size t = (if t = PU32 \<or> t = PI32 then 4 else 8)"

definition packed_value :: "packed_type \<Rightarrow> nat \<Rightarrow> int64" where
  "packed_value t n =
     (if t = PU32 \<or> t = PI32 then scast (word_of_nat n :: 32 word) else word_of_nat n)"

function visitPackedFixed_from ::
    "packed_type \<Rightarrow> 's checker \<Rightarrow> 8 word list \<Rightarrow> uint64 \<Rightarrow> nat \<Rightarrow> 's \<Rightarrow> 's visit" where
  "visitPackedFixed_from t check body field pos s =
     (if pos + packed_size t \<le> length body then
        (case check s (scalar_event field
            (packed_value t (le_value (take (packed_size t) (drop pos body))))) of
          (s', decision) \<Rightarrow>
            if dropped decision then (s', Inr decision)
            else visitPackedFixed_from t check body field (pos + packed_size t) s')
      else (s, Inr (decision_admit 0)))"
  by pat_completeness auto
termination
  by (relation "measure (\<lambda>(_, _, body, _, pos, _). length body - pos)")
    (auto simp: packed_size_def split: if_splits)

declare visitPackedFixed_from.simps [simp del]

definition visitPackedFixed ::
    "packed_type \<Rightarrow> 's checker \<Rightarrow> 8 word list \<Rightarrow> uint64 \<Rightarrow> 's \<Rightarrow> 's visit" where
  "visitPackedFixed t check body field s = visitPackedFixed_from t check body field 0 s"

section \<open>The wire format\<close>

text \<open>What a sender writes: the specification the visitors are measured against.\<close>

fun encode_varint :: "nat \<Rightarrow> 8 word list" where
  "encode_varint n =
     (if n < 128 then [word_of_nat n] else word_of_nat (128 + n mod 128) # encode_varint (n div 128))"

declare encode_varint.simps [simp del]

fun le_bytes :: "nat \<Rightarrow> nat \<Rightarrow> 8 word list" where
  "le_bytes 0 n = []"
| "le_bytes (Suc k) n = word_of_nat n # le_bytes k (n div 256)"

datatype wire_value = WVarint uint64 | WI64 uint64 | WI32 uint32 | WLen "8 word list"

type_synonym wire_field = "uint64 \<times> wire_value"

fun wire_type :: "wire_value \<Rightarrow> nat" where
  "wire_type (WVarint x) = 0"
| "wire_type (WI64 x) = 1"
| "wire_type (WLen b) = 2"
| "wire_type (WI32 x) = 5"

fun encode_value :: "wire_value \<Rightarrow> 8 word list" where
  "encode_value (WVarint x) = encode_varint (unat x)"
| "encode_value (WI64 x) = le_bytes 8 (unat x)"
| "encode_value (WI32 x) = le_bytes 4 (unat x)"
| "encode_value (WLen b) = encode_varint (length b) @ b"

definition encode_field :: "wire_field \<Rightarrow> 8 word list" where
  "encode_field fx =
     encode_varint (8 * unat (fst fx) + wire_type (snd fx)) @ encode_value (snd fx)"

fun field_event :: "wire_field \<Rightarrow> VisitEvent" where
  "field_event (f, WVarint x) = scalar_event f x"
| "field_event (f, WI64 x) = scalar_event f x"
| "field_event (f, WI32 x) = scalar_event f (ucast x)"
| "field_event (f, WLen b) = bytes_event f b"

definition field_number_ok :: "wire_field \<Rightarrow> bool" where
  "field_number_ok fx = (unat (fst fx) < 2 ^ 61)"

text \<open>A check fed with events in order, until it drops.\<close>

fun feed :: "'s checker \<Rightarrow> VisitEvent list \<Rightarrow> 's \<Rightarrow> 's visit" where
  "feed check [] s = (s, Inr (decision_admit 0))"
| "feed check (ev # evs) s =
     (case check s ev of (s', d) \<Rightarrow> if dropped d then (s', Inr d) else feed check evs s')"

section \<open>The contract of a visitor\<close>

text \<open>
  A visitor that, wherever it stands, reports the element it stands on and moves past it, and
  admits at a tail, reports all elements of a payload in order.
\<close>

locale element_scan =
  fixes visit :: "'s checker \<Rightarrow> 8 word list \<Rightarrow> nat \<Rightarrow> 's \<Rightarrow> 's visit"
    and encode :: "'a \<Rightarrow> 8 word list"
    and event :: "'a \<Rightarrow> VisitEvent"
    and good :: "'a \<Rightarrow> bool"
    and tail :: "8 word list \<Rightarrow> bool"
  assumes visit_tail: "tail (drop pos bytes) \<Longrightarrow> visit check bytes pos s = (s, Inr (decision_admit 0))"
    and visit_element: "drop pos bytes = encode x @ rest \<Longrightarrow> good x \<Longrightarrow> length bytes < 2 ^ 64 \<Longrightarrow>
      visit check bytes pos s =
        (case check s (event x) of (s', d) \<Rightarrow>
           if dropped d then (s', Inr d) else visit check bytes (pos + length (encode x)) s')"
begin

lemma visit_elements:
  assumes "drop pos bytes = concat (map encode xs) @ t" and "list_all good xs" and "tail t"
    and "length bytes < 2 ^ 64"
  shows "visit check bytes pos s = feed check (map event xs) s"
  using assms(1,2)
proof (induction xs arbitrary: pos s)
  case Nil
  with assms(3) show ?case by (simp add: visit_tail)
next
  case (Cons x xs)
  have here: "drop pos bytes = encode x @ concat (map encode xs) @ t" using Cons.prems by simp
  then have "drop (length (encode x)) (drop pos bytes) = concat (map encode xs) @ t" by simp
  then have "drop (pos + length (encode x)) bytes = concat (map encode xs) @ t" by (simp add: add.commute)
  with Cons.IH [of "pos + length (encode x)"] Cons.prems(2) visit_element [OF here _ assms(4)]
  show ?case by (simp split: prod.split)
qed

end

section \<open>Decoding one element\<close>

lemma drop_Cons_nth: "drop pos xs = y # ys \<Longrightarrow> pos < length xs \<and> xs ! pos = y \<and> drop (Suc pos) xs = ys"
  by (metis Cons_nth_drop_Suc drop_eq_Nil2 linorder_not_less list.distinct(1) list.inject)

lemma bit_word_of_nat: "bit (word_of_nat m :: 'a::len word) n \<longleftrightarrow> n < LENGTH('a) \<and> bit m n"
  by (metis bit_of_nat_iff_bit bit_word_of_int_iff of_int_of_nat_eq)

lemma or_push_nat:
  assumes "r < 2 ^ s"
  shows "(word_of_nat r :: 64 word) OR push_bit s (word_of_nat m) = word_of_nat (r + m * 2 ^ s)"
proof -
  have "\<not> bit r i" if "s \<le> i" for i
    using that assms by (metis bit_take_bit_iff linorder_not_less take_bit_nat_eq_self)
  then have "(word_of_nat r :: 64 word) AND push_bit s (word_of_nat m) = 0"
    by (auto intro!: bit_word_eqI simp: bit_and_iff bit_push_bit_iff bit_word_of_nat)
  then show ?thesis
    using word_plus_and_or [of "word_of_nat r :: 64 word" "push_bit s (word_of_nat m)"]
    by (simp add: push_bit_eq_mult)
qed

lemma low7: "ucast ((word_of_nat m :: 8 word) AND 0x7F) = (word_of_nat (m mod 128) :: 64 word)"
proof -
  have "(word_of_nat m :: 8 word) AND 0x7F = take_bit 7 (word_of_nat m)"
    by (simp add: take_bit_eq_mask mask_eq_exp_minus_1)
  also have "\<dots> = word_of_nat (take_bit 7 m)"
    by (auto intro!: bit_word_eqI simp: bit_take_bit_iff bit_word_of_nat)
  finally have "unat ((word_of_nat m :: 8 word) AND 0x7F) = m mod 128"
    by (simp add: take_bit_eq_mod unat_of_nat)
  then show ?thesis by (metis of_nat_unat)
qed

lemma high7: "(word_of_nat m :: 8 word) AND 0x80 = 0 \<longleftrightarrow> even (m div 128)"
proof -
  have m: "(0x80 :: 8 word) = push_bit 7 1" by (simp add: push_bit_eq_mult)
  have "bit (0x80 :: 8 word) n \<longleftrightarrow> n = 7" for n
    unfolding m bit_push_bit_iff bit_1_iff by auto
  then have b: "bit ((word_of_nat m :: 8 word) AND 0x80) n \<longleftrightarrow> n = 7 \<and> bit m 7" for n
    by (auto simp: bit_and_iff bit_word_of_nat)
  have "(word_of_nat m :: 8 word) AND 0x80 = 0 \<longleftrightarrow> \<not> bit m 7"
  proof
    assume "(word_of_nat m :: 8 word) AND 0x80 = 0"
    with b [of 7] show "\<not> bit m 7" by simp
  next
    assume "\<not> bit m 7"
    with b show "(word_of_nat m :: 8 word) AND 0x80 = 0" by (intro bit_word_eqI) simp
  qed
  then show ?thesis by (simp add: bit_iff_odd)
qed

lemma readVarint_from_encode:
  assumes "drop pos bytes = encode_varint n @ rest" and "r < 2 ^ shift" and "n * 2 ^ shift < 2 ^ 64"
    and "shift < 64"
  shows "readVarint_from bytes pos (word_of_nat r) shift =
    Inr (pos + length (encode_varint n), Some (word_of_nat (r + n * 2 ^ shift)))"
  using assms
proof (induction n arbitrary: pos r shift rule: less_induct)
  case (less n)
  let ?r = "r + (n mod 128) * 2 ^ shift"
  show ?case
  proof (cases "n < 128")
    case True
    then have e: "encode_varint n = [word_of_nat n]" by (simp add: encode_varint.simps)
    with less.prems(1) have "pos < length bytes \<and> bytes ! pos = word_of_nat n"
      using drop_Cons_nth [of pos bytes "word_of_nat n" rest] by simp
    with True e less.prems(2,4) show ?thesis
      by (subst readVarint_from.simps) (simp add: Let_def low7 high7 or_push_nat)
  next
    case False
    let ?b = "word_of_nat (128 + n mod 128) :: 8 word"
    have e: "encode_varint n = ?b # encode_varint (n div 128)"
      using False by (simp add: encode_varint.simps [of n])
    with less.prems(1) have d: "pos < length bytes \<and> bytes ! pos = ?b \<and>
        drop (Suc pos) bytes = encode_varint (n div 128) @ rest"
      using drop_Cons_nth [of pos bytes ?b "encode_varint (n div 128) @ rest"] by simp
    have r: "?r < 2 ^ (shift + 7)"
    proof -
      have "n mod 128 * 2 ^ shift \<le> 127 * 2 ^ shift" by (intro mult_le_mono1) auto
      with less.prems(2) have "?r < 2 ^ shift + 127 * 2 ^ shift" by (rule add_less_le_mono)
      then show ?thesis by (simp add: power_add)
    qed
    have "n div 128 * 2 ^ (shift + 7) \<le> n * 2 ^ shift"
      using mult_le_mono1 [of "n div 128 * 128" n "2 ^ shift"] by (simp add: power_add ac_simps)
    with less.prems(3) have n: "n div 128 * 2 ^ (shift + 7) < 2 ^ 64" by simp
    have "1 * 2 ^ (shift + 7) \<le> n div 128 * (2 :: nat) ^ (shift + 7)"
      using False by (intro mult_le_mono1) auto
    with n have "(2 :: nat) ^ (shift + 7) < 2 ^ 64" by (metis le_less_trans mult_1)
    then have s: "shift + 7 < 64" by (simp only: power_strict_increasing_iff)
    have "n * 2 ^ shift = (n div 128 * 128 + n mod 128) * 2 ^ shift" by (simp only: div_mult_mod_eq)
    then have sum: "?r + n div 128 * 2 ^ (shift + 7) = r + n * 2 ^ shift"
      unfolding distrib_right power_add by simp
    have "readVarint_from bytes pos (word_of_nat r) shift =
        readVarint_from bytes (Suc pos) (word_of_nat ?r) (shift + 7)"
      using d less.prems(2,4)
      by (subst readVarint_from.simps)
        (simp add: Let_def low7 high7 or_push_nat del: of_nat_add of_nat_mult)
    also have "\<dots> = Inr (Suc pos + length (encode_varint (n div 128)),
        Some (word_of_nat (?r + n div 128 * 2 ^ (shift + 7))))"
      using d False by (intro less.IH r n s) auto
    finally show ?thesis unfolding sum e by simp
  qed
qed

lemma readVarint_encode:
  assumes "drop pos bytes = encode_varint n @ rest" and "n < 2 ^ 64"
  shows "readVarint bytes pos = Inr (pos + length (encode_varint n), Some (word_of_nat n))"
  using readVarint_from_encode [OF assms(1), of 0 0] assms(2) by (simp add: readVarint_def)

lemma encode_varint_ne [simp]: "encode_varint n \<noteq> []"
  by (subst encode_varint.simps) simp

lemma length_le_bytes [simp]: "length (le_bytes k n) = k"
  by (induction k n rule: le_bytes.induct) auto

lemma le_bytes_ne [simp]: "le_bytes k n = [] \<longleftrightarrow> k = 0"
  using length_le_bytes [of k n] by (cases "le_bytes k n") auto

lemma le_value_le_bytes: "le_value (le_bytes k n) = n mod 256 ^ k"
proof (induction k n rule: le_bytes.induct)
  case (2 k n)
  have "unat (word_of_nat n :: 8 word) = n mod 256" by (simp add: unat_of_nat)
  with 2 show ?case by (simp add: mod_mult2_eq [of n 256 "256 ^ k"])
qed simp

lemma word_of_unat: "unat (x :: 'a::len word) = n \<Longrightarrow> word_of_nat n = x"
  by auto

lemma unat_field: "unat (drop_bit 3 (tag :: uint64)) = unat tag div 8"
  by (simp add: drop_bit_eq_div unat_div_distrib)

lemma unat_wire_type: "unat ((tag :: uint64) AND 0x07) = unat tag mod 8"
proof -
  have "tag AND 0x07 = take_bit 3 tag" by (simp add: take_bit_eq_mask mask_eq_exp_minus_1)
  then show ?thesis by (simp add: unat_mod_distrib take_bit_eq_mod)
qed

lemma tag_parts:
  assumes "unat f < 2 ^ 61" and "wt < 8"
  shows "drop_bit 3 (word_of_nat (8 * unat f + wt)) = (f :: uint64)"
    and "(word_of_nat (8 * unat f + wt) :: uint64) AND 0x07 = word_of_nat wt"
    and "8 * unat f + wt < 2 ^ 64"
proof -
  let ?tag = "word_of_nat (8 * unat f + wt) :: uint64"
  show b: "8 * unat f + wt < 2 ^ 64" using assms by simp
  then have u: "unat ?tag = 8 * unat f + wt"
    by (simp add: unat_of_nat take_bit_eq_mod del: of_nat_add of_nat_mult)
  have "unat (drop_bit 3 ?tag) = unat f" using assms(2) by (simp only: unat_field u; simp)
  then show "drop_bit 3 ?tag = f" by (metis word_unat_eq_iff)
  have "unat (?tag AND 0x07) = wt" using assms(2) by (simp only: unat_wire_type u; simp)
  then show "?tag AND 0x07 = word_of_nat wt" by (rule word_of_unat [symmetric])
qed

section \<open>The visitors meet the contract\<close>

lemma take_drop_app: "drop pos bytes = a @ rest \<Longrightarrow> take (length a) (drop pos bytes) = a"
  by simp

lemma drop_app_length: "drop pos bytes = a @ rest \<Longrightarrow> a \<noteq> [] \<Longrightarrow> pos + length a \<le> length bytes"
  by (metis diff_is_0_eq' drop_eq_Nil2 le_add_diff_inverse length_append length_drop nat_le_linear
      append_is_Nil_conv le_add1 nat_add_left_cancel_le)

lemma drop_app_drop: "drop pos bytes = a @ rest \<Longrightarrow> drop (pos + length a) bytes = rest"
  by (metis add.commute append_eq_conv_conj drop_drop)

lemma unat64_less: "unat (x :: uint64) < 18446744073709551616"
proof -
  have "unat x < 2 ^ LENGTH(64)" by (rule unsigned_less)
  then show ?thesis by simp
qed

lemma unat_word_of_nat64: "unat (word_of_nat k :: uint64) = k mod 2 ^ 64"
  by (simp add: unat_of_nat take_bit_eq_mod)

lemma unat32_less: "unat (x :: 32 word) < 4294967296"
proof -
  have "unat x < 2 ^ LENGTH(32)" by (rule unsigned_less)
  then show ?thesis by simp
qed

lemma visit_field_encode:
  assumes "drop pos bytes = encode_value x @ rest" and "length bytes < 2 ^ 64"
  shows "visit_field cost check bytes pos f (word_of_nat (wire_type x)) s =
    (case check s (field_event (f, x)) of
       (s', d) \<Rightarrow> (s', Inr (pos + length (encode_value x), d)))"
proof (cases x)
  case (WVarint n)
  with readVarint_encode [of pos bytes "unat n" rest] assms(1) unat64_less [of n]
  show ?thesis by (simp add: visit_field_def)
next
  case (WI64 n)
  then have "drop pos bytes = le_bytes 8 (unat n) @ rest" using assms(1) by simp
  with drop_app_length [OF this] take_drop_app [OF this] WI64 unat64_less [of n] show ?thesis
    by (auto simp: visit_field_def handleInt_def le_value_le_bytes split: prod.split)
next
  case (WI32 n)
  then have "drop pos bytes = le_bytes 4 (unat n) @ rest" using assms(1) by simp
  with drop_app_length [OF this] take_drop_app [OF this] WI32 unat32_less [of n] show ?thesis
    by (auto simp: visit_field_def handleInt_def le_value_le_bytes split: prod.split)
next
  case (WLen b)
  let ?p = "pos + length (encode_varint (length b))"
  have d: "drop pos bytes = encode_varint (length b) @ b @ rest" using assms(1) WLen by simp
  have "?p + length b \<le> length bytes"
    using drop_app_length [of pos bytes "encode_varint (length b) @ b" rest] d by simp
  moreover have "unat (word_of_nat ?p + word_of_nat (length b) :: uint64) = (?p + length b) mod 2 ^ 64"
    by (simp only: of_nat_add [symmetric] unat_word_of_nat64)
  ultimately show ?thesis
    using readVarint_encode [OF d] drop_app_drop [OF d] assms(2) WLen
    by (simp add: visit_field_def unat_of_nat add.assoc)
qed

lemma wire_type_less: "wire_type x < 8"
  by (cases x) auto

interpretation message: element_scan "visitProtobuf_from cost" encode_field field_event
    field_number_ok "\<lambda>t. t = []"
proof
  fix check :: "'a checker" and bytes :: "8 word list" and pos s
  assume "drop pos bytes = []"
  then show "visitProtobuf_from cost check bytes pos s = (s, Inr (decision_admit 0))"
    by (subst visitProtobuf_from.simps) simp
next
  fix check :: "'a checker" and bytes rest :: "8 word list" and pos s and fx :: wire_field
  assume d: "drop pos bytes = encode_field fx @ rest" and ok: "field_number_ok fx"
    and len: "length bytes < 2 ^ 64"
  obtain f x where fx: "fx = (f, x)" by fastforce
  let ?t = "8 * unat f + wire_type x"
  let ?p = "pos + length (encode_varint ?t)"
  have d: "drop pos bytes = encode_varint ?t @ encode_value x @ rest"
    using d fx by (simp add: encode_field_def)
  then have pos: "pos < length bytes"
    by (metis append_is_Nil_conv drop_eq_Nil2 encode_varint_ne linorder_not_less)
  note t = tag_parts [OF _ wire_type_less [of x], of f]
  have f: "unat f < 2 ^ 61" using ok fx by (simp add: field_number_ok_def)
  have v: "readVarint bytes pos = Inr (?p, Some (word_of_nat ?t))"
    by (rule readVarint_encode [OF d t(3) [OF f]])
  note e = visit_field_encode [OF drop_app_drop [OF d] len, of cost check f s]
  show "visitProtobuf_from cost check bytes pos s =
      (case check s (field_event fx) of (s', d) \<Rightarrow>
         if dropped d then (s', Inr d)
         else visitProtobuf_from cost check bytes (pos + length (encode_field fx)) s')"
    unfolding visitProtobuf_from.simps [of cost check bytes pos s] v sum.case prod.case option.case
      t(1) [OF f] t(2) [OF f] e
    by (simp add: pos fx encode_field_def add.assoc split: prod.split)
qed

interpretation packed_varint: element_scan
    "\<lambda>check body pos. visitPackedVarint_from cost check body field pos"
    "\<lambda>x :: uint64. encode_varint (unat x)" "scalar_event field" "\<lambda>x. True" "\<lambda>t. t = []"
proof
  fix check :: "'a checker" and body :: "8 word list" and pos s
  assume "drop pos body = []"
  then show "visitPackedVarint_from cost check body field pos s = (s, Inr (decision_admit 0))"
    by (subst visitPackedVarint_from.simps) simp
next
  fix check :: "'a checker" and body rest :: "8 word list" and pos s and x :: uint64
  assume d: "drop pos body = encode_varint (unat x) @ rest"
  then have "pos < length body"
    by (metis append_is_Nil_conv drop_eq_Nil2 encode_varint_ne linorder_not_less)
  with readVarint_encode [OF d] unat64_less [of x]
  show "visitPackedVarint_from cost check body field pos s =
      (case check s (scalar_event field x) of (s', d) \<Rightarrow>
         if dropped d then (s', Inr d)
         else visitPackedVarint_from cost check body field (pos + length (encode_varint (unat x))) s')"
    by (subst visitPackedVarint_from.simps) simp
qed

interpretation packed_fixed: element_scan
    "\<lambda>check body pos. visitPackedFixed_from t check body field pos"
    "le_bytes (packed_size t)" "\<lambda>n. scalar_event field (packed_value t n)"
    "\<lambda>n. n < 256 ^ packed_size t" "\<lambda>rest. length rest < packed_size t"
proof
  fix check :: "'a checker" and body :: "8 word list" and pos s
  assume "length (drop pos body) < packed_size t"
  then have "\<not> pos + packed_size t \<le> length body" by auto
  then show "visitPackedFixed_from t check body field pos s = (s, Inr (decision_admit 0))"
    by (subst visitPackedFixed_from.simps) simp
next
  fix check :: "'a checker" and body rest :: "8 word list" and pos s n
  assume d: "drop pos body = le_bytes (packed_size t) n @ rest" and n: "n < 256 ^ packed_size t"
  have "packed_size t \<noteq> 0" by (simp add: packed_size_def)
  with drop_app_length [OF d] take_drop_app [OF d] n
  show "visitPackedFixed_from t check body field pos s =
      (case check s (scalar_event field (packed_value t n)) of (s', d) \<Rightarrow>
         if dropped d then (s', Inr d)
         else visitPackedFixed_from t check body field (pos + length (le_bytes (packed_size t) n)) s')"
    unfolding length_le_bytes by (subst visitPackedFixed_from.simps) (simp add: le_value_le_bytes)
qed

section \<open>Properties\<close>

text \<open>
  C34: the message visitor reads what the wire format says. On the encoding of any fields, with
  numbers below \<open>2 ^ 61\<close>, it feeds the check one event per field, in order, scalars with their
  value and length-delimited fields with exactly their bytes, and stops at the first drop.
\<close>

theorem visitProtobuf_round_trip:
  assumes "list_all field_number_ok fs" and "length (concat (map encode_field fs)) < 2 ^ 64"
  shows "visitProtobuf cost check (concat (map encode_field fs)) s = feed check (map field_event fs) s"
  using message.visit_elements [of 0 "concat (map encode_field fs)" fs "[]"] assms by (simp add: visitProtobuf_def)

definition sample_fields :: "wire_field list" where
  "sample_fields = [(1, WVarint 300), (2, WLen [7, 8]), (3, WI32 5)]"

theorem visitProtobuf_round_trip_witness:
  "visitProtobuf 10 (\<lambda>s ev. (s @ [ev], decision_admit 0)) (concat (map encode_field sample_fields)) [] =
    (map field_event sample_fields, Inr (decision_admit 0))"
  by (subst visitProtobuf_round_trip)
    (simp_all add: sample_fields_def field_number_ok_def encode_field_def encode_varint.simps)

text \<open>
  The packed visitors report the elements of a packed field in order: every varint, and every
  fixed-width element with a trailing remainder shorter than one ignored.
\<close>

theorem visitPacked_round_trip:
  assumes "length (concat (map (\<lambda>x. encode_varint (unat x)) xs)) < 2 ^ 64"
    and "\<forall>n \<in> set ns. n < 256 ^ packed_size t" and "length rest < packed_size t"
    and "length (concat (map (le_bytes (packed_size t)) ns) @ rest) < 2 ^ 64"
  shows "visitPackedVarint cost check (concat (map (\<lambda>x. encode_varint (unat x)) xs)) field s =
      feed check (map (scalar_event field) xs) s \<and>
    visitPackedFixed t check (concat (map (le_bytes (packed_size t)) ns) @ rest) field s =
      feed check (map (\<lambda>n. scalar_event field (packed_value t n)) ns) s"
  using packed_varint.visit_elements [of 0 "concat (map (\<lambda>x. encode_varint (unat x)) xs)" xs "[]" cost check field s]
    packed_fixed.visit_elements [of 0 "concat (map (le_bytes (packed_size t)) ns) @ rest" t ns rest check field s] assms
  by (simp add: visitPackedVarint_def visitPackedFixed_def list_all_iff)

theorem visitPacked_round_trip_witness:
  "visitPackedFixed PI32 (\<lambda>s ev. (s + 1, decision_admit 0))
      (concat (map (le_bytes (packed_size PI32)) [1, 2]) @ [9]) 4 (0 :: nat) = (2, Inr (decision_admit 0))"
  by (subst visitPacked_round_trip [of "[]", THEN conjunct2])
    (simp_all add: packed_size_def)

text \<open>A run of bytes that all ask for another one.\<close>

lemma readVarint_from_run:
  assumes "\<forall>i < k. bytes ! (pos + i) AND 0x80 \<noteq> 0" and "pos + k \<le> length bytes"
    and "shift + 7 * k \<le> 70"
  shows "\<exists>r'. readVarint_from bytes pos r shift = readVarint_from bytes (pos + k) r' (shift + 7 * k)"
  using assms
proof (induction k arbitrary: pos r shift)
  case (Suc k)
  let ?r = "r OR push_bit shift (ucast (bytes ! pos AND 0x7F))"
  have "bytes ! pos AND 0x80 \<noteq> 0" using Suc.prems(1) by (metis add.right_neutral zero_less_Suc)
  then have step: "readVarint_from bytes pos r shift = readVarint_from bytes (Suc pos) ?r (shift + 7)"
    using Suc.prems(2,3) by (subst readVarint_from.simps) (simp add: Let_def)
  have next_high: "\<forall>i < k. bytes ! (Suc pos + i) AND 0x80 \<noteq> 0"
    using Suc.prems(1) by (metis Suc_less_eq add_Suc_shift)
  have "\<exists>r'. readVarint_from bytes (Suc pos) ?r (shift + 7) =
      readVarint_from bytes (Suc pos + k) r' (shift + 7 + 7 * k)"
    by (rule Suc.IH [OF next_high]) (use Suc.prems(2,3) in auto)
  then show ?case unfolding step by (simp add: add.assoc)
qed auto

text \<open>
  C39: a payload can make the visitor do what the language does not define. A varint of eleven
  bytes shifts a 64-bit value by 70, and a length that wraps around the 64-bit position passes the
  bounds test and asks for a subspan that leaves the payload.
\<close>

theorem visitProtobuf_undefined:
  assumes "length bytes > 10" and "\<forall>i < 10. bytes ! i AND 0x80 \<noteq> 0"
    and "n < 2 ^ 64" and "2 ^ 64 \<le> Suc (length (encode_varint n)) + n"
    and "length (encode_varint n @ rest) < 2 ^ 63"
  shows "visitProtobuf cost check bytes s = (s, Inl BadShift) \<and>
    visitProtobuf cost check (0x0A # encode_varint n @ rest) s = (s, Inl BadSpan)"
proof
  obtain r' where "readVarint bytes 0 = readVarint_from bytes 10 r' 70"
    using readVarint_from_run [of 10 bytes 0 0 0] assms(1,2) by (auto simp: readVarint_def)
  also have "\<dots> = Inl BadShift"
    using assms(1) by (subst readVarint_from.simps) (simp add: Let_def)
  finally show "visitProtobuf cost check bytes s = (s, Inl BadShift)"
    using assms(1) by (cases bytes) (simp_all add: visitProtobuf_def visitProtobuf_from.simps [of _ _ _ 0])
next
  let ?bytes = "0x0A # encode_varint n @ rest"
  let ?p = "Suc (length (encode_varint n))"
  have t: "encode_varint 10 = [0x0A]" by (simp add: encode_varint.simps)
  then have "readVarint ?bytes 0 = Inr (1, Some 0x0A)"
    using readVarint_encode [of 0 ?bytes 10 "encode_varint n @ rest"] by simp
  moreover have l: "readVarint ?bytes 1 = Inr (?p, Some (word_of_nat n))"
    using readVarint_encode [of 1 ?bytes n rest] assms(3) by simp
  moreover have "unat (word_of_nat ?p + word_of_nat n :: uint64) = (?p + n) mod 2 ^ 64"
    by (simp only: of_nat_add [symmetric] unat_word_of_nat64)
  moreover have "(?p + n) mod 2 ^ 64 < length ?bytes"
  proof -
    have "?p + n - 2 ^ 64 < ?p" using assms(3) by simp
    moreover have "(?p + n) mod 2 ^ 64 = ?p + n - 2 ^ 64"
      using assms(3-5) by (simp add: le_mod_geq)
    ultimately show ?thesis by simp
  qed
  moreover have "unat (word_of_nat n :: uint64) = n" using assms(3) by (simp add: unat_word_of_nat64)
  moreover have "length ?bytes < ?p + n" using assms(4,5) by simp
  ultimately have "visit_field cost check ?bytes 1 1 2 s = (s, Inl BadSpan)"
    by (simp add: visit_field_def)
  then show "visitProtobuf cost check ?bytes s = (s, Inl BadSpan)"
    using \<open>readVarint ?bytes 0 = Inr (1, Some 0x0A)\<close>
    by (simp add: visitProtobuf_def visitProtobuf_from.simps [of _ _ _ 0])
qed

theorem visitProtobuf_undefined_witness:
  "visitProtobuf 10 (\<lambda>s ev. (s, decision_admit 0)) (replicate 10 0x80 @ [0]) () = ((), Inl BadShift) \<and>
   visitProtobuf 10 (\<lambda>s ev. (s, decision_admit 0)) (0x0A # encode_varint 18446744073709551615 @ []) () =
     ((), Inl BadSpan)"
  by (rule visitProtobuf_undefined) (simp_all add: nth_append encode_varint.simps)

lemma sint32:
  fixes x :: "32 word"
  shows "sint x = (if uint x < 2 ^ 31 then uint x else uint x - 2 ^ 32)"
proof -
  have "sint x = signed_take_bit 31 (uint x)" by (simp only: sint_uint) simp
  also have "\<dots> = (uint x + 2 ^ 31) mod 2 ^ 32 - 2 ^ 31"
    by (simp only: signed_take_bit_eq_take_bit_shift take_bit_eq_mod) simp
  finally have s: "sint x = (uint x + 2 ^ 31) mod 2 ^ 32 - 2 ^ 31" .
  have u: "0 \<le> uint x" "uint x < 2 ^ 32" using uint_lt2p [of x] by simp_all
  show ?thesis
  proof (cases "uint x < 2 ^ 31")
    case True
    then have "(uint x + 2 ^ 31) mod 2 ^ 32 = uint x + 2 ^ 31" using u by (intro mod_pos_pos_trivial) simp_all
    with s True show ?thesis by simp
  next
    case False
    have "(uint x + 2 ^ 31) mod 2 ^ 32 = (uint x + 2 ^ 31 - 2 ^ 32) mod 2 ^ 32"
      by (simp only: minus_mod_self2)
    also have "\<dots> = uint x + 2 ^ 31 - 2 ^ 32"
      using u False by (intro mod_pos_pos_trivial) simp_all
    finally have "(uint x + 2 ^ 31) mod 2 ^ 32 = uint x + 2 ^ 31 - 2 ^ 32" .
    with s False show ?thesis by simp
  qed
qed

lemma scast_ucast32: "(scast (x :: 32 word) :: 64 word) = ucast x \<longleftrightarrow> uint x < 2 ^ 31"
proof (cases "uint x < 2 ^ 31")
  case True
  then have "sint x = uint x" by (simp only: sint32 if_True)
  then have "word_of_int (sint x) = (word_of_int (uint x) :: 64 word)" by (rule arg_cong)
  with True show ?thesis by simp
next
  case False
  then have "sint x = uint x - 2 ^ 32" by (simp only: sint32 if_False)
  then have "word_of_int (sint x) = (word_of_int (uint x) - word_of_int (2 ^ 32) :: 64 word)"
    by (simp only: of_int_diff)
  then have "(scast x :: 64 word) = ucast x - 4294967296" by simp
  with False show ?thesis by simp
qed
text \<open>
  A fixed-width element of 32 bits is reported sign-extended from a packed field, and
  zero-extended from a field of its own: the two reports agree exactly on the elements below
  \<open>2 ^ 31\<close>, for \<^verbatim>\<open>uint32_t\<close> and \<^verbatim>\<open>int32_t\<close> alike.
\<close>

theorem packed_fixed32_sign:
  assumes "packed_size t = 4"
  shows "scalar_event f (packed_value t (unat x)) = field_event (f, WI32 x) \<longleftrightarrow> uint x < 2 ^ 31"
proof -
  have "packed_value t (unat x) = scast x" using assms by (auto simp: packed_value_def packed_size_def)
  then show ?thesis using scast_ucast32 [of x] by (simp add: scalar_event_def event_default_def)
qed

theorem packed_fixed32_sign_witness:
  "scalar_event 1 (packed_value PU32 (unat (2147483648 :: 32 word))) \<noteq> field_event (1, WI32 2147483648)"
  using packed_fixed32_sign [of PU32 1 2147483648] by (simp add: packed_size_def)


section \<open>Work\<close>

text \<open>A check that also counts its calls.\<close>

definition counting :: "'s checker \<Rightarrow> (nat \<times> 's) checker" where
  "counting check ns ev = (case check (snd ns) ev of (s', d) \<Rightarrow> ((fst ns + 1, s'), d))"

lemma visit_field_count:
  assumes "visit_field cost (counting check) bytes pos field wireType (n, s) = (ns', r)"
    and "pos \<le> length bytes"
  shows "fst ns' = n \<or>
    fst ns' = n + 1 \<and> (\<exists>pos' d. r = Inr (pos', d) \<and> pos < pos' \<and> pos' \<le> length bytes)"
  using assms readVarint_pos [of bytes pos]
  by (fastforce simp: visit_field_def handleInt_def counting_def split: if_splits sum.splits prod.splits option.splits)

lemma visit_from_count:
  "2 * fst (fst (visitProtobuf_from cost (counting check) bytes pos ns)) \<le> 2 * fst ns + (length bytes - pos)"
proof (induction "length bytes - pos" arbitrary: pos ns rule: less_induct)
  case less
  show ?case
  proof (cases "pos < length bytes")
    case False
    then show ?thesis by (simp add: visitProtobuf_from.simps [of _ _ _ pos])
  next
    case True
    show ?thesis
    proof (cases "readVarint bytes pos")
      case (Inl e)
      with True show ?thesis by (simp add: visitProtobuf_from.simps [of _ _ _ pos])
    next
      case (Inr p)
      then obtain pos1 out where p: "readVarint bytes pos = Inr (pos1, out)" by (cases p) auto
      show ?thesis
      proof (cases out)
        case None
        with True p show ?thesis by (simp add: visitProtobuf_from.simps [of _ _ _ pos])
      next
        case (Some tag)
        with p have pos1: "pos < pos1" "pos1 \<le> length bytes" using readVarint_pos [of bytes pos pos1 tag] by auto
        obtain ns' r where f: "visit_field cost (counting check) bytes pos1 (drop_bit 3 tag) (tag AND 0x07) ns = (ns', r)"
          by fastforce
        with pos1 have c: "fst ns' = fst ns \<or> fst ns' = fst ns + 1 \<and>
            (\<exists>pos' d. r = Inr (pos', d) \<and> pos1 < pos' \<and> pos' \<le> length bytes)"
          using visit_field_count [of cost check bytes pos1 _ _ "fst ns" "snd ns"] by simp
        show ?thesis
        proof (cases r)
          case (Inl e)
          with True p Some f c show ?thesis by (simp add: visitProtobuf_from.simps [of _ _ _ pos])
        next
          case (Inr q)
          then obtain pos2 d where q: "r = Inr (pos2, d)" by (cases q) auto
          with f have pos2: "pos1 \<le> pos2" by (auto intro: visit_field_pos)
          have "2 * fst (fst (visitProtobuf_from cost (counting check) bytes pos2 ns')) \<le>
              2 * fst ns' + (length bytes - pos2)"
            using pos1 pos2 True by (intro less) simp
          moreover have "2 * fst ns' + (length bytes - pos2) \<le> 2 * fst ns + (length bytes - pos)"
            using c q pos1 pos2 by auto
          moreover have "2 * fst ns' \<le> 2 * fst ns + (length bytes - pos)" using calculation(2) by simp
          ultimately show ?thesis
            using True p Some f q by (simp add: visitProtobuf_from.simps [of _ _ _ pos])
        qed
      qed
    qed
  qed
qed

end
