(* ===== verification/AdmPipeline.thy ===== *)
theory AdmPipeline
  imports AdmLimiter AdmProtobuf
begin

text \<open>
  The limiter in use: whole runs of operations on \<^verbatim>\<open>include/admissionspec/ConnectionLimiter.hpp\<close>, with
  the sweeps of idle connections, and the two stages of \<^verbatim>\<open>AdmissionSpec.hpp\<close> one after the other on
  a frame, as the ingress point sketched in the comment of \<^verbatim>\<open>AdmissionSpec\<close> calls them. What a
  connection can do with a limiter is its function of tokens over time, \<open>tokens_for\<close>: a debit
  changes it for its own connection only, and a sweep of connections that have been idle for long
  enough does not change it at all.
\<close>

section \<open>A debit on the tokens over time\<close>

lemma touch_available:
  assumes "settings_ok (lm_settings l)" and "now \<le> t"
  shows "available t (snd (touchBucket l conn now)) = tokens_for l conn t"
proof (cases "map_of (lm_buckets l) conn")
  case None
  have "bs_capacity (lm_settings l) \<le>
      (toSeconds t - (toSeconds now - bs_capacity (lm_settings l) / bs_refillRatePerSecond (lm_settings l))) *
        bs_refillRatePerSecond (lm_settings l)"
    using assms toSeconds_mono [of now t] by (simp add: settings_ok_def field_simps)
  then show ?thesis
    using None assms(1)
    by (simp add: touchBucket_def tokens_for_def Let_def available_def TokenBucket_new_def
        storage_balance_def fullStartZeroTime_def settings_ok_def)
qed (simp add: touchBucket_def tokens_for_def)

text \<open>The tokens at a later time of one that had \<open>n\<close> at \<open>now\<close>.\<close>

definition refilled :: "BucketSettings \<Rightarrow> real \<Rightarrow> int \<Rightarrow> int \<Rightarrow> real" where
  "refilled settings n now t =
     max 0 (min (n + (toSeconds t - toSeconds now) * bs_refillRatePerSecond settings)
       (bs_capacity settings))"

lemma tryConsume_later:
  assumes "bucket_ok b" and "0 < cost" and "cost \<le> available now b"
  shows "available t (fst (tryConsume cost now b)) =
    max 0 (min (available now b - cost + (toSeconds t - toSeconds now) * tb_rate b) (tb_burst b))"
proof -
  have "(toSeconds t - (toSeconds now - (available now b - cost) / tb_rate b)) * tb_rate b =
      available now b - cost + (toSeconds t - toSeconds now) * tb_rate b"
    using assms(1) by (simp add: bucket_ok_def field_simps)
  with assms show ?thesis
    by (simp add: tryConsume_pos available_def [of t "_\<lparr>tb_zeroTime := _\<rparr>"] storage_balance_def)
qed

lemma debit_later:
  assumes "limiter_inv settings n l" and "settings_ok settings" and "has_room l conn" and "now \<le> t"
  shows "tokens_for (fst (debit l conn cost now)) c t =
    (if c = conn \<and> 0 < cost \<and> cost \<le> tokens_for l conn now
     then refilled settings (tokens_for l conn now - cost) now t
     else tokens_for l c t)"
proof (cases "c = conn")
  case True
  obtain bs b where tb: "touchBucket l conn now = (bs, b)" by fastforce
  obtain b' ok where tc: "tryConsume cost now b = (b', ok)" by fastforce
  have ls: "lm_settings l = settings" using assms(1) by (simp add: limiter_inv_def)
  have e: "entry_ok settings \<lparr>be_bucket = b, be_lastSeen = now\<rparr>"
    using touchBucket_inv(5) [OF assms(1), of conn now] tb by simp
  then have g: "bucket_ok b" using entry_bucket_ok [OF assms(2) e] by simp
  have av: "available t b = tokens_for l conn t" "available now b = tokens_for l conn now"
    using touch_available [of l now t conn] touch_available [of l now now conn] assms(2,4) tb ls by simp_all
  have "tokens_for (fst (debit l conn cost now)) conn t = available t b'"
    using touchBucket_inv(4) [OF assms(1), of conn now] tb
    by (simp add: debit_def tc tokens_for_def map_of_set_entry)
  moreover have "available t b' = (if 0 < cost \<and> cost \<le> available now b
      then refilled settings (available now b - cost) now t else available t b)"
    using tryConsume_later [OF g, of cost now t] tryConsume_pos [OF g, of cost now] tc e
    by (auto simp: refilled_def entry_ok_def tryConsume_def split: if_splits)
  ultimately show ?thesis using True av by simp
next
  case False
  with debit_other [OF assms(3), of c] show ?thesis by simp
qed

section \<open>Idle connections\<close>

text \<open>No bucket is in debt when its connection was last seen, and none was seen in the future.\<close>

definition settled :: "int \<Rightarrow> 'c limiter \<Rightarrow> bool" where
  "settled t l = (\<forall>e \<in> set (lm_buckets l).
     caught_up (be_lastSeen (snd e)) (be_bucket (snd e)) \<and> be_lastSeen (snd e) \<le> t)"

lemma settled_mono: "settled t l \<Longrightarrow> t \<le> t' \<Longrightarrow> settled t' l"
  by (auto simp: settled_def)

lemma settled_new: "settled t (limiter_new settings n)"
  by (simp add: settled_def limiter_new_def)

lemma settled_sweep: "settled t l \<Longrightarrow> settled t (sweepIdle l now idleFor)"
  by (simp add: settled_def sweepIdle_def)

lemma evictOldest_subset: "set (evictOldest bs) \<subseteq> set bs"
  by (cases bs) (auto simp: evictOldest_def erase_def)

lemma settled_debit:
  assumes "limiter_inv settings n l" and "settings_ok settings" and "settled now l"
  shows "settled now (fst (debit l conn cost now))"
proof -
  obtain bs b where tb: "touchBucket l conn now = (bs, b)" by fastforce
  obtain b' ok where tc: "tryConsume cost now b = (b', ok)" by fastforce
  have g: "bucket_ok b"
    using entry_bucket_ok [OF assms(2) touchBucket_inv(5) [OF assms(1), of conn now]] tb by simp
  have fresh: "bucket_ok (TokenBucket_new (bs_capacity (lm_settings l)) (bs_refillRatePerSecond (lm_settings l)) now)"
    using assms(1,2) by (simp add: limiter_inv_def settings_ok_def bucket_ok_def TokenBucket_new_def)
  have b: "caught_up now b"
  proof (cases "map_of (lm_buckets l) conn")
    case None
    then show ?thesis using tb caught_up_new [OF fresh] by (auto simp: touchBucket_def Let_def)
  next
    case (Some be)
    have "caught_up (be_lastSeen be) (be_bucket be)" "be_lastSeen be \<le> now"
      using map_of_SomeD [OF Some] assms(3) by (auto simp: settled_def)
    then have "caught_up now (be_bucket be)" by (rule caught_up_mono)
    with Some tb show ?thesis by (simp add: touchBucket_def)
  qed
  then have "caught_up now b'" using caught_up_consume [OF g b, of cost] tc by simp
  moreover have "\<forall>e \<in> set bs. fst e = conn \<or> e \<in> set (lm_buckets l)"
    using tb evictOldest_subset [of "lm_buckets l"]
    by (auto simp: touchBucket_def Let_def set_entry_def split: option.splits if_splits)
  ultimately show ?thesis
    using assms(3) by (auto simp: debit_def tb tc settled_def set_entry_def)
qed

text \<open>An entry that a long enough sweep removes holds a full bucket.\<close>

lemma sweep_tokens:
  assumes "limiter_inv settings n l" and "settings_ok settings" and "settled now l" and "now \<le> t"
    and "bs_capacity settings \<le> bs_refillRatePerSecond settings * toSeconds idleFor"
  shows "tokens_for (sweepIdle l now idleFor) c t = tokens_for l c t"
proof -
  let ?P = "\<lambda>e :: 'a \<times> bucket_entry. \<not> idleFor \<le> now - be_lastSeen (snd e)"
  have d: "distinct (keys (lm_buckets l))" and ls: "lm_settings l = settings"
    using assms(1) by (simp_all add: limiter_inv_def)
  have swept: "map_of (filter ?P bs) c =
      (case map_of bs c of Some be \<Rightarrow> if ?P (c, be) then Some be else None | None \<Rightarrow> None)"
    if "distinct (keys bs)" for bs
    using that by (induction bs) (auto simp: map_of_eq_None_iff split: option.split)
  show ?thesis
  proof (cases "map_of (lm_buckets l) c")
    case None
    with swept [OF d] show ?thesis by (simp add: tokens_for_def sweepIdle_def)
  next
    case (Some be)
    then have mem: "(c, be) \<in> set (lm_buckets l)" by (rule map_of_SomeD)
    then have e: "tb_rate (be_bucket be) = bs_refillRatePerSecond settings"
      "tb_burst (be_bucket be) = bs_capacity settings"
      using assms(1) by (auto simp: limiter_inv_def entry_ok_def)
    have "available t (be_bucket be) = bs_capacity settings" if "idleFor \<le> now - be_lastSeen be"
    proof -
      have "tb_zeroTime (be_bucket be) \<le> toSeconds (be_lastSeen be)"
        using mem assms(3) by (auto simp: settled_def caught_up_def)
      moreover have "toSeconds idleFor \<le> toSeconds t - toSeconds (be_lastSeen be)"
        using toSeconds_mono [of idleFor "t - be_lastSeen be"] that assms(4)
        by (simp add: toSeconds_def diff_divide_distrib)
      ultimately have "toSeconds idleFor * bs_refillRatePerSecond settings \<le>
          (toSeconds t - tb_zeroTime (be_bucket be)) * bs_refillRatePerSecond settings"
        using assms(2) by (intro mult_right_mono) (auto simp: settings_ok_def)
      then have "bs_capacity settings \<le>
          (toSeconds t - tb_zeroTime (be_bucket be)) * bs_refillRatePerSecond settings"
        using assms(5) mult.commute [of "toSeconds idleFor"] by simp
      with assms(2) e show ?thesis
        by (simp add: available_def storage_balance_def settings_ok_def)
    qed
    with Some swept [OF d] ls show ?thesis by (simp add: tokens_for_def sweepIdle_def)
  qed
qed

section \<open>Runs of operations\<close>

datatype 'c limiter_op = Charge 'c real int | Penalize 'c real int | Sweep int int

primrec op_time :: "'c limiter_op \<Rightarrow> int" where
  "op_time (Charge c cost now) = now"
| "op_time (Penalize c cost now) = now"
| "op_time (Sweep now idleFor) = now"

primrec op_conns :: "'c limiter_op \<Rightarrow> 'c set" where
  "op_conns (Charge c cost now) = {c}"
| "op_conns (Penalize c cost now) = {c}"
| "op_conns (Sweep now idleFor) = {}"

primrec is_sweep :: "'c limiter_op \<Rightarrow> bool" where
  "is_sweep (Charge c cost now) = False"
| "is_sweep (Penalize c cost now) = False"
| "is_sweep (Sweep now idleFor) = True"

lemma finite_op_conns: "finite (op_conns op)"
  by (cases op) simp_all

text \<open>One operation: the limiter it leaves and what the caller is told.\<close>

primrec run_op :: "'c limiter_op \<Rightarrow> 'c limiter \<Rightarrow> 'c limiter \<times> AdmissionDecision list" where
  "run_op (Charge c cost now) l =
     (case charge l c (decision_admit cost) now of (l', d) \<Rightarrow> (l', [d]))"
| "run_op (Penalize c cost now) l =
     (case penalize l c (decision_drop [] cost) now of (l', d) \<Rightarrow> (l', [d]))"
| "run_op (Sweep now idleFor) l = (sweepIdle l now idleFor, [])"

fun run_ops :: "'c limiter_op list \<Rightarrow> 'c limiter \<Rightarrow> 'c limiter \<times> AdmissionDecision list" where
  "run_ops [] l = (l, [])"
| "run_ops (op # ops) l =
     (case run_op op l of (l', ds) \<Rightarrow> (case run_ops ops l' of (l'', ds') \<Rightarrow> (l'', ds @ ds')))"

definition sweeps_late :: "BucketSettings \<Rightarrow> 'c limiter_op \<Rightarrow> bool" where
  "sweeps_late settings op = (case op of
       Sweep now idleFor \<Rightarrow> bs_capacity settings \<le> bs_refillRatePerSecond settings * toSeconds idleFor
     | _ \<Rightarrow> True)"

text \<open>A limiter that can take any operation on the connections \<open>K\<close> from \<open>t\<close> on without an eviction.\<close>

definition roomy :: "BucketSettings \<Rightarrow> nat \<Rightarrow> 'c set \<Rightarrow> int \<Rightarrow> 'c limiter \<Rightarrow> bool" where
  "roomy settings n K t l =
     (limiter_inv settings n l \<and> settled t l \<and> set (keys (lm_buckets l)) \<subseteq> K)"

definition agree :: "int \<Rightarrow> 'c limiter \<Rightarrow> 'c limiter \<Rightarrow> bool" where
  "agree t0 l l' = (\<forall>c t. t0 \<le> t \<longrightarrow> tokens_for l c t = tokens_for l' c t)"

lemma roomy_has_room:
  assumes "roomy settings n K t l" and "finite K" and "card K \<le> n" and "c \<in> K"
  shows "has_room l c"
proof (cases "c \<in> set (keys (lm_buckets l))")
  case False
  with assms have "card (insert c (set (keys (lm_buckets l)))) \<le> card K"
    by (intro card_mono) (auto simp: roomy_def)
  moreover have "card (set (keys (lm_buckets l))) = length (lm_buckets l)"
    using assms(1) distinct_card [of "keys (lm_buckets l)"] by (simp add: roomy_def limiter_inv_def)
  ultimately show ?thesis
    using False assms(1,3) by (simp add: has_room_def roomy_def limiter_inv_def)
qed (simp add: has_room_def)

lemma roomy_debit:
  assumes "roomy settings n K t0 l" and "settings_ok settings" and "finite K" "card K \<le> n" "c \<in> K" and "t0 \<le> now"
  shows "roomy settings n K now (fst (debit l c cost now))"
  using assms debit_inv [of settings n l c cost now] settled_debit [of settings n l now c cost]
    debit_keys [OF roomy_has_room [OF assms(1,3-5)], of cost now]
  by (auto simp: roomy_def intro: settled_mono)

lemma roomy_sweep:
  assumes "roomy settings n K t0 l" and "t0 \<le> now"
  shows "roomy settings n K now (sweepIdle l now idleFor)"
  using assms filter_inv [of settings n l] settled_sweep [of now l now idleFor] settled_mono [of t0 l now]
  by (auto simp: roomy_def sweepIdle_def)

lemma agree_debit:
  assumes "roomy settings n K t0 l" "roomy settings n K t0 l'" and "agree t0 l l'"
    and "settings_ok settings" and "finite K" "card K \<le> n" "c \<in> K" and "t0 \<le> now"
  shows "agree now (fst (debit l c cost now)) (fst (debit l' c cost now))"
    and "snd (debit l c cost now) = snd (debit l' c cost now)"
proof -
  have inv: "limiter_inv settings n l" "limiter_inv settings n l'"
    using assms(1,2) by (simp_all add: roomy_def)
  have room: "has_room l c" "has_room l' c"
    using roomy_has_room [OF _ assms(5-7)] assms(1,2) by blast+
  show "agree now (fst (debit l c cost now)) (fst (debit l' c cost now))"
    using assms(3,8) debit_later [OF inv(1) assms(4) room(1), of now]
      debit_later [OF inv(2) assms(4) room(2), of now]
    by (auto simp: agree_def)
  show "snd (debit l c cost now) = snd (debit l' c cost now)"
    using assms(3,8) debit_ok [OF inv(1) assms(4)] debit_ok [OF inv(2) assms(4)]
    by (simp add: agree_def)
qed

lemma charge_eq: "charge l c (decision_admit cost) now =
    (fst (debit l c cost now), if snd (debit l c cost now) then decision_admit cost
       else decision_drop ''connection rate limit exceeded'' 0)"
  by (simp add: charge_def split: prod.split)

lemma penalize_eq: "penalize l c (decision_drop w cost) now =
    (if 0 < cost then fst (debit l c cost now) else l, decision_drop w cost)"
  by (simp add: penalize_def)

text \<open>One operation other than a sweep on two limiters that agree, and a sweep on one of them.\<close>

lemma run_op_agree:
  assumes "roomy settings n K t0 l" "roomy settings n K t0 l'" "agree t0 l l'"
    and "settings_ok settings" and "finite K" "card K \<le> n" and "op_conns op \<subseteq> K" and "t0 \<le> op_time op"
    and "\<not> is_sweep op"
  shows "snd (run_op op l) = snd (run_op op l') \<and>
    agree (op_time op) (fst (run_op op l)) (fst (run_op op l')) \<and>
    roomy settings n K (op_time op) (fst (run_op op l)) \<and>
    roomy settings n K (op_time op) (fst (run_op op l'))"
proof -
  have later: "agree t l l'" "roomy settings n K t l" "roomy settings n K t l'" if "t0 \<le> t" for t
    using assms(1-3) that by (auto simp: agree_def roomy_def intro: settled_mono)
  show ?thesis
  proof (cases op)
    case (Charge c cost now)
    then have c: "c \<in> K" "t0 \<le> now" using assms(7,8) by auto
    show ?thesis
      using agree_debit [OF assms(1-6) c, of cost] roomy_debit [OF assms(1,4-6) c, of cost]
        roomy_debit [OF assms(2,4-6) c, of cost] Charge by (simp add: charge_eq)
  next
    case (Penalize c cost now)
    then have c: "c \<in> K" "t0 \<le> now" using assms(7,8) by auto
    show ?thesis
      using agree_debit [OF assms(1-6) c, of cost] roomy_debit [OF assms(1,4-6) c, of cost]
        roomy_debit [OF assms(2,4-6) c, of cost] later [OF c(2)] Penalize by (simp add: penalize_eq)
  qed (use assms(9) in simp)
qed

lemma run_ops_agree:
  assumes "settings_ok settings" and "finite K" "card K \<le> n"
    and "roomy settings n K t0 l" "roomy settings n K t0 l'" "agree t0 l l'"
    and "\<Union> (op_conns ` set ops) \<subseteq> K" and "sorted (t0 # map op_time ops)"
    and "list_all (sweeps_late settings) ops"
  shows "snd (run_ops ops l) = snd (run_ops (filter (\<lambda>op. \<not> is_sweep op) ops) l')"
  using assms(4-)
proof (induction ops arbitrary: l l' t0)
  case (Cons op ops)
  let ?t = "op_time op" and ?rest = "filter (\<lambda>op. \<not> is_sweep op) ops"
  have t: "t0 \<le> ?t" "sorted (?t # map op_time ops)" using Cons.prems(5) by auto
  have ops: "\<Union> (op_conns ` set ops) \<subseteq> K" "list_all (sweeps_late settings) ops"
    using Cons.prems(4,6) by auto
  show ?case
  proof (cases "is_sweep op")
    case True
    then obtain now idleFor where op: "op = Sweep now idleFor" by (cases op) auto
    have inv: "limiter_inv settings n l" and "settled now l"
      using Cons.prems(1) t(1) by (auto simp: roomy_def op intro: settled_mono)
    then have "agree now (sweepIdle l now idleFor) l'"
      using sweep_tokens [OF inv assms(1), of now] Cons.prems(3,6) t(1)
      by (simp add: agree_def op sweeps_late_def)
    moreover have "roomy settings n K now l'"
      using Cons.prems(2) t(1) by (auto simp: roomy_def op intro: settled_mono)
    ultimately have "snd (run_ops ops (sweepIdle l now idleFor)) = snd (run_ops ?rest l')"
      using roomy_sweep [OF Cons.prems(1)] t ops by (intro Cons.IH [of now]) (simp_all add: op)
    then show ?thesis by (simp add: op split: prod.splits)
  next
    case False
    have step: "snd (run_op op l) = snd (run_op op l') \<and> agree ?t (fst (run_op op l)) (fst (run_op op l')) \<and>
        roomy settings n K ?t (fst (run_op op l)) \<and> roomy settings n K ?t (fst (run_op op l'))"
      by (rule run_op_agree [OF Cons.prems(1-3) assms(1-3) _ t(1) False]) (use Cons.prems(4) in auto)
    then have "snd (run_ops ops (fst (run_op op l))) = snd (run_ops ?rest (fst (run_op op l')))"
      using t(2) ops by (intro Cons.IH [of ?t]) auto
    with False step show ?thesis by (simp split: prod.splits) (metis fst_conv snd_conv)
  qed
qed simp

section \<open>Frames\<close>

text \<open>
  The ingress point of the comment of \<^verbatim>\<open>AdmissionSpec\<close>: the pre-parse gate, and if the frame passes
  it the streaming gate with the caller's walk over the frame.
\<close>

definition onFrame ::
    "('x, 's) AdmissionSpec \<Rightarrow> 's \<Rightarrow> (8 word list \<Rightarrow> 's \<Rightarrow> 's checker \<Rightarrow> AdmissionDecision) \<Rightarrow>
     'c limiter \<Rightarrow> 'c \<Rightarrow> 8 word list \<Rightarrow> int \<Rightarrow> 'c limiter \<times> AdmissionDecision" where
  "onFrame sp dflt walk l conn frame now =
     (case admitPre sp l conn frame now of (l', d) \<Rightarrow>
        if dropped d then (l', d) else admit sp dflt l' conn (walk frame) now)"

definition pre_cost :: "('x, 's) AdmissionSpec \<Rightarrow> 8 word list \<Rightarrow> real" where
  "pre_cost sp frame = max 0 (costFor (rt_size_ramp (resolveDefaults sp)) (word_of_nat (length frame)))"

definition walked ::
    "('x, 's) AdmissionSpec \<Rightarrow> 's \<Rightarrow> (8 word list \<Rightarrow> 's \<Rightarrow> 's checker \<Rightarrow> AdmissionDecision) \<Rightarrow>
     8 word list \<Rightarrow> AdmissionDecision" where
  "walked sp dflt walk frame =
     (case makeChecker sp dflt (resolveDefaults sp) of (s0, check) \<Rightarrow> walk frame s0 check)"

lemma admitPre_cases:
  "admitPre sp l conn frame now =
     (let cost = costFor (rt_size_ramp (resolveDefaults sp)) (word_of_nat (length frame))
      in if unat (rt_max_payload_bytes (resolveDefaults sp)) < length frame
         then penalize l conn (decision_drop ''payload exceeds max bytes for this type'' cost) now
         else charge l conn (decision_admit cost) now)"
  by (simp add: admitPre_def preAdmit_def Let_def)

lemma charge_any: "charge l c d now = charge l c (decision_admit (ad_tokenCost d)) now"
  unfolding charge_def decision_simps ..

lemma admit_cases:
  "admit sp dflt l conn (walk frame) now =
     (let d = walked sp dflt walk frame
      in if dropped d then penalize l conn d now else charge l conn (decision_admit (ad_tokenCost d)) now)"
proof (cases "makeChecker sp dflt (resolveDefaults sp)")
  case (Pair s0 check)
  then show ?thesis
    unfolding admit_def walked_def by (simp add: Let_def charge_any [of l conn "walk frame s0 check"])
qed

lemma debit_affordable:
  assumes "limiter_inv settings n l" and "settings_ok settings"
  shows "snd (debit l conn cost now) \<longleftrightarrow> max 0 cost \<le> tokens_for l conn now"
  using debit_ok [OF assms, of conn cost now] tokens_for_cap(2) [OF assms, of conn now] by auto

text \<open>A charge that passes takes its cost; a penalty takes its cost if the bucket holds it.\<close>

lemma charge_gate:
  assumes "limiter_inv settings n l" and "settings_ok settings"
  shows "admitted (snd (charge l conn (decision_admit cost) now)) \<longleftrightarrow> max 0 cost \<le> tokens_for l conn now"
    and "tokens_for (fst (charge l conn (decision_admit cost) now)) conn now =
      tokens_for l conn now - (if max 0 cost \<le> tokens_for l conn now then max 0 cost else 0)"
  using debit_affordable [OF assms, of conn cost now] debit_own [OF assms, of conn cost now]
  by (auto simp: charge_eq)

lemma penalize_gate:
  assumes "limiter_inv settings n l" and "settings_ok settings" and "dropped d"
  shows "dropped (snd (penalize l conn d now))"
    and "tokens_for (fst (penalize l conn d now)) conn now =
      tokens_for l conn now -
        (if max 0 (ad_tokenCost d) \<le> tokens_for l conn now then max 0 (ad_tokenCost d) else 0)"
  using assms(3) debit_affordable [OF assms(1,2), of conn "ad_tokenCost d" now]
    debit_own [OF assms(1,2), of conn "ad_tokenCost d" now]
  by (auto simp: penalize_def)

lemma admitPre_stage:
  assumes "limiter_inv settings n l" and "settings_ok settings"
  shows "admitted (snd (admitPre sp l conn frame now)) \<longleftrightarrow>
      length frame \<le> unat (rt_max_payload_bytes (resolveDefaults sp)) \<and>
      pre_cost sp frame \<le> tokens_for l conn now" (is ?adm)
    and "tokens_for (fst (admitPre sp l conn frame now)) conn now =
      tokens_for l conn now -
        (if pre_cost sp frame \<le> tokens_for l conn now then pre_cost sp frame else 0)" (is ?left)
proof -
  let ?cost = "costFor (rt_size_ramp (resolveDefaults sp)) (word_of_nat (length frame))"
  let ?drop = "decision_drop ''payload exceeds max bytes for this type'' ?cost"
  note c = charge_gate [OF assms, of conn ?cost now]
  have p: "\<not> admitted (snd (penalize l conn ?drop now))"
    "tokens_for (fst (penalize l conn ?drop now)) conn now =
      tokens_for l conn now - (if max 0 ?cost \<le> tokens_for l conn now then max 0 ?cost else 0)"
    using penalize_gate [OF assms, of ?drop conn now] by (simp_all add: dropped_iff)
  show ?adm using c(1) p(1) by (simp add: admitPre_cases pre_cost_def Let_def not_less)
  show ?left using c(2) p(2) by (simp add: admitPre_cases pre_cost_def Let_def)
qed

lemma admit_stage:
  assumes "limiter_inv settings n l" and "settings_ok settings"
  shows "admitted (snd (admit sp dflt l conn (walk frame) now)) \<longleftrightarrow>
      admitted (walked sp dflt walk frame) \<and>
      max 0 (ad_tokenCost (walked sp dflt walk frame)) \<le> tokens_for l conn now" (is ?adm)
    and "tokens_for (fst (admit sp dflt l conn (walk frame) now)) conn now =
      tokens_for l conn now -
        (if max 0 (ad_tokenCost (walked sp dflt walk frame)) \<le> tokens_for l conn now
         then max 0 (ad_tokenCost (walked sp dflt walk frame)) else 0)" (is ?left)
proof -
  let ?d = "walked sp dflt walk frame"
  note c = charge_gate [OF assms, of conn "ad_tokenCost ?d" now] and p = penalize_gate [OF assms, of ?d conn now]
  show ?adm using c(1) p(1) by (auto simp: admit_cases Let_def dropped_iff)
  show ?left using c(2) p(2) by (auto simp: admit_cases Let_def dropped_iff)
qed

section \<open>Properties\<close>

text \<open>
  C32: a frame is let through by the two stages together exactly when its bytes fit under the cap,
  the caller's walk over it ends in an admit, and its connection holds the ramp cost of the bytes
  and the cost the walk asked for, both; each stage that the connection can pay for takes its cost,
  whether the stage admits or drops, a frame dropped by the first stage is never walked, and what
  the connection cannot pay for is not taken at all.
\<close>

theorem frame_gate:
  assumes "limiter_reach settings n l" and "settings_ok settings"
    and "have = tokens_for l conn now" and "pre = pre_cost sp frame"
    and "cap = unat (rt_max_payload_bytes (resolveDefaults sp))"
    and "d = walked sp dflt walk frame" and "cost = max 0 (ad_tokenCost d)"
  shows "(admitted (snd (onFrame sp dflt walk l conn frame now)) \<longleftrightarrow>
      length frame \<le> cap \<and> admitted d \<and> pre + cost \<le> have) \<and>
    tokens_for (fst (onFrame sp dflt walk l conn frame now)) conn now =
      (if have < pre then have
       else if cap < length frame \<or> have < pre + cost then have - pre
       else have - (pre + cost))"
proof -
  have inv: "limiter_inv settings n l" by (rule limiter_reach_inv) fact
  obtain l1 d1 where st: "admitPre sp l conn frame now = (l1, d1)" by fastforce
  have inv1: "limiter_inv settings n l1"
    using limiter_step_inv [OF admitPre_step [of l sp conn frame now] inv] st by simp
  note one = admitPre_stage [OF inv assms(2), of sp conn frame now, unfolded st fst_conv snd_conv]
  note two = admit_stage [OF inv1 assms(2), of sp dflt conn walk frame now]
  have "0 \<le> pre" "0 \<le> cost" using assms(4,7) by (simp_all add: pre_cost_def)
  then show ?thesis
    using one two assms(3-7) by (auto simp: onFrame_def st dropped_iff not_le)
qed

definition protobuf_walk ::
    "8 word list \<Rightarrow> 's \<Rightarrow> 's checker \<Rightarrow> AdmissionDecision" where
  "protobuf_walk frame s check =
     (case visitProtobuf 10 check frame s of (s', r) \<Rightarrow>
        (case r of Inr d \<Rightarrow> d | Inl e \<Rightarrow> decision_drop [] 0))"

lemma sample_walked: "walked sample_spec () protobuf_walk [8, 1] = decision_admit 0"
proof -
  have v: "visitProtobuf 10 check [8, 1] s = feed check [field_event (1, WVarint 1)] s" for check and s :: unit
    using message.visit_elements [of 0 "[8, 1]" "[(1, WVarint 1)]" "[]" 10 check s]
    by (simp add: visitProtobuf_def encode_field_def encode_varint.simps field_number_ok_def)
  show ?thesis by (simp add: walked_def makeChecker_def sample_spec_def protobuf_walk_def v)
qed

lemma sample_price:
  "tokens_for (sample_limiter 1) 7 0 = 7" "pre_cost sample_spec [8, 1] = 1"
  "unat (rt_max_payload_bytes (resolveDefaults sample_spec)) = 1024"
proof -
  have "tokens_for (limiter_new sample_settings 1) (7 :: nat) 0 = 10"
    by (simp add: tokens_for_def limiter_new_def sample_settings_def)
  then show "tokens_for (sample_limiter 1) 7 0 = 7"
    using charge_gate(2) [OF limiter_new_inv [of sample_settings 1], of "7 :: nat" 3 0]
    by (simp add: sample_limiter_def settings_ok_def sample_settings_def)
qed (simp_all add: pre_cost_def sample_spec_def resolveDefaults_def costFor_def word_le_nat_alt)

theorem frame_gate_witness:
  "admitted (snd (onFrame sample_spec () protobuf_walk (sample_limiter 1) 7 [8, 1] 0)) \<and>
   tokens_for (fst (onFrame sample_spec () protobuf_walk (sample_limiter 1) 7 [8, 1] 0)) 7 0 = 6"
  using frame_gate [OF sample_limiter_reach _ sample_price(1,2) [symmetric] sample_price(3) [symmetric]
      sample_walked [symmetric] refl]
  by (simp add: settings_ok_def sample_settings_def)

text \<open>
  C33: sweeping is invisible. As long as the connections in use fit under the cap and no sweep
  removes a connection that has been idle for less than the time an empty bucket takes to fill,
  every charge and every penalty gets the answer it would get if no sweep ran at all.
\<close>

theorem sweep_unobservable:
  assumes "settings_ok settings" and "sorted (map op_time ops)"
    and "card (\<Union> (op_conns ` set ops)) \<le> n"
    and "list_all (sweeps_late settings) ops"
  shows "snd (run_ops ops (limiter_new settings n)) =
    snd (run_ops (filter (\<lambda>op. \<not> is_sweep op) ops) (limiter_new settings n))"
proof (cases ops)
  case (Cons op rest)
  let ?K = "\<Union> (op_conns ` set ops)"
  have fin: "finite ?K" using finite_op_conns by auto
  have "roomy settings n ?K (op_time op) (limiter_new settings n)"
    by (simp add: roomy_def limiter_new_inv settled_new) (simp add: limiter_new_def)
  then show ?thesis
    using run_ops_agree [OF assms(1) fin assms(3) _ _ _ order_refl _ assms(4)] assms(2) Cons
    by (fastforce simp: agree_def)
qed simp

definition sample_ops :: "nat limiter_op list" where
  "sample_ops = [Charge 7 4 0, Sweep 20000000000 10000000000, Penalize 8 3 20000000000,
     Charge 7 10 21000000000]"

theorem sweep_unobservable_witness:
  "snd (run_ops sample_ops (limiter_new sample_settings 2)) =
   snd (run_ops [Charge (7 :: nat) 4 0, Penalize 8 3 20000000000, Charge 7 10 21000000000]
     (limiter_new sample_settings 2))"
proof -
  have f: "filter (\<lambda>op. \<not> is_sweep op) sample_ops =
      [Charge 7 4 0, Penalize 8 3 20000000000, Charge 7 10 21000000000]"
    by (simp add: sample_ops_def)
  show ?thesis
    unfolding f [symmetric]
    by (rule sweep_unobservable)
      (simp_all add: sample_ops_def settings_ok_def sample_settings_def sweeps_late_def toSeconds_def
        insert_commute [of "7 :: nat" 8])
qed

end
