(* ===== verification/AdmTunables.thy ===== *)
theory AdmTunables
  imports AdmTypes
begin

text \<open>
  The tuple of tunables of a spec as \<^verbatim>\<open>include/admissionspec/Types.hpp\<close> and \<^verbatim>\<open>Resolver.hpp\<close> have it:
  looked up by name, resolved one by one. \<open>AdmTypes\<close> keeps the two tunables every spec must have as
  fields of a record and the others as a type parameter; the refinement lemma here says that the
  record is what the lookups in the tuple give.
\<close>

section \<open>The tuple\<close>

text \<open>
  A tunable's value by its type. \<^verbatim>\<open>toResolved\<close> is the identity but for a ramp, whose array becomes
  a vector: here both are the list of the tiers.
\<close>

datatype tunable_value =
    TvUint64 uint64 | TvDouble real | TvBool bool | TvText string | TvRamp "SizeTier list"

primrec toResolved :: "tunable_value \<Rightarrow> tunable_value" where
  "toResolved (TvUint64 u) = TvUint64 u"
| "toResolved (TvDouble d) = TvDouble d"
| "toResolved (TvBool b) = TvBool b"
| "toResolved (TvText s) = TvText s"
| "toResolved (TvRamp tiers) = TvRamp tiers"

definition ramp :: "SizeTier list \<Rightarrow> tunable_value" where
  "ramp tiers = TvRamp tiers"

definition mk_tunable :: "string \<Rightarrow> tunable_value \<Rightarrow> string \<Rightarrow> tunable_value tunable" where
  "mk_tunable name defaultValue configKey =
     \<lparr>tn_name = name, tn_default = defaultValue, tn_configKey = configKey\<rparr>"

text \<open>The comma fold over the names, each match overwriting the index.\<close>

fun index_from :: "string \<Rightarrow> string list \<Rightarrow> nat \<Rightarrow> nat \<Rightarrow> nat" where
  "index_from name [] i idx = idx"
| "index_from name (n # ns) i idx = index_from name ns (i + 1) (if n = name then i else idx)"

definition tunableIndex :: "string \<Rightarrow> string list \<Rightarrow> nat" where
  "tunableIndex name names = index_from name names 0 (length names)"

record ResolvedTunables =
  rs_names :: "string list"
  rs_values :: "tunable_value list"

definition rs_has :: "string \<Rightarrow> ResolvedTunables \<Rightarrow> bool" where
  "rs_has name r = (tunableIndex name (rs_names r) < length (rs_names r))"

text \<open>\<^verbatim>\<open>get\<close>; an unknown name does not compile.\<close>

definition rs_get :: "string \<Rightarrow> ResolvedTunables \<Rightarrow> tunable_value option" where
  "rs_get name r =
     (let kIdx = tunableIndex name (rs_names r)
      in if kIdx < length (rs_names r) then Some (rs_values r ! kIdx) else None)"

definition resolveTunableDefaults :: "tunable_value tunable list \<Rightarrow> ResolvedTunables" where
  "resolveTunableDefaults ts =
     \<lparr>rs_names = map tn_name ts, rs_values = map (\<lambda>tn. toResolved (tn_default tn)) ts\<rparr>"

section \<open>Resolution\<close>

text \<open>The configuration: \<^verbatim>\<open>maybeValue\<close> at each value type.\<close>

record config =
  cf_uint64 :: "string \<Rightarrow> uint64 option"
  cf_double :: "string \<Rightarrow> real option"
  cf_bool :: "string \<Rightarrow> bool option"
  cf_text :: "string \<Rightarrow> string option"
  cf_ramp :: "string \<Rightarrow> (uint64 \<times> real) list option"

definition typed_tunable :: "'a \<Rightarrow> 'b tunable \<Rightarrow> 'a tunable" where
  "typed_tunable v tn = \<lparr>tn_name = tn_name tn, tn_default = v, tn_configKey = tn_configKey tn\<rparr>"

definition resolveOne :: "config \<Rightarrow> tunable_value tunable \<Rightarrow> tunable_value" where
  "resolveOne cf tn = (case tn_default tn of
       TvUint64 u \<Rightarrow> TvUint64 (resolveOne_scalar (cf_uint64 cf) (typed_tunable u tn))
     | TvDouble d \<Rightarrow> TvDouble (resolveOne_scalar (cf_double cf) (typed_tunable d tn))
     | TvBool b \<Rightarrow> TvBool (resolveOne_scalar (cf_bool cf) (typed_tunable b tn))
     | TvText s \<Rightarrow> TvText (resolveOne_scalar (cf_text cf) (typed_tunable s tn))
     | TvRamp r \<Rightarrow> TvRamp (resolveOne_ramp (cf_ramp cf) (typed_tunable r tn)))"

definition resolveTuple :: "config \<Rightarrow> tunable_value tunable list \<Rightarrow> ResolvedTunables" where
  "resolveTuple cf ts = \<lparr>rs_names = map tn_name ts, rs_values = map (resolveOne cf) ts\<rparr>"

text \<open>The static assertions of \<^verbatim>\<open>makeSpec\<close>.\<close>

definition makeSpec_ok :: "tunable_value tunable list \<Rightarrow> bool" where
  "makeSpec_ok ts =
     (rs_has ''max_payload_bytes'' (resolveTunableDefaults ts) \<and>
      rs_has ''size_ramp'' (resolveTunableDefaults ts))"

section \<open>The lookup\<close>

text \<open>The tunable a name stands for: the last one declared with it.\<close>

definition last_named :: "string \<Rightarrow> 'a tunable list \<Rightarrow> 'a tunable option" where
  "last_named name ts = find (\<lambda>tn. tn_name tn = name) (rev ts)"

lemma index_from_snoc:
  "index_from name (ns @ [n]) i idx =
     (if n = name then i + length ns else index_from name ns i idx)"
  by (induction ns arbitrary: i idx) auto

lemma index_from_absent: "name \<notin> set ns \<Longrightarrow> index_from name ns i idx = idx"
  by (induction ns arbitrary: i idx) auto

lemma index_from_default:
  "name \<in> set ns \<Longrightarrow> index_from name ns i idx = index_from name ns i idx'"
  by (induction ns arbitrary: i idx idx') (auto simp: index_from_absent)

lemma index_from_bound: "name \<in> set ns \<Longrightarrow> index_from name ns 0 idx < length ns"
  by (induction ns rule: rev_induct) (auto simp: index_from_snoc less_Suc_eq)

lemma tunableIndex_less [simp]: "tunableIndex name names < length names \<longleftrightarrow> name \<in> set names"
  by (cases "name \<in> set names")
    (simp_all add: tunableIndex_def index_from_bound index_from_absent)

lemma last_named_None: "last_named name ts = None \<longleftrightarrow> name \<notin> tn_name ` set ts"
  by (auto simp: last_named_def find_None_iff)

lemma tunableIndex_last:
  assumes "last_named name ts = Some tn"
  shows "tunableIndex name (map tn_name ts) < length ts \<and>
    ts ! tunableIndex name (map tn_name ts) = tn"
  using assms
proof (induction ts rule: rev_induct)
  case (snoc t ts)
  show ?case
  proof (cases "tn_name t = name")
    case True
    with snoc.prems show ?thesis
      by (simp add: last_named_def tunableIndex_def index_from_snoc)
  next
    case False
    with snoc.prems have last: "last_named name ts = Some tn" by (simp add: last_named_def)
    then have "name \<in> set (map tn_name ts)"
      using last_named_None [of name ts] by auto
    with False have "tunableIndex name (map tn_name (ts @ [t])) = tunableIndex name (map tn_name ts)"
      by (simp add: tunableIndex_def index_from_snoc
          index_from_default [of name "map tn_name ts" 0 "Suc (length ts)" "length ts"])
    with snoc.IH [OF last] show ?thesis by (simp add: nth_append)
  qed
qed (simp add: last_named_def)

lemma rs_has_iff: "rs_has name \<lparr>rs_names = map tn_name ts, rs_values = vs\<rparr> \<longleftrightarrow> last_named name ts \<noteq> None"
  by (simp add: rs_has_def last_named_None del: length_map)

lemma rs_get_map:
  "rs_get name \<lparr>rs_names = map tn_name ts, rs_values = map f ts\<rparr> = map_option f (last_named name ts)"
proof (cases "last_named name ts")
  case None
  then have "\<not> tunableIndex name (map tn_name ts) < length (map tn_name ts)"
    by (simp add: last_named_None del: length_map)
  with None show ?thesis by (simp add: rs_get_def)
next
  case (Some tn)
  from tunableIndex_last [OF this] Some show ?thesis by (simp add: rs_get_def Let_def)
qed

section \<open>The record of the two required tunables\<close>

definition record_spec ::
    "tunable_value tunable list \<Rightarrow>
     ('s \<times> (tunable_value tunable list resolved_tunables \<Rightarrow> 's checker)) option \<Rightarrow>
     (tunable_value tunable list, 's) AdmissionSpec option" where
  "record_spec ts check =
     (case (last_named ''size_ramp'' ts, last_named ''max_payload_bytes'' ts) of
        (Some r, Some c) \<Rightarrow>
          (case (tn_default r, tn_default c) of
             (TvRamp tiers, TvUint64 cap) \<Rightarrow>
               Some \<lparr>sp_size_ramp = typed_tunable tiers r, sp_max_payload_bytes = typed_tunable cap c,
                     sp_others = ts, sp_check = check\<rparr>
           | _ \<Rightarrow> None)
      | _ \<Rightarrow> None)"

text \<open>
  C25: a tuple that has a ramp and a cap satisfies the static assertions of \<^verbatim>\<open>makeSpec\<close>, and reading the
  two by name out of the resolved tuple, with a configuration or with the defaults, gives the
  fields that the record of \<open>AdmTypes\<close> resolves to. Where a name is declared more than once it is
  the last declaration that is read.
\<close>

theorem tunables_refine_record:
  assumes "record_spec ts check = Some sp"
  shows "makeSpec_ok ts \<and>
    rs_get ''size_ramp'' (resolveTuple cf ts) =
      Some (TvRamp (rt_size_ramp (resolve sp (cf_uint64 cf) (cf_ramp cf) others))) \<and>
    rs_get ''max_payload_bytes'' (resolveTuple cf ts) =
      Some (TvUint64 (rt_max_payload_bytes (resolve sp (cf_uint64 cf) (cf_ramp cf) others))) \<and>
    rs_get ''size_ramp'' (resolveTunableDefaults ts) = Some (TvRamp (rt_size_ramp (resolveDefaults sp))) \<and>
    rs_get ''max_payload_bytes'' (resolveTunableDefaults ts) =
      Some (TvUint64 (rt_max_payload_bytes (resolveDefaults sp)))"
proof -
  from assms obtain r c tiers cap where
    "last_named ''size_ramp'' ts = Some r" "last_named ''max_payload_bytes'' ts = Some c"
    "tn_default r = TvRamp tiers" "tn_default c = TvUint64 cap"
    "sp = \<lparr>sp_size_ramp = typed_tunable tiers r, sp_max_payload_bytes = typed_tunable cap c,
           sp_others = ts, sp_check = check\<rparr>"
    by (auto simp: record_spec_def split: option.splits tunable_value.splits)
  then show ?thesis
    by (simp add: makeSpec_ok_def resolveTunableDefaults_def resolveTuple_def rs_has_iff rs_get_map
        resolveOne_def resolve_def resolveDefaults_def typed_tunable_def)
qed

definition sample_tunables :: "tunable_value tunable list" where
  "sample_tunables =
     [mk_tunable ''max_payload_bytes'' (TvUint64 1024) ''cap'',
      mk_tunable ''size_ramp'' (ramp [\<lparr>tier_upToBytes = 256, tier_cost = 1\<rparr>]) ''ramp'',
      mk_tunable ''max_payload_bytes'' (TvUint64 4096) ''cap2'']"

definition sample_config :: config where
  "sample_config = \<lparr>cf_uint64 = (\<lambda>k. if k = ''cap'' then Some 1 else None), cf_double = (\<lambda>k. None),
     cf_bool = (\<lambda>k. None), cf_text = (\<lambda>k. None), cf_ramp = (\<lambda>k. Some [(16, 2)])\<rparr>"

theorem tunables_refine_record_witness:
  "rs_get ''max_payload_bytes'' (resolveTuple sample_config sample_tunables) = Some (TvUint64 4096) \<and>
   rs_get ''size_ramp'' (resolveTuple sample_config sample_tunables) =
     Some (TvRamp [\<lparr>tier_upToBytes = 16, tier_cost = 2\<rparr>])"
proof -
  obtain sp :: "(_, unit) AdmissionSpec" where sp: "record_spec sample_tunables None = Some sp"
    "sp_size_ramp sp = typed_tunable [\<lparr>tier_upToBytes = 256, tier_cost = 1\<rparr>] (sample_tunables ! 1)"
    "sp_max_payload_bytes sp = typed_tunable 4096 (sample_tunables ! 2)"
    by (simp add: record_spec_def sample_tunables_def last_named_def mk_tunable_def ramp_def)
  from tunables_refine_record [OF sp(1), of sample_config id] show ?thesis
    by (simp add: resolve_def sp(2,3) resolveOne_ramp_def resolveOne_scalar_def typed_tunable_def
        sample_config_def sample_tunables_def mk_tunable_def)
qed

end
