(* ===== verification/AdmOverrun.thy ===== *)
theory AdmOverrun
  imports AdmProtobuf
begin

text \<open>
  The message visitor of \<^verbatim>\<open>include/admissionspec/ProtobufVisitor.hpp\<close> as a machine runs it where the
  language says nothing: a shift by 64 and more gives some word, and a subspan that leaves the
  payload, which only asserts in a checked build of the library, reads what lies behind it. Both are
  parameters. The position is a 64-bit number and a length that wraps it around moves the visitor
  back, so that the loop may run for ever: it is a partial function, \<open>None\<close> when it does not return.

  As long as a visit does nothing undefined this visitor and the one of \<open>AdmProtobuf\<close> agree, hence
  it returns. Otherwise it need not: there is a payload of eleven bytes that keeps it busy for ever.
\<close>

section \<open>The visitor as compiled\<close>

record machine =
  over_shift :: "uint64 \<Rightarrow> nat \<Rightarrow> uint64"
  beyond :: "nat \<Rightarrow> 8 word"

function machine_varint :: "machine \<Rightarrow> 8 word list \<Rightarrow> nat \<Rightarrow> uint64 \<Rightarrow> nat \<Rightarrow> nat \<times> uint64 option" where
  "machine_varint m bytes pos result shift =
     (if pos < length bytes then
        (let byte = bytes ! pos;
             group = ucast (byte AND 0x7F);
             result' = result OR (if 64 \<le> shift then over_shift m group shift else push_bit shift group)
         in if byte AND 0x80 = 0 then (pos + 1, Some result')
            else machine_varint m bytes (pos + 1) result' (shift + 7))
      else (pos, None))"
  by pat_completeness auto
termination by (relation "measure (\<lambda>(_, bytes, pos, _, _). length bytes - pos)") auto

declare machine_varint.simps [simp del]

definition machine_span :: "machine \<Rightarrow> 8 word list \<Rightarrow> nat \<Rightarrow> nat \<Rightarrow> 8 word list" where
  "machine_span m bytes pos n =
     map (\<lambda>i. if i < length bytes then bytes ! i else beyond m i) [pos..<pos + n]"

definition machine_field ::
    "machine \<Rightarrow> real \<Rightarrow> 's checker \<Rightarrow> 8 word list \<Rightarrow> nat \<Rightarrow> uint64 \<Rightarrow> uint64 \<Rightarrow> 's \<Rightarrow>
     's \<times> nat \<times> AdmissionDecision" where
  "machine_field m cost check bytes pos field wireType s =
     (if wireType = 0 then
        (case machine_varint m bytes pos 0 0 of
           (pos', None) \<Rightarrow> (s, pos', invalid_payload cost)
         | (pos', Some x) \<Rightarrow>
             (case check s (scalar_event field x) of (s', decision) \<Rightarrow> (s', pos', decision)))
      else if wireType = 1 then handleInt cost check bytes pos field 8 s
      else if wireType = 5 then handleInt cost check bytes pos field 4 s
      else if wireType = 2 then
        (case machine_varint m bytes pos 0 0 of
           (pos', None) \<Rightarrow> (s, pos', invalid_payload cost)
         | (pos', Some len) \<Rightarrow>
             let after = unat (word_of_nat pos' + len)
             in if length bytes < after then (s, pos', invalid_payload cost)
                else
                  (case check s (bytes_event field (machine_span m bytes pos' (unat len))) of
                     (s', decision) \<Rightarrow> (s', after, decision)))
      else (s, pos, decision_admit 0))"

partial_function (option) machine_visit ::
    "machine \<Rightarrow> real \<Rightarrow> 's checker \<Rightarrow> 8 word list \<Rightarrow> nat \<Rightarrow> 's \<Rightarrow> ('s \<times> AdmissionDecision) option" where
  "machine_visit m cost check bytes pos s =
     (if pos < length bytes then
        (case machine_varint m bytes pos 0 0 of
           (pos1, None) \<Rightarrow> Some (s, invalid_payload cost)
         | (pos1, Some tag) \<Rightarrow>
             (case machine_field m cost check bytes pos1 (drop_bit 3 tag) (tag AND 0x07) s of
                (s', pos2, decision) \<Rightarrow>
                  if dropped decision then Some (s', decision)
                  else machine_visit m cost check bytes pos2 s'))
      else Some (s, decision_admit 0))"

section \<open>Agreement where the language defines the visit\<close>

lemma machine_varint_from:
  "readVarint_from bytes pos result shift = Inr r \<Longrightarrow> machine_varint m bytes pos result shift = r"
proof (induction bytes pos result shift rule: readVarint_from.induct)
  case (1 bytes pos result shift)
  show ?case
  proof (cases "pos < length bytes")
    case False
    with "1.prems" show ?thesis
      by (simp add: readVarint_from.simps [of bytes pos] machine_varint.simps [of m bytes pos])
  next
    case True
    then have s: "\<not> 64 \<le> shift" using "1.prems" by (auto simp: readVarint_from.simps [of bytes pos] Let_def)
    let ?r = "result OR push_bit shift (ucast (bytes ! pos AND 0x7F))"
    show ?thesis
    proof (cases "bytes ! pos AND 0x80 = 0")
      case end_of_varint: True
      with True s "1.prems" show ?thesis
        by (auto simp: readVarint_from.simps [of bytes pos] machine_varint.simps [of m bytes pos] Let_def)
    next
      case False
      with True s "1.prems" have "readVarint_from bytes (pos + 1) ?r (shift + 7) = Inr r"
        by (simp add: readVarint_from.simps [of bytes pos] Let_def)
      from "1.IH" [OF True refl s refl False this] False True s show ?thesis
        by (simp add: machine_varint.simps [of m bytes pos] Let_def)
    qed
  qed
qed

lemma machine_varint_eq: "readVarint bytes pos = Inr r \<Longrightarrow> machine_varint m bytes pos 0 0 = r"
  by (simp add: readVarint_def machine_varint_from)

lemma machine_span_inside: "pos + n \<le> length bytes \<Longrightarrow> machine_span m bytes pos n = take n (drop pos bytes)"
  by (auto simp: machine_span_def list_eq_iff_nth_eq)

lemma machine_field_eq:
  assumes "visit_field cost check bytes pos field wireType s = (s', Inr (pos', d))"
    and "length bytes < 2 ^ 63"
  shows "machine_field m cost check bytes pos field wireType s = (s', pos', d)"
proof (cases "wireType = 2")
  case True
  obtain p out where p: "readVarint bytes pos = Inr (p, out)"
    using assms(1) True by (auto simp: visit_field_def split: sum.splits)
  show ?thesis
  proof (cases out)
    case None
    with p assms(1) True show ?thesis
      by (simp add: visit_field_def machine_field_def machine_varint_eq [OF p])
  next
    case (Some len)
    show ?thesis
    proof (cases "length bytes < unat (word_of_nat p + len)")
      case True
      with p Some \<open>wireType = 2\<close> assms(1) show ?thesis
        by (simp add: visit_field_def machine_field_def machine_varint_eq [OF p] Let_def)
    next
      case fits: False
      then have inside: "p + unat len \<le> length bytes"
        using p Some \<open>wireType = 2\<close> assms(1) by (auto simp: visit_field_def split: if_splits)
      have "word_of_nat p + len = (word_of_nat (p + unat len) :: uint64)" by simp
      then have "unat (word_of_nat p + len) = (p + unat len) mod 2 ^ 64"
        by (simp only: unat_word_of_nat64)
      then have "unat (word_of_nat p + len) = p + unat len" using inside assms(2) by simp
      then show ?thesis
        using p Some \<open>wireType = 2\<close> assms(1) fits inside
        by (auto simp: visit_field_def machine_field_def machine_varint_eq [OF p] Let_def
            machine_span_inside split: prod.splits)
    qed
  qed
next
  case False
  then show ?thesis
    using assms(1) machine_varint_eq [of bytes pos]
    by (auto simp: visit_field_def machine_field_def split: if_splits sum.splits prod.splits option.splits)
qed

lemma machine_visit_eq:
  assumes "visitProtobuf_from cost check bytes pos s = (s', Inr d)" and "length bytes < 2 ^ 63"
  shows "machine_visit m cost check bytes pos s = Some (s', d)"
  using assms(1)
proof (induction "length bytes - pos" arbitrary: pos s rule: less_induct)
  case less
  show ?case
  proof (cases "pos < length bytes")
    case False
    with less.prems show ?thesis
      by (simp add: visitProtobuf_from.simps [of _ _ _ pos] machine_visit.simps [of _ _ _ _ pos])
  next
    case True
    obtain pos1 out where p: "readVarint bytes pos = Inr (pos1, out)"
      using less.prems True by (auto simp: visitProtobuf_from.simps [of _ _ _ pos] split: sum.splits)
    show ?thesis
    proof (cases out)
      case None
      with less.prems True p show ?thesis
        by (simp add: visitProtobuf_from.simps [of _ _ _ pos] machine_visit.simps [of _ _ _ _ pos]
            machine_varint_eq [OF p])
    next
      case (Some tag)
      obtain s1 r where f: "visit_field cost check bytes pos1 (drop_bit 3 tag) (tag AND 0x07) s = (s1, r)"
        by fastforce
      obtain pos2 d1 where r: "r = Inr (pos2, d1)"
        using less.prems True p Some f
        by (cases r) (auto simp: visitProtobuf_from.simps [of _ _ _ pos])
      have "pos < pos1" "pos1 \<le> pos2"
        using readVarint_pos [of bytes pos pos1 tag] p Some visit_field_pos [of cost check bytes pos1 _ _ s s1 pos2 d1] f r
        by auto
      then have IH: "visitProtobuf_from cost check bytes pos2 s1 = (s', Inr d) \<Longrightarrow>
          machine_visit m cost check bytes pos2 s1 = Some (s', d)"
        using True by (intro less.hyps) auto
      show ?thesis
        using less.prems True p Some f r IH machine_field_eq [OF f [unfolded r] assms(2), of m]
        by (auto simp: visitProtobuf_from.simps [of _ _ _ pos] machine_visit.simps [of _ _ _ _ pos]
            machine_varint_eq [OF p] split: if_splits)
    qed
  qed
qed

section \<open>Properties\<close>

text \<open>
  C38: a visit that does nothing undefined comes to an end, as compiled too and on any machine, with
  the same decision and state, after at most one call of the check per two bytes of payload: every
  event stands for a tag and a value of at least a byte each. Up to the first undefined operation,
  if there is one, the bound on the calls holds as well.
\<close>

theorem visitProtobuf_work:
  assumes "visitProtobuf cost (counting check) bytes (0, s) = ((n, s'), r)" and "length bytes < 2 ^ 63"
  shows "2 * n \<le> length bytes \<and>
    (\<forall>d. r = Inr d \<longrightarrow> machine_visit m cost (counting check) bytes 0 (0, s) = Some ((n, s'), d))"
  using visit_from_count [of cost check bytes 0 "(0, s)"] assms(1)
    machine_visit_eq [OF _ assms(2), of cost "counting check" 0 "(0, s)" "(n, s')"]
  by (auto simp: visitProtobuf_def)

definition zero_machine :: machine where
  "zero_machine = \<lparr>over_shift = (\<lambda>x n. 0), beyond = (\<lambda>i. 0)\<rparr>"

definition admit_all :: "unit checker" where
  "admit_all s ev = (s, decision_admit 0)"

theorem visitProtobuf_work_witness:
  "machine_visit zero_machine 10 (counting admit_all) [8, 1, 16, 2] 0 (0, ()) = Some ((2, ()), decision_admit 0)"
proof -
  have "visitProtobuf 10 (counting admit_all) [8, 1, 16, 2] (0, ()) = ((2, ()), Inr (decision_admit 0))"
    using message.visit_elements [of 0 "[8, 1, 16, 2]" "[(1, WVarint 1), (2, WVarint 2)]" "[]" 10
        "counting admit_all" "(0, ())"]
    by (simp add: visitProtobuf_def encode_field_def encode_varint.simps field_number_ok_def counting_def
        admit_all_def)
  from visitProtobuf_work [OF this] show ?thesis by simp
qed

text \<open>
  Without the hypothesis the visit need not end. In this payload, one field of length \<open>2 ^ 64 - 11\<close>,
  the length moves the position from 11 back to 0, and the visitor reads the field again, for ever
  and with a call of the check each time, unless the check drops the field.
\<close>

theorem visitProtobuf_hangs:
  assumes "\<forall>s ev. \<not> dropped (snd (check s ev))"
  shows "machine_visit m cost check (0x0A # encode_varint 18446744073709551605 @ rest) 0 s = None"
proof -
  let ?n = "18446744073709551605 :: nat"
  let ?bytes = "0x0A # encode_varint ?n @ rest"
  have len: "length (encode_varint ?n) = 10" by (simp add: encode_varint.simps)
  have t: "encode_varint 10 = [0x0A]" by (simp add: encode_varint.simps)
  have "readVarint ?bytes 0 = Inr (1, Some 0x0A)"
    using readVarint_encode [of 0 ?bytes 10 "encode_varint ?n @ rest"] t by simp
  note tag = machine_varint_eq [OF this, of m]
  have "readVarint ?bytes 1 = Inr (11, Some (word_of_nat ?n))"
    using readVarint_encode [of 1 ?bytes ?n rest] len by simp
  note l = machine_varint_eq [OF this, of m]
  have after: "unat (word_of_nat 11 + word_of_nat ?n :: uint64) = 0" by simp
  have round: "\<exists>s'. machine_field m cost check ?bytes 1 1 2 s = (s', 0, snd (check s
      (bytes_event 1 (machine_span m ?bytes 11 (unat (word_of_nat ?n :: uint64))))))" for s
    unfolding machine_field_def l using after by (simp add: Let_def split: prod.split)
  have never: False if h: "machine_visit m cost check ?bytes 0 s = Some r" for s r
  proof -
    have "\<not> (m = m \<and> cost = cost \<and> check = check \<and> ?bytes = ?bytes \<and> 0 = (0 :: nat))"
    proof (rule machine_visit.raw_induct [where P = "\<lambda>m' cost' check' bytes pos s r.
          \<not> (m' = m \<and> cost' = cost \<and> check' = check \<and> bytes = ?bytes \<and> pos = 0)", OF _ h], rule notI)
      fix f m' cost' check' bytes pos s r
      assume IH: "\<And>m' cost' check' bytes pos s r. f m' cost' check' bytes pos s = Some r \<Longrightarrow>
          \<not> (m' = m \<and> cost' = cost \<and> check' = check \<and> bytes = ?bytes \<and> pos = 0)"
        and step: "(if pos < length bytes then
            (case machine_varint m' bytes pos 0 0 of
               (pos1, None) \<Rightarrow> Some (s, invalid_payload cost')
             | (pos1, Some tag) \<Rightarrow>
                 (case machine_field m' cost' check' bytes pos1 (drop_bit 3 tag) (tag AND 0x07) s of
                    (s', pos2, decision) \<Rightarrow>
                      if dropped decision then Some (s', decision) else f m' cost' check' bytes pos2 s'))
          else Some (s, decision_admit 0)) = Some r"
        and here: "m' = m \<and> cost' = cost \<and> check' = check \<and> bytes = ?bytes \<and> pos = 0"
      obtain s' where "machine_field m cost check ?bytes 1 1 2 s = (s', 0, snd (check s
          (bytes_event 1 (machine_span m ?bytes 11 (unat (word_of_nat ?n :: uint64))))))"
        using round by blast
      then have "f m cost check ?bytes 0 s' = Some r"
        using step here tag assms by simp
      with IH show False by blast
    qed
    then show False by blast
  qed
  then show ?thesis by (cases "machine_visit m cost check ?bytes 0 s") auto
qed

theorem visitProtobuf_hangs_witness:
  "machine_visit zero_machine 10 admit_all (0x0A # encode_varint 18446744073709551605) 0 () = None"
  using visitProtobuf_hangs [of admit_all zero_machine 10 "[]" "()"] by (simp add: admit_all_def)

end
