(* ===== verification/AdmJson.thy ===== *)
theory AdmJson
  imports AdmTypes
begin

text \<open>
  \<^verbatim>\<open>include/admissionspec/JsonVisitor.hpp\<close>: the handler of the streaming JSON parser and
  \<^verbatim>\<open>visitJson\<close>. The parser (\<^verbatim>\<open>boost::json::basic_parser\<close>) is an argument: from the limits and the
  bytes it gives the callbacks it makes while the handler keeps returning true, and how
  \<^verbatim>\<open>write_some\<close> ends. A check of this visitor may throw, since \<^verbatim>\<open>visitJson\<close> catches.

  The second half relates the callbacks of a document to a declarative traversal of it.
\<close>

section \<open>Checks, errors and callbacks\<close>

text \<open>An error code, \<open>None\<close> for success; what is thrown is caught by its type.\<close>

type_synonym error_code = "string option"

datatype raised = SystemError error_code | OtherException

type_synonym 's throwing_checker = "'s \<Rightarrow> VisitEvent \<Rightarrow> 's \<times> (raised + AdmissionDecision)"

datatype json_callback =
    on_document_begin | on_document_end
  | on_array_begin | on_array_end nat
  | on_object_begin | on_object_end nat
  | on_string_part string nat | on_string string nat
  | on_key_part string nat | on_key string nat
  | on_number_part string
  | on_int64 int64 | on_uint64 uint64 | on_double real
  | on_bool bool | on_null
  | on_comment_part string | on_comment string

text \<open>A callback returns whether to keep parsing, or leaves by an exception.\<close>

datatype handler_result = Returns bool | Raises raised | Undefined exn

section \<open>The handler\<close>

text \<open>\<open>jv_containerKeys\<close> is \<^verbatim>\<open>containerKeys_\<close> with its back first.\<close>

record 's JsonVisitor =
  jv_check :: 's
  jv_decision :: AdmissionDecision
  jv_depth :: uint32
  jv_containerKeys :: "string list"
  jv_pendingKey :: string

definition JsonVisitor_new :: "'s \<Rightarrow> AdmissionDecision \<Rightarrow> 's JsonVisitor" where
  "JsonVisitor_new s d =
     \<lparr>jv_check = s, jv_decision = d, jv_depth = 0, jv_containerKeys = [], jv_pendingKey = []\<rparr>"

definition emit ::
    "'s throwing_checker \<Rightarrow> VisitEvent \<Rightarrow> 's JsonVisitor \<Rightarrow> 's JsonVisitor \<times> handler_result" where
  "emit check event jv =
     (case check (jv_check jv) event of
        (s, Inl e) \<Rightarrow> (jv\<lparr>jv_check := s\<rparr>, Raises e)
      | (s, Inr d) \<Rightarrow> (jv\<lparr>jv_check := s, jv_decision := d\<rparr>, Returns (admitted d)))"

definition emitLeaf ::
    "'s throwing_checker \<Rightarrow> VisitEvent \<Rightarrow> 's JsonVisitor \<Rightarrow> 's JsonVisitor \<times> handler_result" where
  "emitLeaf check event jv =
     (case emit check (event\<lparr>ev_key := jv_pendingKey jv, ev_depth := jv_depth jv\<rparr>) jv of
        (jv', Returns keepGoing) \<Rightarrow> (jv'\<lparr>jv_pendingKey := []\<rparr>, Returns keepGoing)
      | r \<Rightarrow> r)"

definition beginContainer ::
    "'s throwing_checker \<Rightarrow> EventKind \<Rightarrow> 's JsonVisitor \<Rightarrow> 's JsonVisitor \<times> handler_result" where
  "beginContainer check kind jv =
     (let opened = jv\<lparr>jv_containerKeys := jv_pendingKey jv # jv_containerKeys jv,
                      jv_pendingKey := []\<rparr>
      in emit check
           (event_default\<lparr>ev_kind := kind, ev_key := hd (jv_containerKeys opened),
                          ev_depth := jv_depth opened\<rparr>)
           (opened\<lparr>jv_depth := jv_depth opened + 1\<rparr>))"

definition endContainer ::
    "'s throwing_checker \<Rightarrow> EventKind \<Rightarrow> nat \<Rightarrow> 's JsonVisitor \<Rightarrow> 's JsonVisitor \<times> handler_result" where
  "endContainer check kind n jv =
     (case jv_containerKeys jv of
        [] \<Rightarrow> (jv, Undefined EmptyBack)
      | key # keys \<Rightarrow>
          (let depth = jv_depth jv - 1 in
           case emit check
                  (event_default\<lparr>ev_kind := kind, ev_key := key, ev_size := n, ev_depth := depth\<rparr>)
                  (jv\<lparr>jv_depth := depth\<rparr>) of
             (jv', Returns keepGoing) \<Rightarrow> (jv'\<lparr>jv_containerKeys := keys\<rparr>, Returns keepGoing)
           | r \<Rightarrow> r))"

text \<open>The callbacks. A piece of text does not consume the pending key, the value it ends in does.\<close>

fun handle ::
    "'s throwing_checker \<Rightarrow> json_callback \<Rightarrow> 's JsonVisitor \<Rightarrow> 's JsonVisitor \<times> handler_result" where
  "handle check on_document_begin jv = (jv, Returns True)"
| "handle check on_document_end jv = (jv, Returns True)"
| "handle check on_array_begin jv = beginContainer check ArrayBegin jv"
| "handle check (on_array_end n) jv = endContainer check ArrayEnd n jv"
| "handle check on_object_begin jv = beginContainer check ObjectBegin jv"
| "handle check (on_object_end n) jv = endContainer check ObjectEnd n jv"
| "handle check (on_string_part s n) jv =
     emit check (event_default\<lparr>ev_kind := StringPart, ev_key := jv_pendingKey jv, ev_size := n,
                               ev_depth := jv_depth jv, ev_value := VText s\<rparr>) jv"
| "handle check (on_string s n) jv =
     emitLeaf check (event_default\<lparr>ev_kind := String, ev_size := n, ev_value := VText s\<rparr>) jv"
| "handle check (on_key_part s n) jv =
     (let jv' = jv\<lparr>jv_pendingKey := jv_pendingKey jv @ s\<rparr> in
      emit check (event_default\<lparr>ev_kind := KeyPart, ev_size := n, ev_depth := jv_depth jv',
                                ev_value := VText s\<rparr>) jv')"
| "handle check (on_key s n) jv =
     (let jv' = jv\<lparr>jv_pendingKey := jv_pendingKey jv @ s\<rparr> in
      emit check (event_default\<lparr>ev_kind := Key, ev_size := n, ev_depth := jv_depth jv',
                                ev_value := VText s\<rparr>) jv')"
| "handle check (on_number_part s) jv =
     emit check (event_default\<lparr>ev_kind := NumberPart, ev_key := jv_pendingKey jv,
                               ev_depth := jv_depth jv, ev_value := VText s\<rparr>) jv"
| "handle check (on_int64 i) jv =
     emitLeaf check (event_default\<lparr>ev_kind := Int64, ev_value := VInt64 i\<rparr>) jv"
| "handle check (on_uint64 u) jv =
     emitLeaf check (event_default\<lparr>ev_kind := Uint64, ev_value := VUint64 u\<rparr>) jv"
| "handle check (on_double d) jv =
     emitLeaf check (event_default\<lparr>ev_kind := Double, ev_value := VDouble d\<rparr>) jv"
| "handle check (on_bool b) jv =
     emitLeaf check (event_default\<lparr>ev_kind := Bool, ev_value := VBool b\<rparr>) jv"
| "handle check on_null jv = emitLeaf check (event_default\<lparr>ev_kind := Null\<rparr>) jv"
| "handle check (on_comment_part s) jv =
     emit check (event_default\<lparr>ev_kind := CommentPart, ev_depth := jv_depth jv,
                               ev_value := VText s\<rparr>) jv"
| "handle check (on_comment s) jv =
     emit check (event_default\<lparr>ev_kind := Comment, ev_depth := jv_depth jv, ev_value := VText s\<rparr>) jv"

section \<open>The parse\<close>

record VisitorOptions =
  kMaxArraySize :: uint64
  kMaxObjectSize :: uint64
  kMaxStringSize :: uint64
  kMaxKeySize :: uint64

definition DefaultJsonVisitorOptions :: VisitorOptions where
  "DefaultJsonVisitorOptions =
     \<lparr>kMaxArraySize = - 1, kMaxObjectSize = - 1, kMaxStringSize = - 1, kMaxKeySize = - 1\<rparr>"

record VisitJsonOptions =
  costForInvalidPayload :: real
  maxDepth :: uint32

definition visitJson_options :: VisitJsonOptions where
  "visitJson_options = \<lparr>costForInvalidPayload = 10, maxDepth = - 1\<rparr>"

text \<open>
  How \<^verbatim>\<open>write_some\<close> ends: the number of characters consumed and the error code, or an exception
  of the parser's own. \<open>ps_stopped\<close> is what it reports after a callback that returned false.
\<close>

datatype ending = Finished nat error_code | Raised raised

record parse =
  ps_calls :: "json_callback list"
  ps_ending :: ending
  ps_stopped :: ending

type_synonym basic_parser = "VisitorOptions \<Rightarrow> uint32 \<Rightarrow> 8 word list \<Rightarrow> parse"

fun run_handler ::
    "'s throwing_checker \<Rightarrow> json_callback list \<Rightarrow> 's JsonVisitor \<Rightarrow> 's JsonVisitor \<times> handler_result" where
  "run_handler check [] jv = (jv, Returns True)"
| "run_handler check (call # calls) jv =
     (case handle check call jv of
        (jv', Returns True) \<Rightarrow> run_handler check calls jv'
      | r \<Rightarrow> r)"

fun caught :: "raised \<Rightarrow> error_code" where
  "caught (SystemError ec) = ec"
| "caught OtherException = Some ''exception''"

fun error_of :: "nat \<Rightarrow> ending \<Rightarrow> error_code" where
  "error_of len (Finished consumed ec) =
     (if ec = None \<and> consumed \<noteq> len then Some ''extra_data'' else ec)"
| "error_of len (Raised e) = caught e"

definition visitJson ::
    "basic_parser \<Rightarrow> VisitorOptions \<Rightarrow> 's throwing_checker \<Rightarrow> VisitJsonOptions \<Rightarrow> 8 word list \<Rightarrow>
     's \<Rightarrow> 's \<times> (exn + AdmissionDecision)" where
  "visitJson parser limits check options bytes s =
     (let p = parser limits (maxDepth options) bytes in
      case run_handler check (ps_calls p) (JsonVisitor_new s (decision_admit 0)) of
        (jv, r) \<Rightarrow>
          (jv_check jv,
           case r of
             Undefined e \<Rightarrow> Inl e
           | _ \<Rightarrow>
             let ec = (case r of
                         Raises e \<Rightarrow> caught e
                       | Returns True \<Rightarrow> error_of (length bytes) (ps_ending p)
                       | Returns False \<Rightarrow> error_of (length bytes) (ps_stopped p))
             in if dropped (jv_decision jv) then Inr (jv_decision jv)
                else if ec \<noteq> None then
                  Inr (decision_drop ''Invalid JSON payload'' (costForInvalidPayload options))
                else Inr (jv_decision jv)))"

section \<open>The events of a sequence of callbacks\<close>

text \<open>
  Which event a callback emits does not depend on the check: it is a function of the open
  containers and the pending key. \<open>step_event\<close> is that function, \<open>None\<close> where the code reads the
  back of an empty stack.
\<close>

record navigation =
  nv_depth :: uint32
  nv_keys :: "string list"
  nv_pending :: string

definition navigation_of :: "'s JsonVisitor \<Rightarrow> navigation" where
  "navigation_of jv =
     \<lparr>nv_depth = jv_depth jv, nv_keys = jv_containerKeys jv, nv_pending = jv_pendingKey jv\<rparr>"

definition located :: "EventKind \<Rightarrow> string \<Rightarrow> uint32 \<Rightarrow> nat \<Rightarrow> event_value \<Rightarrow> VisitEvent" where
  "located kind key depth n v =
     event_default\<lparr>ev_kind := kind, ev_key := key, ev_size := n, ev_depth := depth, ev_value := v\<rparr>"

definition leaf :: "EventKind \<Rightarrow> nat \<Rightarrow> event_value \<Rightarrow> navigation \<Rightarrow> (VisitEvent list \<times> navigation) option" where
  "leaf kind n v nv =
     Some ([located kind (nv_pending nv) (nv_depth nv) n v], nv\<lparr>nv_pending := []\<rparr>)"

fun step_event :: "json_callback \<Rightarrow> navigation \<Rightarrow> (VisitEvent list \<times> navigation) option" where
  "step_event on_document_begin nv = Some ([], nv)"
| "step_event on_document_end nv = Some ([], nv)"
| "step_event on_array_begin nv =
     Some ([located ArrayBegin (nv_pending nv) (nv_depth nv) 0 VNone],
           \<lparr>nv_depth = nv_depth nv + 1, nv_keys = nv_pending nv # nv_keys nv, nv_pending = []\<rparr>)"
| "step_event on_object_begin nv =
     Some ([located ObjectBegin (nv_pending nv) (nv_depth nv) 0 VNone],
           \<lparr>nv_depth = nv_depth nv + 1, nv_keys = nv_pending nv # nv_keys nv, nv_pending = []\<rparr>)"
| "step_event (on_array_end n) nv =
     (case nv_keys nv of
        [] \<Rightarrow> None
      | k # ks \<Rightarrow> Some ([located ArrayEnd k (nv_depth nv - 1) n VNone],
                        nv\<lparr>nv_depth := nv_depth nv - 1, nv_keys := ks\<rparr>))"
| "step_event (on_object_end n) nv =
     (case nv_keys nv of
        [] \<Rightarrow> None
      | k # ks \<Rightarrow> Some ([located ObjectEnd k (nv_depth nv - 1) n VNone],
                        nv\<lparr>nv_depth := nv_depth nv - 1, nv_keys := ks\<rparr>))"
| "step_event (on_string_part s n) nv =
     Some ([located StringPart (nv_pending nv) (nv_depth nv) n (VText s)], nv)"
| "step_event (on_string s n) nv = leaf String n (VText s) nv"
| "step_event (on_key_part s n) nv =
     Some ([located KeyPart [] (nv_depth nv) n (VText s)], nv\<lparr>nv_pending := nv_pending nv @ s\<rparr>)"
| "step_event (on_key s n) nv =
     Some ([located Key [] (nv_depth nv) n (VText s)], nv\<lparr>nv_pending := nv_pending nv @ s\<rparr>)"
| "step_event (on_number_part s) nv =
     Some ([located NumberPart (nv_pending nv) (nv_depth nv) 0 (VText s)], nv)"
| "step_event (on_int64 i) nv = leaf Int64 0 (VInt64 i) nv"
| "step_event (on_uint64 u) nv = leaf Uint64 0 (VUint64 u) nv"
| "step_event (on_double d) nv = leaf Double 0 (VDouble d) nv"
| "step_event (on_bool b) nv = leaf Bool 0 (VBool b) nv"
| "step_event on_null nv = leaf Null 0 VNone nv"
| "step_event (on_comment_part s) nv =
     Some ([located CommentPart [] (nv_depth nv) 0 (VText s)], nv)"
| "step_event (on_comment s) nv = Some ([located Comment [] (nv_depth nv) 0 (VText s)], nv)"

text \<open>The events of the callbacks, and whether all of them are defined.\<close>

fun trace :: "json_callback list \<Rightarrow> navigation \<Rightarrow> VisitEvent list \<times> bool" where
  "trace [] nv = ([], True)"
| "trace (c # cs) nv =
     (case step_event c nv of
        None \<Rightarrow> ([], False)
      | Some (evs, nv') \<Rightarrow> (case trace cs nv' of (evs', ok) \<Rightarrow> (evs @ evs', ok)))"

text \<open>A check fed with a list of events, up to its first drop or exception.\<close>

fun feed ::
    "'s throwing_checker \<Rightarrow> VisitEvent list \<Rightarrow> 's \<Rightarrow> AdmissionDecision \<Rightarrow>
     's \<times> AdmissionDecision \<times> handler_result" where
  "feed check [] s d = (s, d, Returns True)"
| "feed check (ev # evs) s d =
     (case check s ev of
        (s', Inl e) \<Rightarrow> (s', d, Raises e)
      | (s', Inr d') \<Rightarrow> if admitted d' then feed check evs s' d' else (s', d', Returns False))"

definition observed :: "'s JsonVisitor \<times> handler_result \<Rightarrow> 's \<times> AdmissionDecision \<times> handler_result" where
  "observed p = (jv_check (fst p), jv_decision (fst p), snd p)"

lemma navigation_simps [simp]:
  "nv_depth (navigation_of jv) = jv_depth jv" "nv_keys (navigation_of jv) = jv_containerKeys jv"
  "nv_pending (navigation_of jv) = jv_pendingKey jv"
  "navigation_of (jv\<lparr>jv_check := s\<rparr>) = navigation_of jv"
  "navigation_of (jv\<lparr>jv_decision := d\<rparr>) = navigation_of jv"
  "navigation_of (jv\<lparr>jv_depth := n\<rparr>) = (navigation_of jv)\<lparr>nv_depth := n\<rparr>"
  "navigation_of (jv\<lparr>jv_containerKeys := ks\<rparr>) = (navigation_of jv)\<lparr>nv_keys := ks\<rparr>"
  "navigation_of (jv\<lparr>jv_pendingKey := k\<rparr>) = (navigation_of jv)\<lparr>nv_pending := k\<rparr>"
  by (simp_all add: navigation_of_def)

text \<open>One callback: the event goes to the check, and an admitted one leaves the navigation of \<open>step_event\<close>.\<close>

lemma handle_step_event:
  "case step_event call (navigation_of jv) of
     None \<Rightarrow> handle check call jv = (jv, Undefined EmptyBack)
   | Some (evs, nv) \<Rightarrow>
       observed (handle check call jv) = feed check evs (jv_check jv) (jv_decision jv) \<and>
       (snd (handle check call jv) = Returns True \<longrightarrow> navigation_of (fst (handle check call jv)) = nv)"
  by (cases call)
    (simp_all add: observed_def emit_def emitLeaf_def beginContainer_def endContainer_def leaf_def
      located_def event_default_def Let_def navigation_of_def split: prod.split sum.split list.split)

lemma feed_append:
  "feed check (xs @ ys) s d =
     (case feed check xs s d of (s', d', Returns True) \<Rightarrow> feed check ys s' d' | r \<Rightarrow> r)"
  by (induction xs arbitrary: s d) (auto split: prod.split sum.split)

lemma run_handler_trace:
  "observed (run_handler check calls jv) =
     (case trace calls (navigation_of jv) of (evs, ok) \<Rightarrow>
        (case feed check evs (jv_check jv) (jv_decision jv) of
           (s, d, Returns True) \<Rightarrow> (s, d, if ok then Returns True else Undefined EmptyBack)
         | r \<Rightarrow> r))"
proof (induction calls arbitrary: jv)
  case Nil
  then show ?case by (simp add: observed_def)
next
  case (Cons call calls)
  note step = handle_step_event [where call = call and jv = jv and check = check]
  show ?case
  proof (cases "step_event call (navigation_of jv)")
    case None
    with step show ?thesis by (simp add: observed_def)
  next
    case (Some p)
    then obtain evs nv where p: "step_event call (navigation_of jv) = Some (evs, nv)" by (cases p) auto
    obtain jv' r where h: "handle check call jv = (jv', r)" by fastforce
    from step p h have f: "feed check evs (jv_check jv) (jv_decision jv) = (jv_check jv', jv_decision jv', r)"
      and n: "r = Returns True \<Longrightarrow> navigation_of jv' = nv"
      by (simp_all add: observed_def)
    show ?thesis
    proof (cases "r = Returns True")
      case True
      with Cons.IH [of jv'] p h f n show ?thesis by (simp add: feed_append split: prod.split)
    next
      case False
      with p h f show ?thesis
        by (auto simp: feed_append observed_def split: prod.split handler_result.split bool.split)
    qed
  qed
qed

section \<open>Documents\<close>

text \<open>
  A JSON value as it stands in the payload: numbers and strings with the pieces in which the
  parser delivers their text, the last one apart.
\<close>

type_synonym pieces = "string list \<times> string"

datatype json_document =
    DNull
  | DBool bool
  | DInt64 "string list" int64
  | DUint64 "string list" uint64
  | DDouble "string list" real
  | DString pieces
  | DArray "json_document list"
  | DObject "(pieces \<times> json_document) list"

definition text_of :: "pieces \<Rightarrow> string" where
  "text_of t = concat (fst t) @ snd t"

text \<open>Pieces with the length of the text up to their end.\<close>

fun totals :: "nat \<Rightarrow> string list \<Rightarrow> (string \<times> nat) list" where
  "totals n [] = []"
| "totals n (p # ps) = (p, n + length p) # totals (n + length p) ps"

text \<open>What the parser calls for a value.\<close>

definition key_calls :: "pieces \<Rightarrow> json_callback list" where
  "key_calls t = map (\<lambda>(p, n). on_key_part p n) (totals 0 (fst t)) @ [on_key (snd t) (length (text_of t))]"

fun value_calls :: "json_document \<Rightarrow> json_callback list" where
  "value_calls DNull = [on_null]"
| "value_calls (DBool b) = [on_bool b]"
| "value_calls (DInt64 ps i) = map on_number_part ps @ [on_int64 i]"
| "value_calls (DUint64 ps u) = map on_number_part ps @ [on_uint64 u]"
| "value_calls (DDouble ps r) = map on_number_part ps @ [on_double r]"
| "value_calls (DString t) =
     map (\<lambda>(p, n). on_string_part p n) (totals 0 (fst t)) @ [on_string (snd t) (length (text_of t))]"
| "value_calls (DArray ds) =
     on_array_begin # concat (map value_calls ds) @ [on_array_end (length ds)]"
| "value_calls (DObject ms) =
     on_object_begin # concat (map (\<lambda>(k, d). key_calls k @ value_calls d) ms) @ [on_object_end (length ms)]"

definition document_calls :: "json_document \<Rightarrow> json_callback list" where
  "document_calls d = on_document_begin # value_calls d @ [on_document_end]"

text \<open>
  What a check is to see of a value named \<open>key\<close> at a depth: every event of a value, its container
  events and its pieces of text carries the value's key, the members of an array have none, and
  keys are reported before the values they name.
\<close>

definition number_events :: "string \<Rightarrow> uint32 \<Rightarrow> string list \<Rightarrow> VisitEvent list" where
  "number_events key depth ps = map (\<lambda>p. located NumberPart key depth 0 (VText p)) ps"

definition key_events :: "uint32 \<Rightarrow> pieces \<Rightarrow> VisitEvent list" where
  "key_events depth t =
     map (\<lambda>(p, n). located KeyPart [] depth n (VText p)) (totals 0 (fst t)) @
     [located Key [] depth (length (text_of t)) (VText (snd t))]"

fun value_events :: "string \<Rightarrow> uint32 \<Rightarrow> json_document \<Rightarrow> VisitEvent list" where
  "value_events key depth DNull = [located Null key depth 0 VNone]"
| "value_events key depth (DBool b) = [located Bool key depth 0 (VBool b)]"
| "value_events key depth (DInt64 ps i) =
     number_events key depth ps @ [located Int64 key depth 0 (VInt64 i)]"
| "value_events key depth (DUint64 ps u) =
     number_events key depth ps @ [located Uint64 key depth 0 (VUint64 u)]"
| "value_events key depth (DDouble ps r) =
     number_events key depth ps @ [located Double key depth 0 (VDouble r)]"
| "value_events key depth (DString t) =
     map (\<lambda>(p, n). located StringPart key depth n (VText p)) (totals 0 (fst t)) @
     [located String key depth (length (text_of t)) (VText (snd t))]"
| "value_events key depth (DArray ds) =
     located ArrayBegin key depth 0 VNone # concat (map (value_events [] (depth + 1)) ds) @
     [located ArrayEnd key depth (length ds) VNone]"
| "value_events key depth (DObject ms) =
     located ObjectBegin key depth 0 VNone #
     concat (map (\<lambda>(k, d). key_events (depth + 1) k @ value_events (text_of k) (depth + 1) d) ms) @
     [located ObjectEnd key depth (length ms) VNone]"

text \<open>
  The calls of a value leave the navigation where it was, with the pending key consumed, and emit
  the events of the value. \<open>then_trace\<close> puts events before those of the calls that follow.
\<close>

definition then_trace :: "VisitEvent list \<Rightarrow> VisitEvent list \<times> bool \<Rightarrow> VisitEvent list \<times> bool" where
  "then_trace evs t = (evs @ fst t, snd t)"

lemma then_trace_simps [simp]:
  "then_trace [] t = t" "then_trace xs (then_trace ys t) = then_trace (xs @ ys) t"
  by (simp_all add: then_trace_def)

lemma trace_Cons [simp]:
  "step_event c nv = Some (evs, nv') \<Longrightarrow> trace (c # cs) nv = then_trace evs (trace cs nv')"
  by (simp add: then_trace_def split: prod.split)

declare trace.simps(2) [simp del]

lemma trace_number_parts:
  "trace (map on_number_part ps @ cs) nv =
     then_trace (number_events (nv_pending nv) (nv_depth nv) ps) (trace cs nv)"
  by (induction ps) (simp_all add: number_events_def)

lemma trace_string_parts:
  "trace (map (\<lambda>(p, n). on_string_part p n) (totals k ps) @ cs) nv =
     then_trace (map (\<lambda>(p, n). located StringPart (nv_pending nv) (nv_depth nv) n (VText p)) (totals k ps))
       (trace cs nv)"
  by (induction ps arbitrary: k) simp_all

lemma trace_key_parts:
  "trace (map (\<lambda>(p, n). on_key_part p n) (totals k ps) @ cs) nv =
     then_trace (map (\<lambda>(p, n). located KeyPart [] (nv_depth nv) n (VText p)) (totals k ps))
       (trace cs (nv\<lparr>nv_pending := nv_pending nv @ concat ps\<rparr>))"
  by (induction ps arbitrary: k nv) simp_all

lemma trace_key:
  "nv_pending nv = [] \<Longrightarrow>
   trace (key_calls t @ cs) nv =
     then_trace (key_events (nv_depth nv) t) (trace cs (nv\<lparr>nv_pending := text_of t\<rparr>))"
  by (simp add: key_calls_def key_events_def trace_key_parts text_of_def)

lemma trace_value:
  "trace (value_calls d @ cs) nv =
     then_trace (value_events (nv_pending nv) (nv_depth nv) d) (trace cs (nv\<lparr>nv_pending := []\<rparr>))"
proof (induction d arbitrary: cs nv)
  case (DArray ds)
  have elements: "trace (concat (map value_calls es) @ cs') nv' =
      then_trace (concat (map (value_events [] (nv_depth nv')) es)) (trace cs' nv')"
    if "set es \<subseteq> set ds" and "nv_pending nv' = []" for es cs' and nv' :: navigation
    using that
  proof (induction es)
    case (Cons e es)
    then have n: "nv'\<lparr>nv_pending := []\<rparr> = nv'" by simp
    from Cons DArray show ?case by (simp add: n)
  qed simp
  show ?case by (cases nv) (simp add: elements)
next
  case (DObject ms)
  have members: "trace (concat (map (\<lambda>(k, d). key_calls k @ value_calls d) es) @ cs') nv' =
      then_trace (concat (map (\<lambda>(k, d). key_events (nv_depth nv') k @ value_events (text_of k) (nv_depth nv') d) es))
        (trace cs' nv')"
    if "set es \<subseteq> set ms" and "nv_pending nv' = []" for es cs' and nv' :: navigation
    using that
  proof (induction es)
    case (Cons e es)
    obtain k d where e: "e = (k, d)" by fastforce
    from Cons have n: "nv'\<lparr>nv_pending := []\<rparr> = nv'" by simp
    from Cons.prems e have "trace (value_calls d @ cs'') nv'' =
        then_trace (value_events (nv_pending nv'') (nv_depth nv'') d) (trace cs'' (nv''\<lparr>nv_pending := []\<rparr>))"
      for cs'' nv'' by (intro DObject) auto
    with Cons e show ?case by (simp add: trace_key n)
  qed simp
  show ?case by (cases nv) (simp add: members)
qed (simp_all add: leaf_def trace_number_parts trace_string_parts)

text \<open>Every callback but the two of the document emits one event.\<close>

lemma step_event_one:
  "step_event c nv = Some (evs, nv') \<Longrightarrow> c \<notin> {on_document_begin, on_document_end} \<Longrightarrow> length evs = 1"
  by (cases c) (auto simp: leaf_def split: list.splits)

lemma trace_take:
  "set cs \<inter> {on_document_begin, on_document_end} = {} \<Longrightarrow> snd (trace cs nv) \<Longrightarrow>
     trace (take k cs) nv = (take k (fst (trace cs nv)), True)"
proof (induction cs arbitrary: k nv)
  case (Cons c cs)
  then obtain evs nv' where step: "step_event c nv = Some (evs, nv')"
    by (auto simp: trace.simps(2) split: option.splits)
  with Cons.prems have "length evs = 1" by (intro step_event_one) auto
  then obtain ev where ev: "evs = [ev]" by (cases evs) auto
  with Cons step have "trace (take j cs) nv' = (take j (fst (trace cs nv')), True)" for j
    by (simp add: then_trace_def)
  with step ev show ?case by (cases k) (simp_all add: then_trace_def)
qed simp

lemma trace_length: "length (fst (trace cs nv)) \<le> length cs"
proof (induction cs arbitrary: nv)
  case (Cons c cs)
  show ?case
  proof (cases "step_event c nv")
    case (Some p)
    then obtain evs nv' where p: "step_event c nv = Some (evs, nv')" by (cases p) auto
    then have "length evs \<le> 1" by (cases c) (auto simp: leaf_def split: list.splits)
    with Cons [of nv'] p show ?thesis by (simp add: then_trace_def)
  qed (simp add: trace.simps(2))
qed simp

lemma value_calls_no_document: "set (value_calls d) \<inter> {on_document_begin, on_document_end} = {}"
  by (induction d) (auto simp: key_calls_def)

definition start :: navigation where
  "start = \<lparr>nv_depth = 0, nv_keys = [], nv_pending = []\<rparr>"

lemma trace_document:
  "trace (take k (document_calls d)) start = (take (k - 1) (value_events [] 0 d), True)"
proof (cases k)
  case (Suc j)
  have t: "trace (value_calls d) start = (value_events [] 0 d, True)"
    using trace_value [of d "[]" start] by (simp add: start_def then_trace_def)
  then have p: "trace (take i (value_calls d)) start = (take i (value_events [] 0 d), True)" for i
    using trace_take [OF value_calls_no_document, of d start i] by simp
  have e: "trace (value_calls d @ [on_document_end]) start = (value_events [] 0 d, True)"
    using trace_value [of d "[on_document_end]" start] by (simp add: start_def then_trace_def)
  have l: "length (value_events [] 0 d) \<le> length (value_calls d)"
    using trace_length [of "value_calls d" start] t by simp
  show ?thesis
  proof (cases "j \<le> length (value_calls d)")
    case True
    with p Suc show ?thesis by (simp add: document_calls_def)
  next
    case False
    with e l Suc show ?thesis by (simp add: document_calls_def)
  qed
qed (simp add: document_calls_def)

section \<open>Nesting\<close>

text \<open>The callbacks close no container they have not opened, \<open>n\<close> being open before.\<close>

fun nested :: "nat \<Rightarrow> json_callback list \<Rightarrow> bool" where
  "nested n [] = True"
| "nested n (on_array_begin # cs) = nested (n + 1) cs"
| "nested n (on_object_begin # cs) = nested (n + 1) cs"
| "nested n (on_array_end m # cs) = (0 < n \<and> nested (n - 1) cs)"
| "nested n (on_object_end m # cs) = (0 < n \<and> nested (n - 1) cs)"
| "nested n (c # cs) = nested n cs"

lemma nested_step:
  "nested (length (nv_keys nv)) (c # cs) \<longleftrightarrow>
     (case step_event c nv of None \<Rightarrow> False | Some (evs, nv') \<Rightarrow> nested (length (nv_keys nv')) cs)"
  by (cases c) (auto simp: leaf_def split: list.split)

lemma trace_defined: "snd (trace cs nv) \<longleftrightarrow> nested (length (nv_keys nv)) cs"
proof (induction cs arbitrary: nv)
  case (Cons c cs)
  show ?case
    unfolding nested_step by (simp add: trace.simps(2) case_prod_beta Cons split: option.split)
qed simp

text \<open>The most containers open at a time.\<close>

fun deepest :: "nat \<Rightarrow> json_callback list \<Rightarrow> nat" where
  "deepest n [] = n"
| "deepest n (on_array_begin # cs) = deepest (n + 1) cs"
| "deepest n (on_object_begin # cs) = deepest (n + 1) cs"
| "deepest n (on_array_end m # cs) = max n (deepest (n - 1) cs)"
| "deepest n (on_object_end m # cs) = max n (deepest (n - 1) cs)"
| "deepest n (c # cs) = deepest n cs"

lemma deepest_ge: "n \<le> deepest n cs"
  by (induction n cs rule: deepest.induct) auto

lemma handle_balanced:
  assumes "handle check c jv = (jv', r)" and "jv_depth jv = word_of_nat (length (jv_containerKeys jv))"
  shows "(\<forall>e. r \<noteq> Raises e) \<longrightarrow> jv_depth jv' = word_of_nat (length (jv_containerKeys jv'))"
  using assms
  by (cases c) (auto simp: emit_def emitLeaf_def beginContainer_def endContainer_def Let_def
      split: prod.splits sum.splits list.splits)

lemma handle_deepest:
  assumes "handle check c jv = (jv', r)"
  shows "r = Returns True \<longrightarrow>
           deepest (length (jv_containerKeys jv')) cs \<le> deepest (length (jv_containerKeys jv)) (c # cs)"
    and "length (jv_containerKeys jv') \<le> deepest (length (jv_containerKeys jv)) (c # cs)"
  using assms deepest_ge [of "length (jv_containerKeys jv)" cs]
    deepest_ge [of "length (jv_containerKeys jv) + 1" cs]
  by (cases c; force simp: emit_def emitLeaf_def beginContainer_def endContainer_def Let_def
      split: prod.splits sum.splits list.splits)+

lemma run_handler_balanced:
  assumes "run_handler check calls jv = (jv', r)"
    and "jv_depth jv = word_of_nat (length (jv_containerKeys jv))"
  shows "((\<forall>e. r \<noteq> Raises e) \<longrightarrow> jv_depth jv' = word_of_nat (length (jv_containerKeys jv'))) \<and>
         length (jv_containerKeys jv') \<le> deepest (length (jv_containerKeys jv)) calls"
  using assms
proof (induction calls arbitrary: jv)
  case (Cons c cs)
  obtain jv1 r1 where h: "handle check c jv = (jv1, r1)" by fastforce
  note one = handle_balanced [OF h Cons.prems(2)] handle_deepest [OF h, of cs]
  show ?case
  proof (cases "r1 = Returns True")
    case True
    with Cons h one show ?thesis by fastforce
  next
    case False
    with Cons.prems h have "jv' = jv1" "r = r1"
      by (auto split: handler_result.splits bool.splits)
    with one show ?thesis by simp
  qed
qed simp

lemma feed_result:
  assumes "feed check evs s d = (s', d', r)"
  shows "(r = Returns False \<longrightarrow> dropped d') \<and> (r \<noteq> Returns False \<longrightarrow> admitted d \<longrightarrow> admitted d') \<and>
         (\<forall>e. r \<noteq> Undefined e)"
  using assms
  by (induction evs arbitrary: s d) (auto simp: dropped_iff split: prod.splits sum.splits if_splits)

lemma run_new:
  "observed (run_handler check calls (JsonVisitor_new s d)) =
     (case trace calls start of (evs, ok) \<Rightarrow>
        (case feed check evs s d of
           (s', d', Returns True) \<Rightarrow> (s', d', if ok then Returns True else Undefined EmptyBack)
         | r \<Rightarrow> r))"
proof -
  have "navigation_of (JsonVisitor_new s d) = start"
    by (simp add: navigation_of_def JsonVisitor_new_def start_def)
  then show ?thesis
    using run_handler_trace [of check calls "JsonVisitor_new s d"] by (simp add: JsonVisitor_new_def)
qed

lemma visitJson_observed:
  "visitJson parser limits check options bytes s =
     (let p = parser limits (maxDepth options) bytes in
      case observed (run_handler check (ps_calls p) (JsonVisitor_new s (decision_admit 0))) of
        (s', d, r) \<Rightarrow>
          (s', case r of
                 Undefined e \<Rightarrow> Inl e
               | _ \<Rightarrow> Inr (if dropped d then d
                          else if (case r of Raises e \<Rightarrow> caught e
                                   | Returns True \<Rightarrow> error_of (length bytes) (ps_ending p)
                                   | Returns False \<Rightarrow> error_of (length bytes) (ps_stopped p)) \<noteq> None
                          then decision_drop ''Invalid JSON payload'' (costForInvalidPayload options)
                          else d)))"
  by (simp add: visitJson_def observed_def Let_def split: prod.split handler_result.split)

section \<open>Properties\<close>

text \<open>
  C35: for a payload whose callbacks are those of a JSON document, or the first \<open>k\<close> of them when the
  payload breaks off there, the check is fed with the events of the declarative traversal of the
  document, in order and up to its first drop; a drop of the check is the result, whatever the
  parser reports, and otherwise the parser's error or an exception is an invalid payload.
\<close>

theorem visitJson_traversal:
  assumes "ps_calls (parser limits (maxDepth options) bytes) = take k (document_calls d)"
  shows "visitJson parser limits check options bytes s =
    (case feed check (take (k - 1) (value_events [] 0 d)) s (decision_admit 0) of
       (s', decision, r) \<Rightarrow>
         (s', Inr (if r = Returns False then decision
                   else if (case r of Raises e \<Rightarrow> caught e
                            | _ \<Rightarrow> error_of (length bytes) (ps_ending (parser limits (maxDepth options) bytes))) \<noteq> None
                   then decision_drop ''Invalid JSON payload'' (costForInvalidPayload options)
                   else decision)))"
proof -
  obtain s' decision r where
    f: "feed check (take (k - 1) (value_events [] 0 d)) s (decision_admit 0) = (s', decision, r)"
    by (cases "feed check (take (k - 1) (value_events [] 0 d)) s (decision_admit 0)") auto
  have "observed (run_handler check (take k (document_calls d)) (JsonVisitor_new s (decision_admit 0))) =
      (s', decision, r)"
    using f by (simp add: run_new trace_document split: handler_result.split bool.split)
  with feed_result [OF f] f assms show ?thesis
    by (cases r) (auto simp: visitJson_observed Let_def dropped_iff split: bool.split)
qed

text \<open>The payload \<^verbatim>\<open>{"a":[1,true]}\<close>, a parser that knows it, and a check that drops at depth two.\<close>

definition sample_document :: json_document where
  "sample_document = DObject [(([], ''a''), DArray [DInt64 [] 1, DBool True])]"

definition sample_payload :: "8 word list" where
  "sample_payload = [0x7B, 0x22, 0x61, 0x22, 0x3A, 0x5B, 0x31, 0x2C, 0x74, 0x72, 0x75, 0x65, 0x5D, 0x7D]"

definition sample_parser :: basic_parser where
  "sample_parser limits depth bytes =
     (if bytes = sample_payload
      then \<lparr>ps_calls = document_calls sample_document, ps_ending = Finished (length bytes) None,
            ps_stopped = Finished 0 None\<rparr>
      else \<lparr>ps_calls = [on_document_begin], ps_ending = Finished 0 (Some ''syntax''),
            ps_stopped = Finished 0 None\<rparr>)"

definition shallow_check :: "nat throwing_checker" where
  "shallow_check n ev =
     (n + 1, Inr (if ev_depth ev < 2 then decision_admit 1 else decision_drop ''too deep'' 5))"

theorem visitJson_traversal_witness:
  "visitJson sample_parser DefaultJsonVisitorOptions shallow_check visitJson_options sample_payload 0 =
     (4, Inr (decision_drop ''too deep'' 5)) \<and>
   visitJson sample_parser DefaultJsonVisitorOptions shallow_check visitJson_options [] 0 =
     (0, Inr (decision_drop ''Invalid JSON payload'' 10))"
proof -
  have a: "visitJson sample_parser DefaultJsonVisitorOptions shallow_check visitJson_options sample_payload 0 =
      (4, Inr (decision_drop ''too deep'' 5))"
    by (subst visitJson_traversal [where k = 100 and d = sample_document])
      (simp_all add: sample_parser_def sample_document_def document_calls_def key_calls_def key_events_def
        text_of_def number_events_def shallow_check_def located_def event_default_def word_less_nat_alt)
  have b: "visitJson sample_parser DefaultJsonVisitorOptions shallow_check visitJson_options [] 0 =
      (0, Inr (decision_drop ''Invalid JSON payload'' 10))"
    by (subst visitJson_traversal [where k = 1 and d = sample_document])
      (simp_all add: sample_parser_def sample_payload_def document_calls_def visitJson_options_def)
  from a b show ?thesis by simp
qed

text \<open>
  C36: the visit is defined for every check exactly when the parser closes no container it has not
  opened: only then is the stack of keys read while it is empty.
\<close>

theorem visitJson_defined_iff:
  "nested 0 (ps_calls (parser limits (maxDepth options) bytes)) \<longleftrightarrow>
   (\<forall>(check :: 's throwing_checker) s e. snd (visitJson parser limits check options bytes s) \<noteq> Inl e)"
proof -
  define calls where "calls = ps_calls (parser limits (maxDepth options) bytes)"
  obtain evs ok where t: "trace calls start = (evs, ok)" by fastforce
  then have ok: "ok \<longleftrightarrow> nested 0 calls" using trace_defined [of calls start] by (simp add: start_def)
  have one: "snd (visitJson parser limits check options bytes s) = Inl e \<longleftrightarrow>
      (case feed check evs s (decision_admit 0) of (s', d, r) \<Rightarrow> r = Returns True \<and> \<not> ok \<and> e = EmptyBack)"
    for check :: "'s throwing_checker" and s e
  proof -
    obtain s' d r where f: "feed check evs s (decision_admit 0) = (s', d, r)"
      by (cases "feed check evs s (decision_admit 0)") auto
    with t feed_result [OF f] show ?thesis
      by (cases r) (auto simp: visitJson_observed run_new Let_def simp flip: calls_def split: bool.split)
  qed
  have all: "feed (\<lambda>s ev. (s, Inr (decision_admit 0))) evs s (decision_admit 0) =
      (s, decision_admit 0, Returns True)" for s :: 's
    by (induction evs) simp_all
  show ?thesis
  proof
    assume "nested 0 (ps_calls (parser limits (maxDepth options) bytes))"
    then show "\<forall>(check :: 's throwing_checker) s e. snd (visitJson parser limits check options bytes s) \<noteq> Inl e"
      using ok by (auto simp: one calls_def split: prod.splits)
  next
    assume "\<forall>(check :: 's throwing_checker) s e. snd (visitJson parser limits check options bytes s) \<noteq> Inl e"
    then have "snd (visitJson parser limits (\<lambda>(s :: 's) ev. (s, Inr (decision_admit 0))) options bytes undefined)
        \<noteq> Inl EmptyBack" by blast
    then show "nested 0 (ps_calls (parser limits (maxDepth options) bytes))"
      using ok by (simp add: one all calls_def)
  qed
qed

text \<open>
  C37: while the parser keeps within its nesting limit, the depth counter of the visitor never wraps:
  after any callbacks that raised no exception it is the number of open containers.
\<close>

theorem visitor_depth:
  assumes "deepest 0 calls \<le> unat (limit :: uint32)"
    and "run_handler check calls (JsonVisitor_new s d) = (jv, r)" and "\<forall>e. r \<noteq> Raises e"
  shows "unat (jv_depth jv) = length (jv_containerKeys jv) \<and> jv_depth jv \<le> limit"
proof -
  have "jv_depth jv = word_of_nat (length (jv_containerKeys jv))"
    and l: "length (jv_containerKeys jv) \<le> unat limit"
    using run_handler_balanced [OF assms(2)] assms(1,3) by (simp_all add: JsonVisitor_new_def)
  moreover have "length (jv_containerKeys jv) < 2 ^ 32"
    using l unsigned_less [where 'a = nat and w = limit] by simp
  ultimately show ?thesis by (simp add: unat_of_nat word_le_nat_alt)
qed

theorem visitor_depth_witness:
  "unat (jv_depth (fst (run_handler shallow_check [on_array_begin] (JsonVisitor_new 0 (decision_admit 0))))) = 1"
  using visitor_depth [where calls = "[on_array_begin]" and limit = 5 and check = shallow_check and s = 0
      and d = "decision_admit 0"]
  by (simp add: JsonVisitor_new_def beginContainer_def emit_def shallow_check_def Let_def event_default_def
      split: prod.splits)

end
