(* ===== verification/Spec2Isabelle.thy ===== *)
theory Spec2Isabelle
  imports RpcWrappers HandlersRequests HandlersDump AdmConcurrent AdmPipeline AdmTunables AdmOverrun AdmJson
begin

text \<open>
  A model of rpc-spec, the header-only language in which XRPL servers declare how RPC requests are
  validated and parsed (\<^verbatim>\<open>src/include/rpcspec\<close>) and how expensive peer messages are turned away
  (\<^verbatim>\<open>src/include/admissionspec\<close>). The two halves share only the prelude.

  \<^bold>\<open>Parts and theories.\<close> Paths are under \<^verbatim>\<open>src/include\<close>.

  \<^item> \<open>RpcPrelude\<close>: the outcome type, the server a spec is built for, collections of rules and lemmas on
    lists, words and digits. An outcome is \<open>Ret\<close> or \<open>Fail\<close>, the two sides of \<^verbatim>\<open>std::expected\<close>, or
    \<open>Throw\<close>: an exception, or an access the language does not define. A build macro is an argument
    \<open>srv\<close>, so that every theorem speaks of both servers.
  \<^item> \<open>RpcErrors\<close>: \<^verbatim>\<open>rpcspec/Errors.hpp\<close>, \<^verbatim>\<open>Types.hpp\<close> (error catalogues, \<^verbatim>\<open>Status\<close>, warnings).
  \<^item> \<open>RpcJson\<close>: \<^verbatim>\<open>rpcspec/backends/BoostJson.hpp\<close>. A field view holds the value it points to; writing
    through it is writing back (\<open>root_put\<close>, \<open>child_put\<close>).
  \<^item> \<open>RpcXrpl\<close>: \<^verbatim>\<open>rpcspec/detail/XrplParse.hpp\<close> over the record \<open>xrpl_lib\<close> of the libxrpl functions the
    sources call. libxrpl is not part of the repository: the record is a parameter everywhere, and
    \<open>sample_lib\<close> an instance for the examples.
  \<^item> \<open>RpcField\<close>: \<^verbatim>\<open>rpcspec/FieldSpec.hpp\<close>, \<^verbatim>\<open>Concepts.hpp\<close>, \<^verbatim>\<open>Section.hpp\<close>, \<^verbatim>\<open>IfType.hpp\<close>. An item is a
    record of optional operations (requirement, modifier, check, guard, default), which is what the
    concepts ask of a type; fields run their items in order and sections recurse. The locale
    \<open>processor\<close> is the contract of an item: it keeps key, presence and writability and does not throw.
  \<^item> \<open>RpcValidators\<close>, \<open>RpcScalars\<close>, \<open>RpcLedgerTypes\<close>, \<open>RpcValidatorsXrpl\<close>: \<^verbatim>\<open>rpcspec/Validators.hpp\<close>
    and \<^verbatim>\<open>LedgerTypes.hpp\<close>, each validator with the predicate it decides (locale
    \<open>optional_validator\<close>) and each modifier with its frame (locale \<open>optional_modifier\<close>).
  \<^item> \<open>RpcWrappers\<close>: \<^verbatim>\<open>ServerConditional.hpp\<close>, \<^verbatim>\<open>WithCustomError.hpp\<close>.
  \<^item> \<open>RpcWalk\<close>, \<open>RpcTyped\<close>, \<open>RpcVersioned\<close>: \<^verbatim>\<open>RpcSpec.hpp\<close>, \<^verbatim>\<open>RpcSpecView.hpp\<close>, \<^verbatim>\<open>Typed.hpp\<close>,
    \<^verbatim>\<open>VersionedSpec.hpp\<close>, \<^verbatim>\<open>HandlerForDefs.hpp\<close>. The override plan and the walk over it refine a plain
    list of effective fields (\<open>effective\<close>), one per key, the last declared; the locale \<open>visitor\<close> carries
    an invariant through the walk.
  \<^item> \<open>RpcConverters\<close>, \<open>RpcLedger\<close>: \<^verbatim>\<open>Converters.hpp\<close>, \<^verbatim>\<open>Account.hpp\<close>, \<^verbatim>\<open>Asset.hpp\<close>, \<^verbatim>\<open>Ledger.hpp\<close>; the locale
    \<open>converter\<close> says on which values a converter does not throw.
  \<^item> \<open>RpcItems\<close>, \<open>RpcFields\<close>: \<^verbatim>\<open>Aliases.hpp\<close>, \<^verbatim>\<open>TxTypes.hpp\<close> and the field factory, and the calculus the
    handlers are proved with: what the items of a field establish for its converter, and which
    invariants of the Input a field keeps or sets.
  \<^item> \<open>HandlersAccount\<close>, \<open>HandlersNft\<close>, \<open>HandlersLedger\<close>, \<open>HandlersMarket\<close>, \<open>HandlersSubscribe\<close>,
    \<open>HandlersEntry\<close>, \<open>HandlersEntrySafe\<close>: the 34 handlers under \<^verbatim>\<open>rpcspec/handlers\<close>, each with its Input,
    its initial value, its own validators and converters and its specs, named after the handler
    (\<open>tx_Input\<close>, \<open>tx_init\<close>, \<open>tx_kInputSpecV1\<close>, \<open>tx_kSpec\<close>). Where two handlers declare the same code
    again, the second has aliases of the first one's model.
  \<^item> \<open>HandlersAll\<close>: what holds of all 34. \<open>HandlersRequests\<close>: whole requests, by relations between the
    value at a key and the Input before and after (\<open>acts_as\<close>).
  \<^item> \<open>RpcDump\<close>: \<^verbatim>\<open>SpecDump.hpp\<close>, \<^verbatim>\<open>SpecDumpWriter.hpp\<close>, the \<^verbatim>\<open>dump\<close> and \<^verbatim>\<open>describeParams\<close> members: the
    writer as state, and a reader that rebuilds the blocks of the text (locale \<open>dump_body\<close>).
    \<open>HandlersDump\<close>: schemas of handlers.
  \<^item> \<open>AdmTypes\<close>: \<^verbatim>\<open>admissionspec/Types.hpp\<close>, \<^verbatim>\<open>AdmissionSpec.hpp\<close>, \<^verbatim>\<open>Resolver.hpp\<close>,
    \<^verbatim>\<open>PassthroughVisitor.hpp\<close>. \<open>AdmTunables\<close>: the tuple of tunables of a spec, looked up
    by name. \<open>AdmBucket\<close>: \<^verbatim>\<open>TokenBucket.hpp\<close> and what it uses of \<^verbatim>\<open>folly/TokenBucket.hpp\<close> (locale
    \<open>token_source\<close>); \<open>AdmBorrow\<close>: the rest of the latter; \<open>AdmConcurrent\<close>: its storage shared by
    threads, one step per atomic access (locale \<open>committing\<close>). \<open>AdmLimiter\<close>: \<^verbatim>\<open>ConnectionLimiter.hpp\<close>
    as steps of a state machine; \<open>AdmPipeline\<close>: runs of its operations with sweeps, and a frame going
    through both stages.
  \<^item> \<open>AdmProtobuf\<close>: \<^verbatim>\<open>ProtobufVisitor.hpp\<close> (locale \<open>element_scan\<close>), a visit ending where the language
    says nothing; \<open>AdmOverrun\<close>: the same visitor as a machine runs it there. \<open>AdmJson\<close>: \<^verbatim>\<open>JsonVisitor.hpp\<close>, with
    \<^verbatim>\<open>boost::json::basic_parser\<close> as a parameter: the callbacks it makes and how it ends.

  \<^bold>\<open>What is shown.\<close> Of the engine: parsing is parsing the effective fields, each of which
  judges the request as it was sent, and an override replaces in place. Of the handlers: none throws on any request, every
  member of every Input is bound, limits and ledgers on Clio are in the documented range, and for
  some handlers and fields exactly which requests are accepted and what is made of them. Of the
  values: the exact language of validators, and agreement of converters with the validators before
  them. Of admission: rate limits over every interleaving of requests and of
  threads, the bound on tracked connections, fairness to a client that waits, that sweeping idle
  connections changes no answer, exactly which frames pass both stages and at what cost, and what
  the visitors show to a check. Of the
  schema dump: its text reads back to the fields that are parsed.

  \<^bold>\<open>Idealisations.\<close> A double is the real number it denotes, with exact arithmetic; JSON has no
  infinities. The compare-and-swap loop of the token bucket is one step everywhere but in
  \<open>AdmConcurrent\<close>, where \<open>bucket_linearizable\<close> shows that consuming and returning may be taken so
  (\<^verbatim>\<open>consumeOrDrain\<close> may not: \<open>drain_race\<close>; the limiter, under its mutex, never calls it). Time points are integers, counts of nanoseconds. \<^verbatim>\<open>size_t\<close> has 64 bits and is a
  natural number where it counts elements in memory. \<^verbatim>\<open>memcpy\<close> reads little-endian integers. A hash
  map of the limiter is an association list without repeated keys; no property depends on its order.
  A check of the protobuf and the passthrough visitor does not throw; one of the JSON visitor may.
  \<^verbatim>\<open>std::get_time\<close> is a parameter of the time format. What the language does not define is an outcome
  of its own (\<open>Throw\<close>, \<open>Inl\<close>), so that theorems say when it cannot happen.

  \<^bold>\<open>Termination and bounds.\<close> There is no fuel: the loops are recursions on lists or with a measure, the
  bytes that are left for the visitors, but for two partial functions: the loop that borrows tokens,
  which \<open>borrow_outcome\<close> shows to return, and the protobuf visitor as compiled, which returns when the
  visit stays defined and then makes at most one call of the check per two bytes
  (\<open>visitProtobuf_work\<close>), and which a payload of eleven bytes keeps busy for ever
  (\<open>visitProtobuf_hangs\<close>).

  \<^bold>\<open>Not modelled.\<close> The concepts that only constrain templates; the clock and the sleeping of the token
  bucket, an argument and a result; how a stream prints a double in a schema, a parameter; umbrella
  headers, tests and the build. Of the schemas of the 34 handlers one is written out.
\<close>

end
